theory Spec2Isabelle
  imports Complex_Main "HOL-Library.Word"
begin

unbundle bit_operations_syntax

section \<open>Errors\<close>

text \<open>
  The executor's C code leaves a function early in these ways, each a value here:
  \<^item> \<open>InternalError\<close>, \<open>RangeError\<close>: \<open>DUK_ERROR\<close> with that error code;
  \<^item> \<open>ReferenceError\<close>: thrown by an identifier lookup called with its throw flag
    set, for an identifier that does not resolve;
  \<^item> \<open>ApiError\<close>: an error thrown by a value-stack API call (invalid index,
    push beyond the allocated stack);
  \<^item> \<open>CoercionError\<close>: an error thrown by user code run by a coercion or a lookup;
  \<^item> \<open>Fault\<close>: the C code would read or write outside an array, follow a NULL
    pointer or read a tagged value through the wrong union member; these are the
    paths its \<open>DUK_ASSERT\<close>s exclude.
\<close>

datatype exec_error = InternalError | RangeError | ReferenceError | ApiError | CoercionError | Fault

definition bindE :: "'e + 'a \<Rightarrow> ('a \<Rightarrow> 'e + 'b) \<Rightarrow> 'e + 'b" where
  "bindE m f = (case m of Inl e \<Rightarrow> Inl e | Inr x \<Rightarrow> f x)"

section \<open>IEEE-754 doubles as bit fields\<close>

text \<open>
  A \<open>duk_double_t\<close> is its 64-bit pattern, split into the sign bit, the 11-bit biased
  exponent and the 52-bit fraction. Two values are equal exactly when their bit
  patterns are.
\<close>

datatype duk_double = Dbl (dbl_sign: bool) (dbl_expo: "11 word") (dbl_mant: "52 word")

definition DUK_ISNAN :: "duk_double \<Rightarrow> bool" where
  "DUK_ISNAN d = (dbl_expo d = 0x7FF \<and> dbl_mant d \<noteq> 0)"

text \<open>
  Modelled from the spec: the canonical normalized NaN (glossary, "Normalized NaN") and
  the macro \<open>DUK_DBLUNION_NORMALIZE_NAN_CHECK\<close>, whose header is not part of src. The
  canonical pattern is the quiet NaN \<open>0x7ff8000000000000\<close>.
\<close>

definition DUK_DOUBLE_NAN :: duk_double where
  "DUK_DOUBLE_NAN = Dbl False 0x7FF 0x8000000000000"

definition DUK_DBLUNION_NORMALIZE_NAN_CHECK :: "duk_double \<Rightarrow> duk_double" where
  "DUK_DBLUNION_NORMALIZE_NAN_CHECK d = (if DUK_ISNAN d then DUK_DOUBLE_NAN else d)"

definition DUK_DBLUNION_IS_NORMALIZED :: "duk_double \<Rightarrow> bool" where
  "DUK_DBLUNION_IS_NORMALIZED d = (\<not> DUK_ISNAN d \<or> d = DUK_DOUBLE_NAN)"

text \<open>The real number a finite double stands for.\<close>

definition double_value :: "duk_double \<Rightarrow> real" where
  "double_value d =
     (let e = unat (dbl_expo d); f = unat (dbl_mant d);
          s = (if dbl_sign d then - 1 else 1)
      in if e = 0 then s * real f / 2 ^ 1074
         else if 1075 \<le> e then s * real (2 ^ 52 + f) * 2 ^ (e - 1075)
         else s * real (2 ^ 52 + f) / 2 ^ (1075 - e))"

text \<open>
  The C casts between integers and doubles. \<open>ilog2 a\<close> is the position of the highest
  set bit of \<open>a\<close> and \<open>frac_of a\<close> the bits below it, moved up into the 52-bit
  fraction field. The cast of an integer below \<open>2^53\<close> is exact, so no rounding mode
  is involved; the executor only casts 32-bit values, instruction fields and longjmp
  types.
\<close>

fun ilog2 :: "nat \<Rightarrow> nat" where
  "ilog2 n = (if n < 2 then 0 else Suc (ilog2 (n div 2)))"

declare ilog2.simps [simp del]

definition frac_of :: "nat \<Rightarrow> nat" where
  "frac_of a = (a - 2 ^ ilog2 a) * 2 ^ (52 - ilog2 a)"

definition uint_to_double :: "nat \<Rightarrow> duk_double" where
  "uint_to_double a =
     (if a = 0 then Dbl False 0 0
      else Dbl False (of_nat (1023 + ilog2 a)) (of_nat (frac_of a)))"

definition int_to_double :: "int \<Rightarrow> duk_double" where
  "int_to_double v =
     (let d = uint_to_double (nat \<bar>v\<bar>)
      in Dbl (v < 0) (dbl_expo d) (dbl_mant d))"

text \<open>\<open>floor \<bar>d\<bar>\<close> of a finite double, as a natural number.\<close>

definition double_floor_abs :: "duk_double \<Rightarrow> nat" where
  "double_floor_abs d =
     (let e = unat (dbl_expo d); m = 2 ^ 52 + unat (dbl_mant d)
      in if e = 0 then 0
         else if 1075 \<le> e then m * 2 ^ (e - 1075)
         else m div 2 ^ (1075 - e))"

text \<open>
  The C cast of a double to an unsigned integer type truncates towards zero; it is
  undefined for NaN, the infinities and values outside the target's range
  (\<open>None\<close> here, with a 32-bit target).
\<close>

definition double_to_uint :: "duk_double \<Rightarrow> nat option" where
  "double_to_uint d =
     (if dbl_expo d = 0x7FF then None
      else let n = double_floor_abs d
           in if dbl_sign d \<and> 0 < n then None
              else if 2 ^ 32 \<le> n then None
              else Some n)"

text \<open>
  Modelled from the spec: \<open>ToInt32\<close> on a number (section 4.1 delegates it to the
  external coercion routines; the source cites E5 for it): NaN and the infinities give
  0, every other value is truncated and reduced modulo \<open>2^32\<close>.
\<close>

definition duk_double_to_int32 :: "duk_double \<Rightarrow> 32 word" where
  "duk_double_to_int32 d =
     (if dbl_expo d = 0x7FF then 0
      else word_of_int ((if dbl_sign d then - 1 else 1) * int (double_floor_abs d)))"

section \<open>Tagged values\<close>

datatype duk_tval =
    TV_Number duk_double
  | TV_Boolean bool
  | TV_Null
  | TV_Undefined
  | TV_Unused
  | TV_String string
  | TV_Object nat
  | TV_Lightfunc nat
  | TV_Buffer nat

definition DUK_TVAL_IS_NUMBER :: "duk_tval \<Rightarrow> bool" where
  "DUK_TVAL_IS_NUMBER tv = (case tv of TV_Number d \<Rightarrow> True | _ \<Rightarrow> False)"

definition DUK_TVAL_GET_NUMBER :: "duk_tval \<Rightarrow> exec_error + duk_double" where
  "DUK_TVAL_GET_NUMBER tv = (case tv of TV_Number d \<Rightarrow> Inr d | _ \<Rightarrow> Inl Fault)"

definition DUK_TVAL_IS_STRING :: "duk_tval \<Rightarrow> bool" where
  "DUK_TVAL_IS_STRING tv = (case tv of TV_String s \<Rightarrow> True | _ \<Rightarrow> False)"

text \<open>
  Invariant (i) of the data model: a number is stored with a non-NaN pattern or with
  the canonical NaN.
\<close>

definition tval_normalized :: "duk_tval \<Rightarrow> bool" where
  "tval_normalized tv =
     (case tv of TV_Number d \<Rightarrow> DUK_DBLUNION_IS_NORMALIZED d | _ \<Rightarrow> True)"

section \<open>Functions, activations, catchers, threads, heap\<close>

record duk_hcompiledfunction =
  nregs :: nat
  consts_base :: "duk_tval list"

datatype duk_native = duk_bi_thread_resume | duk_bi_thread_yield | duk_bi_other nat

datatype duk_hobject = COMPILEDFUNCTION duk_hcompiledfunction | NATIVEFUNCTION duk_native

text \<open>\<open>func\<close> is \<open>DUK_ACT_GET_FUNC\<close>; it is NULL for a light function.\<close>

record duk_activation =
  func :: "duk_hobject option"
  pc :: nat
  idx_bottom :: nat
  idx_retval :: nat
  lex_env :: "nat option"
  var_env :: "nat option"

datatype duk_cat_type = DUK_CAT_TYPE_TCF | DUK_CAT_TYPE_LABEL

text \<open>
  The catcher's \<open>flags\<close> word, field by field (the bit layout is in a header outside
  src): the type, the four flags and the label id.
\<close>

record duk_catcher =
  cat_type :: duk_cat_type
  cat_label :: nat
  catch_enabled :: bool
  finally_enabled :: bool
  catch_binding_enabled :: bool
  lexenv_active :: bool
  callstack_index :: nat
  pc_base :: nat
  idx_base :: nat
  h_varname :: "string option"

datatype duk_hthread_state =
    DUK_HTHREAD_STATE_INACTIVE
  | DUK_HTHREAD_STATE_RUNNING
  | DUK_HTHREAD_STATE_RESUMED
  | DUK_HTHREAD_STATE_YIELDED
  | DUK_HTHREAD_STATE_TERMINATED

text \<open>
  A thread owns its three stacks. \<open>valstack\<close> holds the live slots
  \<open>valstack[0 .. valstack_top)\<close>, so \<open>valstack_top\<close> is its length; \<open>valstack_size\<close> is
  the number of allocated slots (\<open>valstack_end - valstack\<close>) and \<open>valstack_max\<close> the
  limit beyond which a resize fails. \<open>callstack\<close> and \<open>catchstack\<close> hold the entries
  below \<open>callstack_top\<close> and \<open>catchstack_top\<close>. \<open>resumer\<close> is a reference to a
  thread of the heap, \<open>None\<close> for NULL.
\<close>

record duk_hthread =
  state :: duk_hthread_state
  resumer :: "nat option"
  valstack :: "duk_tval list"
  valstack_bottom :: nat
  valstack_size :: nat
  valstack_max :: nat
  callstack :: "duk_activation list"
  catchstack :: "duk_catcher list"

record duk_ljstate =
  lj_type :: nat
  iserror :: bool
  value1 :: duk_tval
  value2 :: duk_tval

text \<open>
  The heap owns the threads (a thread pointer is an index into \<open>threads\<close>), the
  current-thread pointer and the longjmp state.
\<close>

record duk_heap =
  threads :: "duk_hthread list"
  curr_thread :: nat
  lj :: duk_ljstate

text \<open>
  Modelled from the spec: the longjmp types, numbered in the order in which the data
  model lists them (their \<open>#define\<close>s are in a header outside src). The handler
  stores the type in a register as a number and \<open>ENDFIN\<close> reads it back.
\<close>

definition DUK_LJ_TYPE_UNKNOWN :: nat where "DUK_LJ_TYPE_UNKNOWN = 0"
definition DUK_LJ_TYPE_RETURN :: nat where "DUK_LJ_TYPE_RETURN = 1"
definition DUK_LJ_TYPE_THROW :: nat where "DUK_LJ_TYPE_THROW = 2"
definition DUK_LJ_TYPE_BREAK :: nat where "DUK_LJ_TYPE_BREAK = 3"
definition DUK_LJ_TYPE_CONTINUE :: nat where "DUK_LJ_TYPE_CONTINUE = 4"
definition DUK_LJ_TYPE_YIELD :: nat where "DUK_LJ_TYPE_YIELD = 5"
definition DUK_LJ_TYPE_RESUME :: nat where "DUK_LJ_TYPE_RESUME = 6"
definition DUK_LJ_TYPE_NORMAL :: nat where "DUK_LJ_TYPE_NORMAL = 7"

section \<open>External collaborators\<close>

text \<open>
  What the executor consumes through interfaces only (section 1 of the spec) is a
  parameter of the model: compile-time configuration, the floating-point unit, the
  coercion routines, identifier lookup and the call set-up. A coercion or lookup
  returns its result or the error it throws; what user code run by it does to the
  object graph is outside the model.
\<close>

record extern =
  DUK_VALSTACK_INTERNAL_EXTRA :: nat
  DUK_BC_REGLIMIT :: nat
  DUK_USE_AUGMENT_ERROR_THROW :: bool
  duk_err_augment_error_throw :: "duk_hthread \<Rightarrow> exec_error + duk_hthread"
  duk_js_init_activation_environment_records_delayed :: "duk_activation \<Rightarrow> duk_activation"
  new_declarative_env :: "nat option \<Rightarrow> string \<Rightarrow> duk_tval \<Rightarrow> nat"
  duk_handle_ecma_call_setup :: "duk_hthread \<Rightarrow> exec_error + (bool \<times> duk_hthread)"
  js_tonumber :: "duk_tval \<Rightarrow> exec_error + duk_double"
  js_toprimitive :: "duk_tval \<Rightarrow> exec_error + duk_tval"
  js_tostring :: "duk_tval \<Rightarrow> exec_error + string"
  fp_add :: "duk_double \<Rightarrow> duk_double \<Rightarrow> duk_double"
  fp_sub :: "duk_double \<Rightarrow> duk_double \<Rightarrow> duk_double"
  fp_mul :: "duk_double \<Rightarrow> duk_double \<Rightarrow> duk_double"
  fp_div :: "duk_double \<Rightarrow> duk_double \<Rightarrow> duk_double"
  fp_fmod :: "duk_double \<Rightarrow> duk_double \<Rightarrow> duk_double"
  env_chain_lookup :: "duk_hthread \<Rightarrow> duk_activation \<Rightarrow> string \<Rightarrow> exec_error + (duk_tval \<times> duk_tval) option"
  duk_js_typeof :: "duk_tval \<Rightarrow> string"

section \<open>The value-stack API consumed by the executor\<close>

text \<open>
  Modelled from the spec: the embedder API of section 6 (\<open>push\<close>, \<open>pop\<close>,
  \<open>replace\<close>, \<open>dup\<close>, \<open>get_top\<close>, \<open>set_top\<close>), whose implementation is not part of
  src. An index is relative to \<open>valstack_bottom\<close>, a negative one counts from the
  top; an invalid index and a push beyond the allocated stack throw.
\<close>

definition duk_get_top :: "duk_hthread \<Rightarrow> nat" where
  "duk_get_top thr = length (valstack thr) - valstack_bottom thr"

definition duk_normalize_index :: "duk_hthread \<Rightarrow> int \<Rightarrow> nat option" where
  "duk_normalize_index thr i =
     (let n = int (duk_get_top thr); j = (if i < 0 then n + i else i)
      in if 0 \<le> j \<and> j < n then Some (valstack_bottom thr + nat j) else None)"

definition duk_require_tval :: "duk_hthread \<Rightarrow> int \<Rightarrow> exec_error + duk_tval" where
  "duk_require_tval thr i =
     (case duk_normalize_index thr i of
        None \<Rightarrow> Inl ApiError
      | Some k \<Rightarrow> Inr (valstack thr ! k))"

definition duk_push_tval :: "duk_hthread \<Rightarrow> duk_tval \<Rightarrow> exec_error + duk_hthread" where
  "duk_push_tval thr tv =
     (if valstack_size thr \<le> length (valstack thr) then Inl ApiError
      else Inr (thr\<lparr>valstack := valstack thr @ [tv]\<rparr>))"

definition duk_pop_n :: "duk_hthread \<Rightarrow> nat \<Rightarrow> exec_error + duk_hthread" where
  "duk_pop_n thr n =
     (if duk_get_top thr < n then Inl ApiError
      else Inr (thr\<lparr>valstack := take (length (valstack thr) - n) (valstack thr)\<rparr>))"

definition duk_replace :: "duk_hthread \<Rightarrow> int \<Rightarrow> exec_error + duk_hthread" where
  "duk_replace thr to_index =
     (case duk_normalize_index thr (- 1) of
        None \<Rightarrow> Inl ApiError
      | Some t \<Rightarrow>
          (case duk_normalize_index thr to_index of
             None \<Rightarrow> Inl ApiError
           | Some k \<Rightarrow>
               Inr (thr\<lparr>valstack := butlast ((valstack thr)[k := valstack thr ! t])\<rparr>)))"

definition duk_dup :: "duk_hthread \<Rightarrow> int \<Rightarrow> exec_error + duk_hthread" where
  "duk_dup thr from_index = bindE (duk_require_tval thr from_index) (duk_push_tval thr)"

text \<open>
  \<open>set_top\<close>: new slots are filled with \<open>undefined\<close>, removed slots are released.
  The new top must lie within the allocated stack.
\<close>

definition duk_set_top :: "duk_hthread \<Rightarrow> int \<Rightarrow> exec_error + duk_hthread" where
  "duk_set_top thr i =
     (if length (valstack thr) < valstack_bottom thr then Inl Fault
      else let vs_size = int (duk_get_top thr);
               vs_limit = int (valstack_size thr) - int (valstack_bottom thr);
               j = (if i < 0 then vs_size + i else i)
           in if j < 0 \<or> vs_limit < j then Inl ApiError
              else if vs_size \<le> j
                then Inr (thr\<lparr>valstack := valstack thr @ replicate (nat (j - vs_size)) TV_Undefined\<rparr>)
                else Inr (thr\<lparr>valstack := take (valstack_bottom thr + nat j) (valstack thr)\<rparr>))"

text \<open>
  Modelled from the spec: \<open>duk_valstack_resize_raw\<close> with the shrink and throw flags
  (section 4.2: the stack is extended "to exactly" the requested size). The request
  must cover the live slots; a request beyond the thread's limit throws.
\<close>

definition duk_valstack_resize_raw :: "duk_hthread \<Rightarrow> nat \<Rightarrow> exec_error + duk_hthread" where
  "duk_valstack_resize_raw thr min_new_size =
     (if min_new_size < length (valstack thr) then Inl Fault
      else if valstack_max thr < min_new_size then Inl RangeError
      else Inr (thr\<lparr>valstack_size := min_new_size\<rparr>))"

text \<open>
  Modelled from the spec: the unwinds of section 4.2. Unwinding to index \<open>k\<close>
  destroys the entries \<open>[k, top)\<close>.
\<close>

definition duk_hthread_callstack_unwind :: "duk_hthread \<Rightarrow> nat \<Rightarrow> duk_hthread" where
  "duk_hthread_callstack_unwind thr new_top = thr\<lparr>callstack := take new_top (callstack thr)\<rparr>"

definition duk_hthread_catchstack_unwind :: "duk_hthread \<Rightarrow> nat \<Rightarrow> duk_hthread" where
  "duk_hthread_catchstack_unwind thr new_top = thr\<lparr>catchstack := take new_top (catchstack thr)\<rparr>"

text \<open>
  Modelled from the spec: \<open>duk_hthread_terminate\<close> (section 4.6, Running to
  Terminated). The source asserts the new state right after the call; the release of
  the thread's storage is not modelled.
\<close>

definition duk_hthread_terminate :: "duk_hthread \<Rightarrow> duk_hthread" where
  "duk_hthread_terminate thr = thr\<lparr>state := DUK_HTHREAD_STATE_TERMINATED\<rparr>"

text \<open>
  A store through a raw pointer \<open>thr->valstack + i\<close>, and the matching load. A slot at
  or above \<open>valstack_top\<close> is not live: the API overwrites it before it becomes
  readable, so a store there leaves the model's state as it is, and a load finds the
  unused marker. Outside the allocation both are memory faults.
\<close>

definition valstack_store :: "duk_hthread \<Rightarrow> nat \<Rightarrow> duk_tval \<Rightarrow> exec_error + duk_hthread" where
  "valstack_store thr i tv =
     (if i < length (valstack thr) then Inr (thr\<lparr>valstack := (valstack thr)[i := tv]\<rparr>)
      else if i < valstack_size thr then Inr thr
      else Inl Fault)"

definition valstack_load :: "duk_hthread \<Rightarrow> nat \<Rightarrow> exec_error + duk_tval" where
  "valstack_load thr i =
     (if i < length (valstack thr) then Inr (valstack thr ! i)
      else if i < valstack_size thr then Inr TV_Unused
      else Inl Fault)"

text \<open>Following a thread pointer of the heap, and writing a thread back.\<close>

definition get_thread :: "duk_heap \<Rightarrow> nat \<Rightarrow> exec_error + duk_hthread" where
  "get_thread h t = (if t < length (threads h) then Inr (threads h ! t) else Inl Fault)"

definition put_thread :: "duk_heap \<Rightarrow> nat \<Rightarrow> duk_hthread \<Rightarrow> duk_heap" where
  "put_thread h t thr = h\<lparr>threads := (threads h)[t := thr]\<rparr>"

text \<open>
  Modelled from the spec: \<open>duk_err_setup_heap_ljstate\<close> (section 4.3: a control
  transfer opcode populates the longjmp state): the type is recorded, the value on the
  stack top becomes \<open>value1\<close> and is popped. \<open>iserror\<close> is left as it is.
\<close>

definition duk_err_setup_heap_ljstate :: "duk_heap \<Rightarrow> nat \<Rightarrow> nat \<Rightarrow> exec_error + duk_heap" where
  "duk_err_setup_heap_ljstate h t ljt =
     bindE (get_thread h t) (\<lambda>thr.
       if valstack thr = [] then Inl Fault
       else bindE (duk_pop_n thr 1) (\<lambda>thr'.
         Inr ((put_thread h t thr')\<lparr>lj := (lj h)\<lparr>lj_type := ljt, value1 := last (valstack thr)\<rparr>\<rparr>)))"

section \<open>Arithmetic, bitwise and logical helpers\<close>

text \<open>
  Modelled from the spec: \<open>duk_to_number\<close> and \<open>duk_to_int32\<close> of the embedder API
  (section 4.1), which coerce the slot at an index in place and return the result. A
  number is its own \<open>ToNumber\<close>; another value goes through the external coercion.
\<close>

definition duk_js_tonumber :: "extern \<Rightarrow> duk_tval \<Rightarrow> exec_error + duk_double" where
  "duk_js_tonumber X tv = (case tv of TV_Number d \<Rightarrow> Inr d | _ \<Rightarrow> js_tonumber X tv)"

definition duk_js_toint32 :: "extern \<Rightarrow> duk_tval \<Rightarrow> exec_error + 32 word" where
  "duk_js_toint32 X tv = bindE (duk_js_tonumber X tv) (\<lambda>d. Inr (duk_double_to_int32 d))"

definition duk_to_number :: "extern \<Rightarrow> duk_hthread \<Rightarrow> int \<Rightarrow> exec_error + (duk_double \<times> duk_hthread)" where
  "duk_to_number X thr i =
     (case duk_normalize_index thr i of
        None \<Rightarrow> Inl ApiError
      | Some k \<Rightarrow>
          bindE (duk_js_tonumber X (valstack thr ! k))
            (\<lambda>d. Inr (d, thr\<lparr>valstack := (valstack thr)[k := TV_Number d]\<rparr>)))"

definition duk_to_int32 :: "extern \<Rightarrow> duk_hthread \<Rightarrow> int \<Rightarrow> exec_error + (32 word \<times> duk_hthread)" where
  "duk_to_int32 X thr i =
     bindE (duk_to_number X thr i) (\<lambda>(d, thr').
       let r = duk_double_to_int32 d
       in case duk_normalize_index thr' i of
            None \<Rightarrow> Inl ApiError
          | Some k \<Rightarrow>
              Inr (r, thr'\<lparr>valstack := (valstack thr')[k := TV_Number (int_to_double (sint r))]\<rparr>))"

datatype duk_opcode =
    DUK_OP_ADD | DUK_OP_SUB | DUK_OP_MUL | DUK_OP_DIV | DUK_OP_MOD
  | DUK_OP_BAND | DUK_OP_BOR | DUK_OP_BXOR | DUK_OP_BASL | DUK_OP_BLSR | DUK_OP_BASR
  | DUK_OP_BNOT | DUK_OP_LNOT | DUK_OP_INVALID

datatype duk_extraop =
    DUK_EXTRAOP_NOP | DUK_EXTRAOP_UNM | DUK_EXTRAOP_UNP | DUK_EXTRAOP_INC | DUK_EXTRAOP_DEC

text \<open>
  The register store shared by the helpers: \<open>tv_z = thr->valstack_bottom + idx_z\<close>,
  then the old value is replaced by the number.
\<close>

definition duk__set_reg_number :: "duk_hthread \<Rightarrow> nat \<Rightarrow> duk_double \<Rightarrow> exec_error + duk_hthread" where
  "duk__set_reg_number thr idx_z d = valstack_store thr (valstack_bottom thr + idx_z) (TV_Number d)"

text \<open>
  \<open>duk_check_type_mask\<close> with the string and buffer masks, and \<open>ToString\<close>: a string
  is its own, another value goes through the external coercion.
\<close>

definition is_string_or_buffer :: "duk_tval \<Rightarrow> bool" where
  "is_string_or_buffer tv = (case tv of TV_String s \<Rightarrow> True | TV_Buffer b \<Rightarrow> True | _ \<Rightarrow> False)"

definition duk_js_tostring :: "extern \<Rightarrow> duk_tval \<Rightarrow> exec_error + string" where
  "duk_js_tostring X tv = (case tv of TV_String s \<Rightarrow> Inr s | _ \<Rightarrow> js_tostring X tv)"

definition duk__vm_arith_add :: "extern \<Rightarrow> duk_hthread \<Rightarrow> duk_tval \<Rightarrow> duk_tval \<Rightarrow> nat \<Rightarrow> exec_error + duk_hthread" where
  "duk__vm_arith_add X thr tv_x tv_y idx_z =
     (if DUK_TVAL_IS_NUMBER tv_x \<and> DUK_TVAL_IS_NUMBER tv_y
      then
        bindE (DUK_TVAL_GET_NUMBER tv_x) (\<lambda>dx.
        bindE (DUK_TVAL_GET_NUMBER tv_y) (\<lambda>dy.
          duk__set_reg_number thr idx_z (DUK_DBLUNION_NORMALIZE_NAN_CHECK (fp_add X dx dy))))
      else
          bindE (duk_push_tval thr tv_x) (\<lambda>t1.
          bindE (duk_push_tval t1 tv_y) (\<lambda>t2.
          bindE (js_toprimitive X tv_x) (\<lambda>px.
          bindE (js_toprimitive X tv_y) (\<lambda>py.
            let t3 = t2\<lparr>valstack := butlast (butlast (valstack t2)) @ [px, py]\<rparr>
            in if is_string_or_buffer px \<or> is_string_or_buffer py
               then
                 bindE (duk_js_tostring X px) (\<lambda>s1.
                 bindE (duk_js_tostring X py) (\<lambda>s2.
                   let t4 = t3\<lparr>valstack := butlast (butlast (valstack t3)) @ [TV_String (s1 @ s2)]\<rparr>
                   in duk_replace t4 (int idx_z)))
               else
                 bindE (duk_to_number X t3 (- 2)) (\<lambda>(d1, t4).
                 bindE (duk_to_number X t4 (- 1)) (\<lambda>(d2, t5).
                   let du = DUK_DBLUNION_NORMALIZE_NAN_CHECK (fp_add X d1 d2)
                   in bindE (duk_pop_n t5 2) (\<lambda>t6.
                      bindE (duk_push_tval t6 (TV_Number du)) (\<lambda>t7.
                        duk_replace t7 (int idx_z))))))))))"

text \<open>
  The \<open>switch\<close> of \<open>duk__vm_arith_binary_op\<close>; \<open>duk__compute_mod\<close> is C's \<open>fmod\<close>.
\<close>

definition duk__compute_mod :: "extern \<Rightarrow> duk_double \<Rightarrow> duk_double \<Rightarrow> duk_double" where
  "duk__compute_mod X d1 d2 = fp_fmod X d1 d2"

definition duk__arith_binary_switch :: "extern \<Rightarrow> duk_opcode \<Rightarrow> duk_double \<Rightarrow> duk_double \<Rightarrow> duk_double" where
  "duk__arith_binary_switch X opcode d1 d2 =
     (case opcode of
        DUK_OP_SUB \<Rightarrow> fp_sub X d1 d2
      | DUK_OP_MUL \<Rightarrow> fp_mul X d1 d2
      | DUK_OP_DIV \<Rightarrow> fp_div X d1 d2
      | DUK_OP_MOD \<Rightarrow> duk__compute_mod X d1 d2
      | _ \<Rightarrow> DUK_DOUBLE_NAN)"

definition duk__vm_arith_binary_op :: "extern \<Rightarrow> duk_hthread \<Rightarrow> duk_tval \<Rightarrow> duk_tval \<Rightarrow> nat \<Rightarrow> duk_opcode \<Rightarrow> exec_error + duk_hthread" where
  "duk__vm_arith_binary_op X thr tv_x tv_y idx_z opcode =
     bindE
       (if DUK_TVAL_IS_NUMBER tv_x \<and> DUK_TVAL_IS_NUMBER tv_y
        then
          bindE (DUK_TVAL_GET_NUMBER tv_x) (\<lambda>dx.
          bindE (DUK_TVAL_GET_NUMBER tv_y) (\<lambda>dy. Inr (dx, dy, thr)))
        else
            bindE (duk_push_tval thr tv_x) (\<lambda>t1.
            bindE (duk_push_tval t1 tv_y) (\<lambda>t2.
            bindE (duk_to_number X t2 (- 2)) (\<lambda>(d1, t3).
            bindE (duk_to_number X t3 (- 1)) (\<lambda>(d2, t4).
            bindE (duk_pop_n t4 2) (\<lambda>t5. Inr (d1, d2, t5)))))))
       (\<lambda>(d1, d2, thr').
          let du = duk__arith_binary_switch X opcode d1 d2
          in duk__set_reg_number thr' idx_z (DUK_DBLUNION_NORMALIZE_NAN_CHECK du))"

text \<open>
  The \<open>switch\<close> of \<open>duk__vm_bitwise_binary_op\<close> on the two coerced operands. With a
  32-bit \<open>duk_int32_t\<close> the masks with \<open>0xffffffff\<close> change nothing; they are kept as
  written. \<open>>>\<close> on a signed operand is the arithmetic shift.
\<close>

definition duk__bitwise_switch :: "duk_opcode \<Rightarrow> 32 word \<Rightarrow> 32 word \<Rightarrow> duk_double" where
  "duk__bitwise_switch opcode i1 i2 =
     (case opcode of
        DUK_OP_BAND \<Rightarrow> int_to_double (sint (i1 AND i2))
      | DUK_OP_BOR \<Rightarrow> int_to_double (sint (i1 OR i2))
      | DUK_OP_BXOR \<Rightarrow> int_to_double (sint (i1 XOR i2))
      | DUK_OP_BASL \<Rightarrow>
          (let u2 = i2 AND 0xFFFFFFFF;
               i3 = push_bit (unat (u2 AND 0x1F)) i1;
               i3 = i3 AND 0xFFFFFFFF
           in int_to_double (sint i3))
      | DUK_OP_BASR \<Rightarrow>
          (let u2 = i2 AND 0xFFFFFFFF
           in int_to_double (sint (signed_drop_bit (unat (u2 AND 0x1F)) i1)))
      | DUK_OP_BLSR \<Rightarrow>
          (let u1 = i1 AND 0xFFFFFFFF;
               u2 = i2 AND 0xFFFFFFFF
           in uint_to_double (unat (drop_bit (unat (u2 AND 0x1F)) u1)))
      | _ \<Rightarrow> uint_to_double 0)"

definition duk__vm_bitwise_binary_op :: "extern \<Rightarrow> duk_hthread \<Rightarrow> duk_tval \<Rightarrow> duk_tval \<Rightarrow> nat \<Rightarrow> duk_opcode \<Rightarrow> exec_error + duk_hthread" where
  "duk__vm_bitwise_binary_op X thr tv_x tv_y idx_z opcode =
     bindE (duk_push_tval thr tv_x) (\<lambda>t1.
     bindE (duk_push_tval t1 tv_y) (\<lambda>t2.
     bindE (duk_to_int32 X t2 (- 2)) (\<lambda>(i1, t3).
     bindE (duk_to_int32 X t3 (- 1)) (\<lambda>(i2, t4).
     bindE (duk_pop_n t4 2) (\<lambda>t5.
       duk__set_reg_number t5 idx_z (duk__bitwise_switch opcode i1 i2))))))"

text \<open>Unary minus flips the sign bit; \<open>1.0\<close> has the biased exponent 1023.\<close>

definition fp_neg :: "duk_double \<Rightarrow> duk_double" where
  "fp_neg d = Dbl (\<not> dbl_sign d) (dbl_expo d) (dbl_mant d)"

definition fp_one :: duk_double where
  "fp_one = Dbl False 1023 0"

definition duk__arith_unary_switch :: "extern \<Rightarrow> duk_extraop \<Rightarrow> duk_double \<Rightarrow> duk_double" where
  "duk__arith_unary_switch X opcode d1 =
     (case opcode of
        DUK_EXTRAOP_UNM \<Rightarrow> fp_neg d1
      | DUK_EXTRAOP_UNP \<Rightarrow> d1
      | DUK_EXTRAOP_INC \<Rightarrow> fp_add X d1 fp_one
      | DUK_EXTRAOP_DEC \<Rightarrow> fp_sub X d1 fp_one
      | _ \<Rightarrow> DUK_DOUBLE_NAN)"

definition duk__vm_arith_unary_op :: "extern \<Rightarrow> duk_hthread \<Rightarrow> duk_tval \<Rightarrow> nat \<Rightarrow> duk_extraop \<Rightarrow> exec_error + duk_hthread" where
  "duk__vm_arith_unary_op X thr tv_x idx_z opcode =
     bindE
       (if DUK_TVAL_IS_NUMBER tv_x
        then bindE (DUK_TVAL_GET_NUMBER tv_x) (\<lambda>dx. Inr (dx, thr))
        else
            bindE (duk_push_tval thr tv_x) (\<lambda>t1.
            bindE (duk_to_number X t1 (- 1)) (\<lambda>(d1, t2).
            bindE (duk_pop_n t2 1) (\<lambda>t3. Inr (d1, t3)))))
       (\<lambda>(d1, thr').
          let du = duk__arith_unary_switch X opcode d1
          in duk__set_reg_number thr' idx_z (DUK_DBLUNION_NORMALIZE_NAN_CHECK du))"

definition duk__vm_bitwise_not :: "extern \<Rightarrow> duk_hthread \<Rightarrow> duk_tval \<Rightarrow> nat \<Rightarrow> exec_error + duk_hthread" where
  "duk__vm_bitwise_not X thr tv_x idx_z =
     bindE (duk_push_tval thr tv_x) (\<lambda>t1.
     bindE (duk_to_int32 X t1 (- 1)) (\<lambda>(i1, t2).
     bindE (duk_pop_n t2 1) (\<lambda>t3.
       let i2 = NOT i1
       in duk__set_reg_number t3 idx_z (int_to_double (sint i2)))))"

section \<open>Reconfiguring the value stack\<close>

text \<open>
  \<open>duk__reconfig_valstack\<close>. Reading \<open>nregs\<close> through the cast to
  \<open>duk_hcompiledfunction\<close> is a fault when the activation's function is not a
  compiled one. The first \<open>duk_set_top\<close> gets a signed index.
\<close>

definition duk__reconfig_valstack :: "extern \<Rightarrow> duk_hthread \<Rightarrow> nat \<Rightarrow> nat \<Rightarrow> exec_error + duk_hthread" where
  "duk__reconfig_valstack X thr act_idx retval_count =
     (if length (callstack thr) \<le> act_idx then Inl Fault
      else
        let act = callstack thr ! act_idx;
            thr1 = thr\<lparr>valstack_bottom := idx_bottom act\<rparr>
        in bindE (duk_set_top thr1 (int (idx_retval act) - int (idx_bottom act) + int retval_count)) (\<lambda>thr2.
             case func act of
               Some (COMPILEDFUNCTION h_func) \<Rightarrow>
                 bindE (duk_valstack_resize_raw thr2
                          (valstack_bottom thr2 + nregs h_func + DUK_VALSTACK_INTERNAL_EXTRA X)) (\<lambda>thr3.
                   duk_set_top thr3 (int (nregs h_func)))
             | _ \<Rightarrow> Inl Fault))"

section \<open>The longjmp handler\<close>

definition DUK__LONGJMP_RESTART :: nat where "DUK__LONGJMP_RESTART = 0"
definition DUK__LONGJMP_FINISHED :: nat where "DUK__LONGJMP_FINISHED = 1"
definition DUK__LONGJMP_RETHROW :: nat where "DUK__LONGJMP_RETHROW = 2"

text \<open>
  \<open>n - 1\<close> on a \<open>duk_size_t\<close> wraps at zero. Only that the wrapped value is larger
  than every stack index matters.
\<close>

definition DUK_SIZE_MAX :: nat where
  "DUK_SIZE_MAX = 2 ^ 64 - 1"

definition size_minus_1 :: "nat \<Rightarrow> nat" where
  "size_minus_1 n = (if n = 0 then DUK_SIZE_MAX else n - 1)"

text \<open>
  The catch-binding block of \<open>duk__handle_catch_or_finally\<close>: the activation's
  environments are created if still delayed, a declarative environment binding the
  catch variable is pushed, made the activation's \<open>lex_env\<close>, and popped; the
  catcher's lexenv-active flag is set.
\<close>

definition duk__catch_binding :: "extern \<Rightarrow> duk_ljstate \<Rightarrow> duk_hthread \<Rightarrow> nat \<Rightarrow> exec_error + duk_hthread" where
  "duk__catch_binding X ljs thr cat_idx =
     (let n = length (callstack thr) - 1;
          act0 = callstack thr ! n;
          act1 = (if lex_env act0 = None
                  then duk_js_init_activation_environment_records_delayed X act0 else act0)
      in case h_varname (catchstack thr ! cat_idx) of
           None \<Rightarrow> Inl Fault
         | Some name \<Rightarrow>
             let new_env = new_declarative_env X (lex_env act1) name (value1 ljs)
             in bindE (duk_push_tval thr (TV_Object new_env)) (\<lambda>t1.
                bindE (duk_push_tval t1 (TV_String name)) (\<lambda>t2.
                bindE (duk_push_tval t2 (value1 ljs)) (\<lambda>t3.
                bindE (duk_pop_n t3 2) (\<lambda>t4.
                  let t5 = t4\<lparr>callstack := (callstack t4)[n := act1\<lparr>lex_env := Some new_env\<rparr>],
                              catchstack := (catchstack t4)[cat_idx :=
                                 (catchstack t4 ! cat_idx)\<lparr>lexenv_active := True\<rparr>]\<rparr>
                  in duk_pop_n t5 1)))))"

definition duk__handle_catch_or_finally :: "extern \<Rightarrow> duk_ljstate \<Rightarrow> duk_hthread \<Rightarrow> nat \<Rightarrow> bool \<Rightarrow> exec_error + duk_hthread" where
  "duk__handle_catch_or_finally X ljs thr cat_idx is_finally =
     (if length (catchstack thr) \<le> cat_idx then Inl Fault
      else
        bindE (valstack_store thr (idx_base (catchstack thr ! cat_idx)) (value1 ljs)) (\<lambda>thr1.
        bindE (valstack_store thr1 (idx_base (catchstack thr1 ! cat_idx) + 1)
                 (TV_Number (uint_to_double (lj_type ljs)))) (\<lambda>thr2.
          let thr3 = duk_hthread_catchstack_unwind thr2 (cat_idx + 1);
              thr4 = duk_hthread_callstack_unwind thr3 (callstack_index (catchstack thr3 ! cat_idx) + 1)
          in if callstack thr4 = [] then Inl Fault
             else
               case func (last (callstack thr4)) of
                 Some (COMPILEDFUNCTION h_func) \<Rightarrow>
                   bindE (duk_set_top (thr4\<lparr>valstack_bottom := idx_bottom (last (callstack thr4))\<rparr>)
                            (int (nregs h_func))) (\<lambda>thr5.
                     let n = length (callstack thr5) - 1;
                         thr6 = thr5\<lparr>callstack := (callstack thr5)[n :=
                                  (callstack thr5 ! n)\<lparr>pc := pc_base (catchstack thr5 ! cat_idx)
                                                            + (if is_finally then 1 else 0)\<rparr>]\<rparr>
                     in bindE (if \<not> is_finally \<and> catch_binding_enabled (catchstack thr6 ! cat_idx)
                               then duk__catch_binding X ljs thr6 cat_idx else Inr thr6) (\<lambda>thr7.
                          if is_finally
                          then Inr (thr7\<lparr>catchstack := (catchstack thr7)[cat_idx :=
                                      (catchstack thr7 ! cat_idx)\<lparr>finally_enabled := False\<rparr>]\<rparr>)
                          else Inr (thr7\<lparr>catchstack := (catchstack thr7)[cat_idx :=
                                      (catchstack thr7 ! cat_idx)\<lparr>catch_enabled := False\<rparr>]\<rparr>)))
               | _ \<Rightarrow> Inl Fault)))"

definition duk__handle_label :: "duk_ljstate \<Rightarrow> duk_hthread \<Rightarrow> nat \<Rightarrow> exec_error + duk_hthread" where
  "duk__handle_label ljs thr cat_idx =
     (if callstack thr = [] \<or> length (catchstack thr) \<le> cat_idx then Inl Fault
      else
        let n = length (callstack thr) - 1;
            thr1 = thr\<lparr>callstack := (callstack thr)[n :=
                     (callstack thr ! n)\<lparr>pc := pc_base (catchstack thr ! cat_idx)
                        + (if lj_type ljs = DUK_LJ_TYPE_CONTINUE then 1 else 0)\<rparr>]\<rparr>
        in Inr (duk_hthread_catchstack_unwind thr1 (cat_idx + 1)))"

text \<open>
  \<open>duk__handle_yield\<close>: only the resumer is touched; \<open>thr\<close> is used for
  \<open>thr->heap->lj.value1\<close> alone.
\<close>

definition duk__handle_yield :: "extern \<Rightarrow> duk_heap \<Rightarrow> nat \<Rightarrow> nat \<Rightarrow> exec_error + duk_heap" where
  "duk__handle_yield X h resumer_ptr act_idx =
     bindE (get_thread h resumer_ptr) (\<lambda>res.
       if length (callstack res) \<le> act_idx then Inl Fault
       else
         bindE (valstack_store res (idx_retval (callstack res ! act_idx)) (value1 (lj h))) (\<lambda>res1.
           let res2 = duk_hthread_callstack_unwind res1 (act_idx + 1)
           in bindE (duk__reconfig_valstack X res2 act_idx 1) (\<lambda>res3.
                Inr (put_thread h resumer_ptr res3))))"

text \<open>
  The labels the handler jumps to. \<open>Check_longjmp\<close> carries the heap and the new
  \<open>thr\<close>; the two returning labels carry \<open>retval\<close>.
\<close>

datatype lj_goto =
    Check_longjmp duk_heap nat
  | Wipe_and_return nat duk_heap
  | Just_return nat duk_heap
  | Convert_to_internal_error

text \<open>The state switch shared by the resume paths and the one shared by yield and the thread-ending paths.\<close>

definition duk__switch_to_resumee :: "duk_heap \<Rightarrow> nat \<Rightarrow> nat \<Rightarrow> duk_heap" where
  "duk__switch_to_resumee h thr resumee =
     (let h1 = put_thread h resumee ((threads h ! resumee)\<lparr>resumer := Some thr\<rparr>);
          h2 = put_thread h1 resumee ((threads h1 ! resumee)\<lparr>state := DUK_HTHREAD_STATE_RUNNING\<rparr>);
          h3 = put_thread h2 thr ((threads h2 ! thr)\<lparr>state := DUK_HTHREAD_STATE_RESUMED\<rparr>)
      in h3\<lparr>curr_thread := resumee\<rparr>)"

definition duk__lj_resume :: "extern \<Rightarrow> duk_heap \<Rightarrow> nat \<Rightarrow> exec_error + lj_goto" where
  "duk__lj_resume X h thr =
     bindE (get_thread h thr) (\<lambda>T.
       case value2 (lj h) of
         TV_Object resumee \<Rightarrow>
           bindE (get_thread h resumee) (\<lambda>R.
             if iserror (lj h) then
               let h1 = duk__switch_to_resumee h thr resumee
               in Inr (Check_longjmp (h1\<lparr>lj := (lj h1)\<lparr>lj_type := DUK_LJ_TYPE_THROW\<rparr>\<rparr>) resumee)
             else if state R = DUK_HTHREAD_STATE_YIELDED then
               if length (callstack R) < 2 then Inl Fault
               else
                 let act_idx = length (callstack R) - 2
                 in bindE (valstack_store R (idx_retval (callstack R ! act_idx)) (value1 (lj h))) (\<lambda>R1.
                      let R2 = duk_hthread_callstack_unwind R1 (act_idx + 1)
                      in bindE (duk__reconfig_valstack X R2 act_idx 1) (\<lambda>R3.
                           Inr (Wipe_and_return DUK__LONGJMP_RESTART
                                  (duk__switch_to_resumee (put_thread h resumee R3) thr resumee))))
             else
               bindE (duk_push_tval R TV_Undefined) (\<lambda>R1.
               bindE (duk_push_tval R1 (value1 (lj h))) (\<lambda>R2.
               bindE (duk_handle_ecma_call_setup X R2) (\<lambda>(setup_rc, R3).
                 if \<not> setup_rc then Inl InternalError
                 else Inr (Wipe_and_return DUK__LONGJMP_RESTART
                             (duk__switch_to_resumee (put_thread h resumee R3) thr resumee))))))
       | _ \<Rightarrow> Inl Fault)"

definition duk__lj_yield :: "extern \<Rightarrow> duk_heap \<Rightarrow> nat \<Rightarrow> exec_error + lj_goto" where
  "duk__lj_yield X h thr =
     bindE (get_thread h thr) (\<lambda>T.
       case resumer T of
         None \<Rightarrow> Inl Fault
       | Some r \<Rightarrow>
           bindE (get_thread h r) (\<lambda>R.
             if iserror (lj h) then
               let h1 = put_thread h thr (T\<lparr>state := DUK_HTHREAD_STATE_YIELDED\<rparr>);
                   h2 = put_thread h1 thr ((threads h1 ! thr)\<lparr>resumer := None\<rparr>);
                   h3 = put_thread h2 r ((threads h2 ! r)\<lparr>state := DUK_HTHREAD_STATE_RUNNING\<rparr>);
                   h4 = h3\<lparr>curr_thread := r\<rparr>
               in Inr (Check_longjmp (h4\<lparr>lj := (lj h4)\<lparr>lj_type := DUK_LJ_TYPE_THROW\<rparr>\<rparr>) r)
             else if length (callstack R) < 2 then Inl Fault
             else
               bindE (duk__handle_yield X h r (length (callstack R) - 2)) (\<lambda>h0.
                 let h1 = put_thread h0 thr ((threads h0 ! thr)\<lparr>state := DUK_HTHREAD_STATE_YIELDED\<rparr>);
                     h2 = put_thread h1 thr ((threads h1 ! thr)\<lparr>resumer := None\<rparr>);
                     h3 = put_thread h2 r ((threads h2 ! r)\<lparr>state := DUK_HTHREAD_STATE_RUNNING\<rparr>)
                 in Inr (Wipe_and_return DUK__LONGJMP_RESTART (h3\<lparr>curr_thread := r\<rparr>)))))"

text \<open>
  The catch-stack walk of the \<open>return\<close> case, from \<open>cat = catchstack + k - 1\<close>
  downwards. \<open>Inl i\<close>: the catcher at index \<open>i\<close> is a finally-enabled
  try-catch-finally catcher of the returning frame. \<open>Inr k\<close>: the loop has ended
  with \<open>cat = catchstack + k - 1\<close>.
\<close>

fun duk__return_walk :: "duk_catcher list \<Rightarrow> nat \<Rightarrow> nat \<Rightarrow> nat + nat" where
  "duk__return_walk cs orig_callstack_index 0 = Inr 0"
| "duk__return_walk cs orig_callstack_index (Suc i) =
     (if callstack_index (cs ! i) \<noteq> orig_callstack_index then Inr (Suc i)
      else if cat_type (cs ! i) = DUK_CAT_TYPE_TCF \<and> finally_enabled (cs ! i) then Inl i
      else duk__return_walk cs orig_callstack_index i)"

text \<open>The thread-ending tail shared by the \<open>return\<close> and \<open>throw\<close> cases.\<close>

definition duk__terminate_and_switch :: "duk_heap \<Rightarrow> nat \<Rightarrow> nat \<Rightarrow> duk_heap" where
  "duk__terminate_and_switch h thr r =
     (let h1 = put_thread h thr (duk_hthread_terminate (threads h ! thr));
          h2 = put_thread h1 thr ((threads h1 ! thr)\<lparr>resumer := None\<rparr>);
          h3 = put_thread h2 r ((threads h2 ! r)\<lparr>state := DUK_HTHREAD_STATE_RUNNING\<rparr>)
      in h3\<lparr>curr_thread := r\<rparr>)"

definition duk__lj_return :: "extern \<Rightarrow> duk_heap \<Rightarrow> nat \<Rightarrow> nat \<Rightarrow> nat \<Rightarrow> exec_error + lj_goto" where
  "duk__lj_return X h thr entry_thread entry_callstack_top =
     bindE (get_thread h thr) (\<lambda>T.
       case duk__return_walk (catchstack T) (size_minus_1 (length (callstack T))) (length (catchstack T)) of
         Inl i \<Rightarrow>
           bindE (duk__handle_catch_or_finally X (lj h) T i True) (\<lambda>T'.
             Inr (Wipe_and_return DUK__LONGJMP_RESTART (put_thread h thr T')))
       | Inr k \<Rightarrow>
           if thr = entry_thread \<and> length (callstack T) = entry_callstack_top then
             bindE (duk_push_tval T (value1 (lj h))) (\<lambda>T'.
               Inr (Wipe_and_return DUK__LONGJMP_FINISHED (put_thread h thr T')))
           else if 2 \<le> length (callstack T) then
             bindE (valstack_store T (idx_retval (callstack T ! (length (callstack T) - 2)))
                      (value1 (lj h))) (\<lambda>T1.
               let T2 = duk_hthread_catchstack_unwind T1 k;
                   T3 = duk_hthread_callstack_unwind T2 (length (callstack T2) - 1)
               in bindE (duk__reconfig_valstack X T3 (length (callstack T3) - 1) 1) (\<lambda>T4.
                    Inr (Wipe_and_return DUK__LONGJMP_RESTART (put_thread h thr T4))))
           else
             (case resumer T of
                None \<Rightarrow> Inl Fault
              | Some r \<Rightarrow>
                  bindE (get_thread h r) (\<lambda>R.
                    if length (callstack R) < 2 then Inl Fault
                    else
                      bindE (duk__handle_yield X h r (length (callstack R) - 2)) (\<lambda>h0.
                        Inr (Wipe_and_return DUK__LONGJMP_RESTART
                               (duk__terminate_and_switch h0 thr r))))))"

text \<open>
  The walk of the \<open>break\<close>/\<open>continue\<close> case: a finally-enabled try-catch-finally
  catcher is tested before a label catcher, at each catcher of the frame
  \<open>orig_callstack_index\<close>.
\<close>

datatype label_walk = Walk_finally nat | Walk_label nat | Walk_none

fun duk__label_walk :: "duk_catcher list \<Rightarrow> nat \<Rightarrow> nat \<Rightarrow> nat \<Rightarrow> label_walk" where
  "duk__label_walk cs orig_callstack_index lj_label 0 = Walk_none"
| "duk__label_walk cs orig_callstack_index lj_label (Suc i) =
     (if callstack_index (cs ! i) \<noteq> orig_callstack_index then Walk_none
      else if cat_type (cs ! i) = DUK_CAT_TYPE_TCF \<and> finally_enabled (cs ! i) then Walk_finally i
      else if cat_type (cs ! i) = DUK_CAT_TYPE_LABEL \<and> cat_label (cs ! i) = lj_label then Walk_label i
      else duk__label_walk cs orig_callstack_index lj_label i)"

text \<open>
  The \<open>break\<close>/\<open>continue\<close> case reads \<open>cat->callstack_index\<close> of the top catcher
  before the loop tests \<open>cat >= thr->catchstack\<close>: on an empty catch stack this is a
  read below the array.
\<close>

definition duk__lj_break_continue :: "extern \<Rightarrow> duk_heap \<Rightarrow> nat \<Rightarrow> exec_error + lj_goto" where
  "duk__lj_break_continue X h thr =
     bindE (get_thread h thr) (\<lambda>T.
       if catchstack T = [] then Inl Fault
       else
         let orig_callstack_index = callstack_index (last (catchstack T))
         in bindE (DUK_TVAL_GET_NUMBER (value1 (lj h))) (\<lambda>d.
              case double_to_uint d of
                None \<Rightarrow> Inl Fault
              | Some lj_label \<Rightarrow>
                  (case duk__label_walk (catchstack T) orig_callstack_index lj_label (length (catchstack T)) of
                     Walk_finally i \<Rightarrow>
                       bindE (duk__handle_catch_or_finally X (lj h) T i True) (\<lambda>T'.
                         Inr (Wipe_and_return DUK__LONGJMP_RESTART (put_thread h thr T')))
                   | Walk_label i \<Rightarrow>
                       bindE (duk__handle_label (lj h) T i) (\<lambda>T'.
                         Inr (Wipe_and_return DUK__LONGJMP_RESTART (put_thread h thr T')))
                   | Walk_none \<Rightarrow> Inr Convert_to_internal_error)))"

text \<open>
  The walk of the \<open>throw\<close> case. \<open>Some (i, is_finally)\<close>: the catcher at index \<open>i\<close>
  takes the throw, as a catch or as a finally. \<open>None\<close>: nothing catches.
\<close>

fun duk__throw_walk :: "duk_catcher list \<Rightarrow> bool \<Rightarrow> nat \<Rightarrow> nat \<Rightarrow> (nat \<times> bool) option" where
  "duk__throw_walk cs is_entry_thread entry_callstack_index 0 = None"
| "duk__throw_walk cs is_entry_thread entry_callstack_index (Suc i) =
     (if is_entry_thread \<and> callstack_index (cs ! i) < entry_callstack_index then None
      else if catch_enabled (cs ! i) then Some (i, False)
      else if finally_enabled (cs ! i) then Some (i, True)
      else duk__throw_walk cs is_entry_thread entry_callstack_index i)"

definition duk__lj_throw :: "extern \<Rightarrow> duk_heap \<Rightarrow> nat \<Rightarrow> nat \<Rightarrow> nat \<Rightarrow> exec_error + lj_goto" where
  "duk__lj_throw X h thr entry_thread entry_callstack_top =
     bindE (get_thread h thr) (\<lambda>T.
       case duk__throw_walk (catchstack T) (thr = entry_thread) (size_minus_1 entry_callstack_top)
              (length (catchstack T)) of
         Some (i, is_finally) \<Rightarrow>
           bindE (duk__handle_catch_or_finally X (lj h) T i is_finally) (\<lambda>T'.
             Inr (Wipe_and_return DUK__LONGJMP_RESTART (put_thread h thr T')))
       | None \<Rightarrow>
           if thr = entry_thread then Inr (Just_return DUK__LONGJMP_RETHROW h)
           else
             (case resumer T of
                None \<Rightarrow> Inl Fault
              | Some r \<Rightarrow>
                  bindE (get_thread h r) (\<lambda>R.
                    Inr (Check_longjmp (duk__terminate_and_switch h thr r) r))))"

text \<open>The \<open>switch\<close> on \<open>thr->heap->lj.type\<close>, up to the jump out of it.\<close>

definition duk__handle_longjmp_switch :: "extern \<Rightarrow> duk_heap \<Rightarrow> nat \<Rightarrow> nat \<Rightarrow> nat \<Rightarrow> exec_error + lj_goto" where
  "duk__handle_longjmp_switch X h thr entry_thread entry_callstack_top =
     (if lj_type (lj h) = DUK_LJ_TYPE_RESUME then duk__lj_resume X h thr
      else if lj_type (lj h) = DUK_LJ_TYPE_YIELD then duk__lj_yield X h thr
      else if lj_type (lj h) = DUK_LJ_TYPE_RETURN then
        duk__lj_return X h thr entry_thread entry_callstack_top
      else if lj_type (lj h) = DUK_LJ_TYPE_BREAK \<or> lj_type (lj h) = DUK_LJ_TYPE_CONTINUE then
        duk__lj_break_continue X h thr
      else if lj_type (lj h) = DUK_LJ_TYPE_THROW then
        duk__lj_throw X h thr entry_thread entry_callstack_top
      else bindE (get_thread h thr) (\<lambda>T. Inr Convert_to_internal_error))"

definition duk__wipe_lj :: "duk_heap \<Rightarrow> duk_heap" where
  "duk__wipe_lj h =
     h\<lparr>lj := \<lparr>lj_type = DUK_LJ_TYPE_UNKNOWN, iserror = False,
               value1 = TV_Unused, value2 = TV_Unused\<rparr>\<rparr>"

text \<open>
  What decreases at every \<open>goto check_longjmp\<close>: a resume or a yield with an error
  becomes a throw, and a throw that ends a thread clears that thread's resumer.
\<close>

definition resumers :: "duk_heap \<Rightarrow> nat" where
  "resumers h = length (filter (\<lambda>t. resumer t \<noteq> None) (threads h))"

definition lj_measure :: "duk_heap \<Rightarrow> nat" where
  "lj_measure h =
     (if lj_type (lj h) = DUK_LJ_TYPE_THROW then 0 else Suc (length (threads h))) + resumers h"

section \<open>The handler terminates\<close>

lemma filter_update_count:
  "i < length xs \<Longrightarrow>
     length (filter P (xs[i := y])) + (if P (xs ! i) then 1 else 0)
       = length (filter P xs) + (if P y then 1 else 0)"
proof (induction xs arbitrary: i)
  case Nil
  then show ?case by simp
next
  case (Cons x xs)
  then show ?case by (cases i) auto
qed

lemma resumers_le: "resumers h \<le> length (threads h)"
  by (simp add: resumers_def)

lemma put_thread_simps [simp]:
  "length (threads (put_thread h i t)) = length (threads h)"
  "lj (put_thread h i t) = lj h"
  "curr_thread (put_thread h i t) = curr_thread h"
  by (simp_all add: put_thread_def)

lemma threads_put_same: "i < length (threads h) \<Longrightarrow> threads (put_thread h i t) ! i = t"
  by (simp add: put_thread_def)

lemma threads_put_other: "i \<noteq> j \<Longrightarrow> threads (put_thread h i t) ! j = threads h ! j"
  by (simp add: put_thread_def)

lemma resumers_put:
  "i < length (threads h) \<Longrightarrow>
     resumers (put_thread h i t) + (if resumer (threads h ! i) \<noteq> None then 1 else 0)
       = resumers h + (if resumer t \<noteq> None then 1 else 0)"
  unfolding resumers_def put_thread_def
  using filter_update_count [of i "threads h" "\<lambda>t. resumer t \<noteq> None" t] by simp

lemma resumers_put_same_resumer:
  "resumer t = resumer (threads h ! i) \<Longrightarrow> resumers (put_thread h i t) = resumers h"
proof (cases "i < length (threads h)")
  case True
  assume "resumer t = resumer (threads h ! i)"
  with resumers_put [OF True, of t] show ?thesis by (simp split: if_splits)
next
  case False
  then have "(threads h)[i := t] = threads h" by (intro list_update_beyond) simp
  then show ?thesis by (simp add: resumers_def put_thread_def)
qed

lemma resumers_curr [simp]: "resumers (h\<lparr>curr_thread := c\<rparr>) = resumers h"
  by (simp add: resumers_def)

lemma resumers_lj [simp]: "resumers (h\<lparr>lj := l\<rparr>) = resumers h"
  by (simp add: resumers_def)

lemma terminate_and_switch_resumers:
  assumes "thr < length (threads h)" "resumer (threads h ! thr) \<noteq> None"
  shows "resumers (duk__terminate_and_switch h thr r) < resumers h"
proof -
  define h1 where "h1 = put_thread h thr (duk_hthread_terminate (threads h ! thr))"
  define h2 where "h2 = put_thread h1 thr ((threads h1 ! thr)\<lparr>resumer := None\<rparr>)"
  define h3 where "h3 = put_thread h2 r ((threads h2 ! r)\<lparr>state := DUK_HTHREAD_STATE_RUNNING\<rparr>)"
  have 1: "resumers h1 = resumers h"
    unfolding h1_def by (rule resumers_put_same_resumer) (simp add: duk_hthread_terminate_def)
  have l1: "thr < length (threads h1)" using assms by (simp add: h1_def)
  have r1: "resumer (threads h1 ! thr) \<noteq> None"
    using assms by (simp add: h1_def threads_put_same duk_hthread_terminate_def)
  have 2: "resumers h2 < resumers h1"
    using resumers_put [OF l1, of "(threads h1 ! thr)\<lparr>resumer := None\<rparr>"] r1
    by (simp add: h2_def)
  have 3: "resumers h3 = resumers h2"
    unfolding h3_def by (rule resumers_put_same_resumer) simp
  have "duk__terminate_and_switch h thr r = h3\<lparr>curr_thread := r\<rparr>"
    by (simp add: duk__terminate_and_switch_def Let_def h1_def h2_def h3_def)
  with 1 2 3 show ?thesis by simp
qed

lemma terminate_and_switch_lj [simp]:
  "lj (duk__terminate_and_switch h thr r) = lj h"
  "length (threads (duk__terminate_and_switch h thr r)) = length (threads h)"
  by (simp_all add: duk__terminate_and_switch_def Let_def)

lemma switch_to_resumee_len [simp]:
  "length (threads (duk__switch_to_resumee h thr r)) = length (threads h)"
  "lj (duk__switch_to_resumee h thr r) = lj h"
  by (simp_all add: duk__switch_to_resumee_def Let_def)

lemma get_thread_Inr: "get_thread h t = Inr T \<longleftrightarrow> t < length (threads h) \<and> T = threads h ! t"
  by (auto simp add: get_thread_def)

lemma lj_throw_check:
  assumes "duk__lj_throw X h thr et ect = Inr (Check_longjmp h' thr')"
  shows "thr < length (threads h) \<and> thr \<noteq> et
       \<and> duk__throw_walk (catchstack (threads h ! thr)) False (size_minus_1 ect)
            (length (catchstack (threads h ! thr))) = None
       \<and> resumer (threads h ! thr) = Some thr' \<and> thr' < length (threads h)
       \<and> h' = duk__terminate_and_switch h thr thr'"
  using assms unfolding duk__lj_throw_def
  by (auto simp add: get_thread_def bindE_def split: if_splits option.splits sum.splits prod.splits)

lemma lj_yield_check:
  assumes "duk__lj_yield X h thr = Inr (Check_longjmp h' thr')"
  shows "lj_type (lj h') = DUK_LJ_TYPE_THROW \<and> length (threads h') = length (threads h)"
  using assms unfolding duk__lj_yield_def
  by (auto simp add: get_thread_def bindE_def Let_def split: if_splits option.splits sum.splits prod.splits)

lemma lj_resume_check:
  assumes "duk__lj_resume X h thr = Inr (Check_longjmp h' thr')"
  shows "lj_type (lj h') = DUK_LJ_TYPE_THROW \<and> length (threads h') = length (threads h)"
  using assms unfolding duk__lj_resume_def
  by (auto simp add: get_thread_def bindE_def Let_def split: if_splits option.splits sum.splits prod.splits duk_tval.splits)

lemma lj_return_check:
  "duk__lj_return X h thr et ect \<noteq> Inr (Check_longjmp h' thr')"
  unfolding duk__lj_return_def
  by (auto simp add: get_thread_def bindE_def Let_def split: if_splits option.splits sum.splits prod.splits)

lemma lj_break_continue_check:
  "duk__lj_break_continue X h thr \<noteq> Inr (Check_longjmp h' thr')"
  unfolding duk__lj_break_continue_def
  by (auto simp add: get_thread_def bindE_def Let_def split: if_splits option.splits sum.splits prod.splits label_walk.splits)

lemma lj_types_distinct [simp]:
  "DUK_LJ_TYPE_RESUME \<noteq> DUK_LJ_TYPE_THROW" "DUK_LJ_TYPE_YIELD \<noteq> DUK_LJ_TYPE_THROW"
  by (simp_all add: DUK_LJ_TYPE_RESUME_def DUK_LJ_TYPE_THROW_def DUK_LJ_TYPE_YIELD_def)

lemma switch_check_decreases:
  assumes "duk__handle_longjmp_switch X h thr et ect = Inr (Check_longjmp h' thr')"
  shows "lj_measure h' < lj_measure h"
proof -
  consider (resume) "lj_type (lj h) = DUK_LJ_TYPE_RESUME" "duk__lj_resume X h thr = Inr (Check_longjmp h' thr')"
    | (yield) "lj_type (lj h) = DUK_LJ_TYPE_YIELD" "duk__lj_yield X h thr = Inr (Check_longjmp h' thr')"
    | (throw) "lj_type (lj h) = DUK_LJ_TYPE_THROW" "duk__lj_throw X h thr et ect = Inr (Check_longjmp h' thr')"
    using assms unfolding duk__handle_longjmp_switch_def
    by (auto simp add: lj_return_check lj_break_continue_check bindE_def split: if_splits sum.splits)
  then show ?thesis
  proof cases
    case resume
    from lj_resume_check [OF resume(2)] resume(1) resumers_le [of h'] show ?thesis
      by (simp add: lj_measure_def)
  next
    case yield
    from lj_yield_check [OF yield(2)] yield(1) resumers_le [of h'] show ?thesis
      by (simp add: lj_measure_def)
  next
    case throw
    from lj_throw_check [OF throw(2)] have
      t: "thr < length (threads h)" "resumer (threads h ! thr) = Some thr'"
      and h': "h' = duk__terminate_and_switch h thr thr'" by simp_all
    from t have "resumers h' < resumers h"
      unfolding h' by (intro terminate_and_switch_resumers) simp_all
    then show ?thesis using throw(1) by (simp add: lj_measure_def h')
  qed
qed

text \<open>
  \<open>duk__handle_longjmp\<close>: the switch, re-entered at \<open>check_longjmp\<close>, and the code
  at the three labels below it. \<open>retval\<close> is returned with the heap.
\<close>

function duk__handle_longjmp :: "extern \<Rightarrow> duk_heap \<Rightarrow> nat \<Rightarrow> nat \<Rightarrow> nat \<Rightarrow> exec_error + (nat \<times> duk_heap)" where
  "duk__handle_longjmp X h thr entry_thread entry_callstack_top =
     (case duk__handle_longjmp_switch X h thr entry_thread entry_callstack_top of
        Inl e \<Rightarrow> Inl e
      | Inr (Check_longjmp h' thr') \<Rightarrow> duk__handle_longjmp X h' thr' entry_thread entry_callstack_top
      | Inr (Wipe_and_return retval h') \<Rightarrow> Inr (retval, duk__wipe_lj h')
      | Inr (Just_return retval h') \<Rightarrow> Inr (retval, h')
      | Inr Convert_to_internal_error \<Rightarrow> Inl InternalError)"
  by pat_completeness auto
termination
  by (relation "measure (\<lambda>(X, h, thr, et, ect). lj_measure h)")
     (auto simp add: switch_check_decreases)

section \<open>The executor's catchpoint and three of its opcodes\<close>

text \<open>
  The \<open>setjmp\<close> branch of \<open>duk_js_execute_bytecode\<close>: the handler runs on the heap's
  current thread; the executor then restarts dispatch, re-raises the pending error
  to its caller with \<open>duk_err_longjmp\<close>, or returns.
\<close>

datatype exec_outcome = Exec_restart duk_heap | Exec_rethrow duk_heap | Exec_finished duk_heap

definition duk_js_execute_bytecode_catch :: "extern \<Rightarrow> duk_heap \<Rightarrow> nat \<Rightarrow> nat \<Rightarrow> exec_error + exec_outcome" where
  "duk_js_execute_bytecode_catch X h entry_thread entry_callstack_top =
     bindE (duk__handle_longjmp X h (curr_thread h) entry_thread entry_callstack_top) (\<lambda>(lj_ret, h').
       if lj_ret = DUK__LONGJMP_RESTART then Inr (Exec_restart h')
       else if lj_ret = DUK__LONGJMP_RETHROW then Inr (Exec_rethrow h')
       else Inr (Exec_finished h'))"

text \<open>
  An opcode either falls through to the next instruction or leaves through
  \<open>duk_err_longjmp\<close> with the longjmp state set up.
\<close>

datatype op_result = Op_next duk_heap | Op_longjmp duk_heap

definition op_ENDFIN :: "duk_heap \<Rightarrow> nat \<Rightarrow> exec_error + op_result" where
  "op_ENDFIN h thr =
     bindE (get_thread h thr) (\<lambda>T.
       if catchstack T = [] then Inl Fault
       else
         let cat = last (catchstack T)
         in bindE (valstack_load T (idx_base cat + 1)) (\<lambda>tv1.
            bindE (DUK_TVAL_GET_NUMBER tv1) (\<lambda>d.
              case double_to_uint d of
                None \<Rightarrow> Inl Fault
              | Some cont_type \<Rightarrow>
                  if cont_type = DUK_LJ_TYPE_NORMAL then
                    Inr (Op_next (put_thread h thr
                           (duk_hthread_catchstack_unwind T (length (catchstack T) - 1))))
                  else
                    bindE (valstack_load T (idx_base cat)) (\<lambda>tv.
                    bindE (duk_push_tval T tv) (\<lambda>T1.
                    bindE (duk_err_setup_heap_ljstate (put_thread h thr T1) thr cont_type) (\<lambda>h'.
                      Inr (Op_longjmp h')))))))"

text \<open>
  \<open>THROW\<close>. The call of \<open>duk_err_augment_error_throw\<close> is compiled in when
  \<open>DUK_USE_AUGMENT_ERROR_THROW\<close> is defined; it works on the value on the stack top.
\<close>

definition op_THROW :: "extern \<Rightarrow> duk_heap \<Rightarrow> nat \<Rightarrow> nat \<Rightarrow> exec_error + op_result" where
  "op_THROW X h thr b =
     bindE (get_thread h thr) (\<lambda>T.
     bindE (duk_dup T (int b)) (\<lambda>T1.
     bindE (if DUK_USE_AUGMENT_ERROR_THROW X then duk_err_augment_error_throw X T1 else Inr T1) (\<lambda>T2.
     bindE (duk_err_setup_heap_ljstate (put_thread h thr T2) thr DUK_LJ_TYPE_THROW) (\<lambda>h'.
       Inr (Op_longjmp h')))))"

text \<open>
  \<open>DUK__REGCONSTP\<close>: an operand below the threshold is a register, one at or above
  it an index into the function's constants, biased by the threshold.
\<close>

definition DUK__REGCONSTP :: "extern \<Rightarrow> duk_hthread \<Rightarrow> duk_hcompiledfunction \<Rightarrow> nat \<Rightarrow> exec_error + duk_tval" where
  "DUK__REGCONSTP X thr fun x =
     (if x < DUK_BC_REGLIMIT X then valstack_load thr (valstack_bottom thr + x)
      else if x - DUK_BC_REGLIMIT X < length (consts_base fun)
        then Inr (consts_base fun ! (x - DUK_BC_REGLIMIT X))
        else Inl Fault)"

definition DUK__CONSTP :: "duk_hcompiledfunction \<Rightarrow> nat \<Rightarrow> exec_error + duk_tval" where
  "DUK__CONSTP fun x =
     (if x < length (consts_base fun) then Inr (consts_base fun ! x) else Inl Fault)"

definition DUK_STRIDX_LC_UNDEFINED :: string where
  "DUK_STRIDX_LC_UNDEFINED = ''undefined''"

text \<open>
  Modelled from the spec: \<open>duk_js_getvar_activation(thr, act, name, throw)\<close>, which
  is called by the executor and defined outside src (identifiers are resolved via the
  activation's environment chain, and lookup walks the outer chain: sections 4.3 and
  6). The walk of the chain is the collaborator \<open>env_chain_lookup\<close>: it answers the
  value and the \<open>this\<close> binding of the identifier, or \<open>None\<close> for an identifier that
  no record of the chain binds, or the error thrown by user code that the walk runs.
  For a resolved identifier the value and the \<open>this\<close> binding are pushed and the
  result is true (the callers' comment: \<open>[... val this]\<close>). For an unresolvable one,
  the call throws when its throw flag is set, and otherwise returns false with the
  stack as it was (the caller's comment: unresolvable, no stack changes).
\<close>

definition duk_js_getvar_activation ::
    "extern \<Rightarrow> duk_hthread \<Rightarrow> duk_activation \<Rightarrow> string \<Rightarrow> bool \<Rightarrow> exec_error + (bool \<times> duk_hthread)" where
  "duk_js_getvar_activation X thr act name throw_flag =
     bindE (env_chain_lookup X thr act name) (\<lambda>found.
       case found of
         Some (val, this_binding) \<Rightarrow>
           bindE (duk_push_tval thr val) (\<lambda>t1.
           bindE (duk_push_tval t1 this_binding) (\<lambda>t2.
             Inr (True, t2)))
       | None \<Rightarrow> if throw_flag then Inl ReferenceError else Inr (False, thr))"

text \<open>
  \<open>GETVAR\<close> and \<open>TYPEOFID\<close>, on the running thread, with the dispatch loop's locals
  \<open>act\<close> and \<open>fun\<close>. \<open>GETVAR\<close> calls the lookup with its throw flag set, \<open>TYPEOFID\<close>
  with the flag cleared.
\<close>

definition op_GETVAR :: "extern \<Rightarrow> duk_hthread \<Rightarrow> duk_activation \<Rightarrow> duk_hcompiledfunction \<Rightarrow> nat \<Rightarrow> nat \<Rightarrow> exec_error + duk_hthread" where
  "op_GETVAR X thr act fun a bc =
     bindE (DUK__CONSTP fun bc) (\<lambda>tv1.
       case tv1 of
         TV_String name \<Rightarrow>
           bindE (duk_js_getvar_activation X thr act name True) (\<lambda>(rc, t1).
           bindE (duk_pop_n t1 1) (\<lambda>t2.
             duk_replace t2 (int a)))
       | _ \<Rightarrow> Inl InternalError)"

definition op_TYPEOFID :: "extern \<Rightarrow> duk_hthread \<Rightarrow> duk_activation \<Rightarrow> duk_hcompiledfunction \<Rightarrow> nat \<Rightarrow> nat \<Rightarrow> exec_error + duk_hthread" where
  "op_TYPEOFID X thr act fun b c =
     bindE (DUK__REGCONSTP X thr fun c) (\<lambda>tv.
       case tv of
         TV_String name \<Rightarrow>
           bindE (duk_js_getvar_activation X thr act name False) (\<lambda>(rc, t2).
             if rc then
               bindE (duk_require_tval t2 (- 2)) (\<lambda>tv2.
               bindE (duk_push_tval t2 (TV_String (duk_js_typeof X tv2))) (\<lambda>t3.
               bindE (duk_replace t3 (int b)) (\<lambda>t4.
                 duk_pop_n t4 2)))
             else
               bindE (duk_push_tval t2 (TV_String DUK_STRIDX_LC_UNDEFINED)) (\<lambda>t3.
                 duk_replace t3 (int b)))
       | _ \<Rightarrow> Inl Fault)"

section \<open>Sample collaborators and states\<close>

text \<open>
  The theorems below hold for every choice of the external collaborators. To run the
  model on concrete inputs, \<open>ext0\<close> fixes one: no throw-time augmentation, a spare of
  two slots, coercions of non-primitive values that throw, an identifier lookup that
  resolves nothing, and a floating-point unit that answers as an x86 FPU does on the
  operands used here (\<open>0/0\<close> is the default NaN, whose sign bit is set; an operation
  on a NaN returns that NaN) and returns its first operand otherwise.
\<close>

definition fp_zero :: duk_double where
  "fp_zero = Dbl False 0 0"

definition fp_x86_default_nan :: duk_double where
  "fp_x86_default_nan = Dbl True 0x7FF 0x8000000000000"

definition fpu0 :: "duk_double \<Rightarrow> duk_double \<Rightarrow> duk_double" where
  "fpu0 a b = (if DUK_ISNAN a then a else if DUK_ISNAN b then b else a)"

definition ext0 :: extern where
  "ext0 = \<lparr>
     DUK_VALSTACK_INTERNAL_EXTRA = 2,
     DUK_BC_REGLIMIT = 256,
     DUK_USE_AUGMENT_ERROR_THROW = False,
     duk_err_augment_error_throw = Inr,
     duk_js_init_activation_environment_records_delayed = (\<lambda>act. act),
     new_declarative_env = (\<lambda>outer name tv. 0),
     duk_handle_ecma_call_setup = (\<lambda>thr. Inr (False, thr)),
     js_tonumber = (\<lambda>tv. Inl CoercionError),
     js_toprimitive = Inr,
     js_tostring = (\<lambda>tv. Inl CoercionError),
     fp_add = fpu0,
     fp_sub = fpu0,
     fp_mul = fpu0,
     fp_div = (\<lambda>a b. if a = fp_zero \<and> b = fp_zero then fp_x86_default_nan else fpu0 a b),
     fp_fmod = fpu0,
     env_chain_lookup = (\<lambda>thr act name. Inr None),
     duk_js_typeof = (\<lambda>tv. ''undefined'')
   \<rparr>"

text \<open>A thread with two registers and room for two more slots.\<close>

definition thr_regs2 :: duk_hthread where
  "thr_regs2 = \<lparr>
     state = DUK_HTHREAD_STATE_RUNNING,
     resumer = None,
     valstack = [TV_Undefined, TV_Undefined],
     valstack_bottom = 0,
     valstack_size = 4,
     valstack_max = 64,
     callstack = [],
     catchstack = []
   \<rparr>"

text \<open>
  A thread whose only activation runs a compiled function with three registers from
  slot 1 on and awaits a return value in slot 2, while a callee's window (from slot 3)
  is still on the value stack.
\<close>

definition fun_regs3 :: duk_hcompiledfunction where
  "fun_regs3 = \<lparr>nregs = 3, consts_base = [TV_String ''x'']\<rparr>"

definition thr_caller :: duk_hthread where
  "thr_caller = \<lparr>
     state = DUK_HTHREAD_STATE_RUNNING,
     resumer = None,
     valstack = [TV_Null, TV_Boolean True, TV_Boolean False, TV_Null, TV_Null],
     valstack_bottom = 3,
     valstack_size = 8,
     valstack_max = 64,
     callstack = [\<lparr>func = Some (COMPILEDFUNCTION fun_regs3), pc = 10, idx_bottom = 1,
                   idx_retval = 2, lex_env = None, var_env = None\<rparr>],
     catchstack = []
   \<rparr>"


text \<open>
  A thread running a three-register function in its only frame, inside a
  \<open>try\<close> whose \<open>finally\<close> part is pending: the catcher uses registers 1 and 2 and
  its two jump slots are at pc 20. Register 0 holds an object; the frame awaits the
  return value of a call in register 1.
\<close>

definition lj_idle :: duk_ljstate where
  "lj_idle = \<lparr>lj_type = DUK_LJ_TYPE_UNKNOWN, iserror = False, value1 = TV_Unused, value2 = TV_Unused\<rparr>"

definition frame_main :: duk_activation where
  "frame_main = \<lparr>func = Some (COMPILEDFUNCTION fun_regs3), pc = 10, idx_bottom = 0,
                  idx_retval = 1, lex_env = None, var_env = None\<rparr>"

definition cat_finally :: duk_catcher where
  "cat_finally = \<lparr>cat_type = DUK_CAT_TYPE_TCF, cat_label = 0, catch_enabled = False,
                   finally_enabled = True, catch_binding_enabled = False, lexenv_active = False,
                   callstack_index = 0, pc_base = 20, idx_base = 1, h_varname = None\<rparr>"

definition thr_try :: duk_hthread where
  "thr_try = \<lparr>
     state = DUK_HTHREAD_STATE_RUNNING,
     resumer = None,
     valstack = [TV_Object 7, TV_Undefined, TV_Undefined],
     valstack_bottom = 0,
     valstack_size = 5,
     valstack_max = 64,
     callstack = [frame_main],
     catchstack = [cat_finally]
   \<rparr>"

definition heap_try :: "duk_ljstate \<Rightarrow> duk_heap" where
  "heap_try l = \<lparr>threads = [thr_try], curr_thread = 0, lj = l\<rparr>"

text \<open>
  Collaborators with throw-time augmentation compiled in, whose hook replaces the
  value on the stack top by another object, as a user error handler that returns a
  new error does.
\<close>

definition ext_errthrow :: extern where
  "ext_errthrow = ext0\<lparr>
     DUK_USE_AUGMENT_ERROR_THROW := True,
     duk_err_augment_error_throw :=
       (\<lambda>thr. if valstack thr = [] then Inl Fault
              else Inr (thr\<lparr>valstack := butlast (valstack thr) @ [TV_Object 99]\<rparr>))\<rparr>"

text \<open>
  A pending \<open>return true\<close>, and the heap after the handler has passed it to the
  \<open>finally\<close> part of \<open>thr_try\<close>: with the longjmp state \<open>l\<close>, and with \<open>n\<close> as the
  recorded continuation type.
\<close>

definition lj_return :: duk_ljstate where
  "lj_return = \<lparr>lj_type = DUK_LJ_TYPE_RETURN, iserror = False, value1 = TV_Boolean True,
                 value2 = TV_Unused\<rparr>"

definition heap_in_finally :: "duk_ljstate \<Rightarrow> nat \<Rightarrow> duk_heap" where
  "heap_in_finally l n =
     \<lparr>threads = [thr_try\<lparr>valstack := [TV_Object 7, TV_Boolean True, TV_Number (uint_to_double n)],
                          callstack := [frame_main\<lparr>pc := 21\<rparr>],
                          catchstack := [cat_finally\<lparr>finally_enabled := False\<rparr>]\<rparr>],
      curr_thread = 0, lj = l\<rparr>"

text \<open>
  \<open>thr_try\<close> with a callee frame on top (its window starts at slot 3), and a heap of
  two threads: thread 1 is a coroutine running its initial function, resumed by thread
  0 from inside a \<open>try\<close> with an active \<open>catch\<close> part; the topmost frame of thread 0
  is the native \<open>resume\<close> call.
\<close>

definition frame_callee :: duk_activation where
  "frame_callee = \<lparr>func = Some (COMPILEDFUNCTION fun_regs3), pc = 0, idx_bottom = 3,
                    idx_retval = 3, lex_env = None, var_env = None\<rparr>"

definition frame_resume :: duk_activation where
  "frame_resume = \<lparr>func = Some (NATIVEFUNCTION duk_bi_thread_resume), pc = 0, idx_bottom = 3,
                    idx_retval = 3, lex_env = None, var_env = None\<rparr>"

definition thr_nested :: duk_hthread where
  "thr_nested = thr_try\<lparr>
     valstack := [TV_Object 7, TV_Undefined, TV_Undefined, TV_Null, TV_Null, TV_Null],
     valstack_bottom := 3,
     valstack_size := 8,
     callstack := [frame_main, frame_callee]\<rparr>"

definition thr_resumer :: duk_hthread where
  "thr_resumer = thr_try\<lparr>
     state := DUK_HTHREAD_STATE_RESUMED,
     valstack := [TV_Object 7, TV_Undefined, TV_Undefined, TV_Object 1, TV_Null],
     valstack_bottom := 3,
     valstack_size := 8,
     callstack := [frame_main, frame_resume],
     catchstack := [cat_finally\<lparr>catch_enabled := True\<rparr>]\<rparr>"

definition thr_co :: duk_hthread where
  "thr_co = thr_try\<lparr>resumer := Some 0, catchstack := []\<rparr>"

definition heap_co :: "duk_ljstate \<Rightarrow> duk_heap" where
  "heap_co l = \<lparr>threads = [thr_resumer, thr_co], curr_thread = 1, lj = l\<rparr>"

text \<open>A pending throw of an error object.\<close>

definition lj_throw :: duk_ljstate where
  "lj_throw = \<lparr>lj_type = DUK_LJ_TYPE_THROW, iserror = False, value1 = TV_Object 8,
                value2 = TV_Unused\<rparr>"

text \<open>A pending yield of an error object, with the error flag set.\<close>

definition lj_yield_error :: duk_ljstate where
  "lj_yield_error = \<lparr>lj_type = DUK_LJ_TYPE_YIELD, iserror = True, value1 = TV_Object 8,
                      value2 = TV_Unused\<rparr>"

text \<open>
  The label catcher of a labelled statement of frame 0, with label id 5 and its two
  jump slots at pc 30, and a pending \<open>break\<close> and a pending \<open>continue\<close> to that
  label.
\<close>

definition cat_label5 :: duk_catcher where
  "cat_label5 = \<lparr>cat_type = DUK_CAT_TYPE_LABEL, cat_label = 5, catch_enabled = False,
                  finally_enabled = False, catch_binding_enabled = False, lexenv_active = False,
                  callstack_index = 0, pc_base = 30, idx_base = 0, h_varname = None\<rparr>"

definition lj_break5 :: duk_ljstate where
  "lj_break5 = \<lparr>lj_type = DUK_LJ_TYPE_BREAK, iserror = False,
                 value1 = TV_Number (uint_to_double 5), value2 = TV_Unused\<rparr>"

definition lj_continue5 :: duk_ljstate where
  "lj_continue5 = \<lparr>lj_type = DUK_LJ_TYPE_CONTINUE, iserror = False,
                    value1 = TV_Number (uint_to_double 5), value2 = TV_Unused\<rparr>"
section \<open>Lemmas: integer casts\<close>

lemma ilog2_bounds: "0 < n \<Longrightarrow> 2 ^ ilog2 n \<le> n \<and> n < 2 ^ Suc (ilog2 n)"
proof (induction n rule: ilog2.induct)
  case (1 n)
  show ?case
  proof (cases "n < 2")
    case True
    with 1 show ?thesis by (simp add: ilog2.simps)
  next
    case False
    then have "0 < n div 2" by simp
    with 1 False have IH: "2 ^ ilog2 (n div 2) \<le> n div 2 \<and> n div 2 < 2 ^ Suc (ilog2 (n div 2))" by simp
    have e: "ilog2 n = Suc (ilog2 (n div 2))" using False by (subst ilog2.simps) simp
    from IH show ?thesis unfolding e by (simp; linarith)
  qed
qed

lemma ilog2_less: "0 < n \<Longrightarrow> n < 2 ^ k \<Longrightarrow> ilog2 n < k"
proof -
  assume "0 < n" "n < 2 ^ k"
  then have "(2::nat) ^ ilog2 n < 2 ^ k" using ilog2_bounds [of n] by linarith
  then show ?thesis by simp
qed

lemma unat_of_nat11: "n < 2048 \<Longrightarrow> unat (word_of_nat n :: 11 word) = n"
  by (simp add: unat_of_nat)

lemma unat_of_nat52: "n < 4503599627370496 \<Longrightarrow> unat (word_of_nat n :: 52 word) = n"
  by (simp add: unat_of_nat)

lemma frac_bound:
  assumes "0 < a" "a < 2 ^ 53"
  shows "frac_of a < 4503599627370496"
    and "4503599627370496 + frac_of a = a * 2 ^ (52 - ilog2 a)"
proof -
  define e where "e = ilog2 a"
  define q :: nat where "q = 2 ^ (52 - e)"
  define r :: nat where "r = 2 ^ e"
  have e: "e \<le> 52" using ilog2_less [OF assms] by (simp add: e_def)
  have b: "r \<le> a" "a < 2 * r" using ilog2_bounds [OF assms(1)] by (simp_all add: e_def r_def)
  have "(2::nat) ^ 52 = 2 ^ (e + (52 - e))" using e by simp
  also have "\<dots> = r * q" by (simp only: power_add r_def q_def)
  finally have p: "r * q = 4503599627370496" by simp
  have q0: "0 < q" by (simp add: q_def)
  have f: "frac_of a = (a - r) * q" by (simp add: frac_of_def e_def q_def r_def)
  have "(a - r) * q < r * q" using b q0 by (intro mult_strict_right_mono) auto
  then show "frac_of a < 4503599627370496" using p f by simp
  have "(a - r) * q = a * q - r * q" by (simp add: diff_mult_distrib)
  moreover have "r * q \<le> a * q" using b by (intro mult_right_mono) auto
  ultimately have "r * q + (a - r) * q = a * q" by simp
  then show "4503599627370496 + frac_of a = a * 2 ^ (52 - ilog2 a)"
    using p f by (simp add: q_def e_def)
qed

lemma uint_to_double_pos:
  "0 < a \<Longrightarrow> uint_to_double a = Dbl False (word_of_nat (1023 + ilog2 a)) (word_of_nat (frac_of a))"
proof -
  assume "0 < a"
  then have "a \<noteq> 0" by simp
  then show ?thesis by (simp only: uint_to_double_def if_False)
qed

lemma uint_to_double_fields:
  assumes "0 < a" "a < 2 ^ 53"
  shows "unat (dbl_expo (uint_to_double a)) = 1023 + ilog2 a"
    and "unat (dbl_mant (uint_to_double a)) = frac_of a"
    and "dbl_sign (uint_to_double a) = False"
proof -
  have "ilog2 a < 53" using ilog2_less [OF assms] .
  then have "1023 + ilog2 a < 2048" by simp
  then show "unat (dbl_expo (uint_to_double a)) = 1023 + ilog2 a"
    by (simp only: uint_to_double_pos [OF assms(1)] duk_double.sel unat_of_nat11)
  show "unat (dbl_mant (uint_to_double a)) = frac_of a"
    by (simp only: uint_to_double_pos [OF assms(1)] duk_double.sel unat_of_nat52 frac_bound(1) [OF assms])
  show "dbl_sign (uint_to_double a) = False"
    by (simp only: uint_to_double_pos [OF assms(1)] duk_double.sel)
qed

lemma uint_to_double_expo: "a < 2 ^ 53 \<Longrightarrow> dbl_expo (uint_to_double a) \<noteq> 0x7FF"
proof (cases "a = 0")
  case True
  then show ?thesis by (simp add: uint_to_double_def)
next
  case False
  assume a: "a < 2 ^ 53"
  with False have "unat (dbl_expo (uint_to_double a)) = 1023 + ilog2 a"
    by (intro uint_to_double_fields) auto
  moreover have "ilog2 a < 53" using ilog2_less [of a 53] a False by simp
  ultimately have "unat (dbl_expo (uint_to_double a)) \<noteq> unat (0x7FF :: 11 word)" by simp
  then show ?thesis by metis
qed

lemma uint_to_double_not_nan: "a < 2 ^ 53 \<Longrightarrow> \<not> DUK_ISNAN (uint_to_double a)"
  using uint_to_double_expo [of a] by (simp add: DUK_ISNAN_def)

lemma floor_aux:
  fixes M a e :: nat
  assumes "e \<le> 52" "M = a * 2 ^ (52 - e)"
  shows "(if 1023 + e = 0 then 0
          else if 1075 \<le> 1023 + e then M * 2 ^ (1023 + e - 1075)
          else M div 2 ^ (1075 - (1023 + e))) = a"
proof (cases "e = 52")
  case True
  with assms show ?thesis by simp
next
  case False
  with assms have "1075 - (1023 + e) = 52 - e" "\<not> 1075 \<le> 1023 + e" by simp_all
  with assms show ?thesis by simp
qed

lemma double_floor_abs_uint: "a < 2 ^ 53 \<Longrightarrow> double_floor_abs (uint_to_double a) = a"
proof (cases "a = 0")
  case True
  then show ?thesis by (simp add: uint_to_double_def double_floor_abs_def)
next
  case False
  assume a: "a < 2 ^ 53"
  from False a have pos: "0 < a" by simp
  have e: "ilog2 a \<le> 52" using ilog2_less [OF pos a] by simp
  note f = uint_to_double_fields [OF pos a]
  have p: "2 ^ 52 + frac_of a = a * 2 ^ (52 - ilog2 a)" using frac_bound(2) [OF pos a] by simp
  show ?thesis
    unfolding double_floor_abs_def Let_def f
    by (rule floor_aux [OF e p])
qed

lemma value_aux:
  fixes a e :: nat and M :: real
  assumes "e \<le> 52" "M = real a * 2 ^ (52 - e)"
  shows "(if 1023 + e = 0 then 1 * real f / 2 ^ 1074
          else if 1075 \<le> 1023 + e then 1 * M * 2 ^ (1023 + e - 1075)
          else 1 * M / 2 ^ (1075 - (1023 + e))) = real a"
proof (cases "e = 52")
  case True
  with assms show ?thesis by simp
next
  case False
  with assms have "1075 - (1023 + e) = 52 - e" "\<not> 1075 \<le> 1023 + e" by simp_all
  with assms show ?thesis by simp
qed

lemma double_value_uint: "a < 2 ^ 53 \<Longrightarrow> double_value (uint_to_double a) = real a"
proof (cases "a = 0")
  case True
  then show ?thesis by (simp add: uint_to_double_def double_value_def)
next
  case False
  assume a: "a < 2 ^ 53"
  from False a have pos: "0 < a" by simp
  have e: "ilog2 a \<le> 52" using ilog2_less [OF pos a] by simp
  note f = uint_to_double_fields [OF pos a]
  have "real (2 ^ 52 + frac_of a) = real (a * 2 ^ (52 - ilog2 a))"
    using frac_bound(2) [OF pos a] by simp
  then have p: "real (2 ^ 52 + frac_of a) = real a * 2 ^ (52 - ilog2 a)" by simp
  show ?thesis
    unfolding double_value_def Let_def f if_False
    by (rule value_aux [OF e p])
qed

lemma double_to_uint_uint: "a < 2 ^ 32 \<Longrightarrow> double_to_uint (uint_to_double a) = Some a"
proof -
  assume a: "a < 2 ^ 32"
  then have a53: "a < 2 ^ 53" by simp
  have "\<not> dbl_sign (uint_to_double a)" by (simp add: uint_to_double_def Let_def)
  then show ?thesis
    using a uint_to_double_expo [OF a53]
    by (simp add: double_to_uint_def double_floor_abs_uint [OF a53])
qed

lemma int_to_double_not_nan: "\<bar>v\<bar> < 2 ^ 53 \<Longrightarrow> \<not> DUK_ISNAN (int_to_double v)"
proof -
  assume "\<bar>v\<bar> < 2 ^ 53"
  then have "nat \<bar>v\<bar> < 2 ^ 53" by (simp add: nat_less_iff)
  from uint_to_double_not_nan [OF this] show ?thesis
    by (simp add: int_to_double_def DUK_ISNAN_def Let_def)
qed

lemma double_value_sign:
  "double_value (Dbl s e m) = (if s then - 1 else 1) * double_value (Dbl False e m)"
  by (simp add: double_value_def Let_def)

lemma double_value_int: "\<bar>v\<bar> < 2 ^ 53 \<Longrightarrow> double_value (int_to_double v) = real_of_int v"
proof -
  assume "\<bar>v\<bar> < 2 ^ 53"
  then have n: "nat \<bar>v\<bar> < 2 ^ 53" by (simp add: nat_less_iff)
  have s: "uint_to_double (nat \<bar>v\<bar>) = Dbl False (dbl_expo (uint_to_double (nat \<bar>v\<bar>))) (dbl_mant (uint_to_double (nat \<bar>v\<bar>)))"
    by (simp add: uint_to_double_def Let_def)
  have "double_value (int_to_double v) = (if v < 0 then - 1 else 1) * double_value (uint_to_double (nat \<bar>v\<bar>))"
    unfolding int_to_double_def Let_def by (subst double_value_sign) (simp only: s [symmetric])
  also have "\<dots> = (if v < 0 then - 1 else 1) * real (nat \<bar>v\<bar>)"
    by (simp only: double_value_uint [OF n])
  also have "\<dots> = real_of_int v" by simp
  finally show ?thesis .
qed

section \<open>Lemmas: the value-stack API\<close>

lemma bindE_simps [simp]:
  "bindE (Inl e) f = Inl e"
  "bindE (Inr x) f = f x"
  by (simp_all add: bindE_def)

lemma upd_app2 [simp]:
  "(xs @ [a, b])[length xs := c] = xs @ [c, b]"
  "(xs @ [a, b])[Suc (length xs) := c] = xs @ [a, c]"
  by (simp_all add: list_update_append)

lemma push2:
  assumes "length (valstack thr) + 2 \<le> valstack_size thr"
  shows "bindE (duk_push_tval thr x) (\<lambda>t1. bindE (duk_push_tval t1 y) f)
         = f (thr\<lparr>valstack := valstack thr @ [x, y]\<rparr>)"
  using assms by (simp add: duk_push_tval_def)

lemma push2_fail:
  assumes "\<not> length (valstack thr) + 2 \<le> valstack_size thr"
  shows "bindE (duk_push_tval thr x) (\<lambda>t1. bindE (duk_push_tval t1 y) f) = Inl ApiError"
  using assms by (auto simp add: duk_push_tval_def)

lemma norm_m2:
  assumes "valstack_bottom thr \<le> length (valstack thr)" "valstack t = valstack thr @ [a, b]" "valstack_bottom t = valstack_bottom thr"
  shows "duk_normalize_index t (- 2) = Some (length (valstack thr))"
    and "duk_normalize_index t (- 1) = Some (Suc (length (valstack thr)))"
  using assms by (auto simp add: duk_normalize_index_def duk_get_top_def Let_def nat_add_distrib)

lemma to_number_m2:
  assumes "valstack_bottom thr \<le> length (valstack thr)"
  shows "duk_to_number X (thr\<lparr>valstack := valstack thr @ [a, b]\<rparr>) (- 2)
       = bindE (duk_js_tonumber X a) (\<lambda>d. Inr (d, thr\<lparr>valstack := valstack thr @ [TV_Number d, b]\<rparr>))"
  using assms
  by (simp add: duk_to_number_def norm_m2 [where thr = thr and a = a and b = b])

lemma to_number_m1:
  assumes "valstack_bottom thr \<le> length (valstack thr)"
  shows "duk_to_number X (thr\<lparr>valstack := valstack thr @ [a, b]\<rparr>) (- 1)
       = bindE (duk_js_tonumber X b) (\<lambda>d. Inr (d, thr\<lparr>valstack := valstack thr @ [a, TV_Number d]\<rparr>))"
  using assms
  by (simp add: duk_to_number_def norm_m2 [where thr = thr and a = a and b = b] nth_append)

lemma to_int32_m2:
  assumes "valstack_bottom thr \<le> length (valstack thr)"
  shows "duk_to_int32 X (thr\<lparr>valstack := valstack thr @ [a, b]\<rparr>) (- 2)
       = bindE (duk_js_toint32 X a) (\<lambda>r. Inr (r, thr\<lparr>valstack := valstack thr @ [TV_Number (int_to_double (sint r)), b]\<rparr>))"
  using assms
  by (cases "duk_js_tonumber X a")
     (simp_all add: duk_to_int32_def to_number_m2 duk_js_toint32_def Let_def
        norm_m2 [where thr = thr and b = b])

lemma to_int32_m1:
  assumes "valstack_bottom thr \<le> length (valstack thr)"
  shows "duk_to_int32 X (thr\<lparr>valstack := valstack thr @ [a, b]\<rparr>) (- 1)
       = bindE (duk_js_toint32 X b) (\<lambda>r. Inr (r, thr\<lparr>valstack := valstack thr @ [a, TV_Number (int_to_double (sint r))]\<rparr>))"
  using assms
  by (cases "duk_js_tonumber X b")
     (simp_all add: duk_to_int32_def to_number_m1 duk_js_toint32_def Let_def
        norm_m2 [where thr = thr and a = a])

lemma pop2:
  assumes "valstack_bottom thr \<le> length (valstack thr)"
  shows "duk_pop_n (thr\<lparr>valstack := valstack thr @ [a, b]\<rparr>) 2 = Inr thr"
  using assms by (simp add: duk_pop_n_def duk_get_top_def)

lemma bitwise_binary_op_eq:
  assumes "valstack_bottom thr \<le> length (valstack thr)"
  shows "duk__vm_bitwise_binary_op X thr x y z opc =
     (if length (valstack thr) + 2 \<le> valstack_size thr
      then bindE (duk_js_toint32 X x) (\<lambda>i1. bindE (duk_js_toint32 X y) (\<lambda>i2.
             duk__set_reg_number thr z (duk__bitwise_switch opc i1 i2)))
      else Inl ApiError)"
proof (cases "length (valstack thr) + 2 \<le> valstack_size thr")
  case False
  then show ?thesis unfolding duk__vm_bitwise_binary_op_def by (simp add: push2_fail)
next
  case True
  have 1: "duk__vm_bitwise_binary_op X thr x y z opc =
     bindE (duk_to_int32 X (thr\<lparr>valstack := valstack thr @ [x, y]\<rparr>) (- 2)) (\<lambda>(i1, t3).
     bindE (duk_to_int32 X t3 (- 1)) (\<lambda>(i2, t4).
     bindE (duk_pop_n t4 2) (\<lambda>t5.
       duk__set_reg_number t5 z (duk__bitwise_switch opc i1 i2))))"
    unfolding duk__vm_bitwise_binary_op_def by (simp only: push2 [OF True])
  show ?thesis
  proof (cases "duk_js_toint32 X x")
    case (Inl e)
    then show ?thesis using True by (simp add: 1 to_int32_m2 [OF assms])
  next
    case (Inr i1)
    note x = this
    show ?thesis
    proof (cases "duk_js_toint32 X y")
      case (Inl e)
      then show ?thesis using True by (simp add: 1 x to_int32_m2 [OF assms] to_int32_m1 [OF assms])
    next
      case (Inr i2)
      then show ?thesis
        using True by (simp add: 1 x to_int32_m2 [OF assms] to_int32_m1 [OF assms] pop2 [OF assms])
    qed
  qed
qed

section \<open>Lemmas: 32-bit shifts\<close>

lemma mask32 [simp]: "(w :: 32 word) AND 0xFFFFFFFF = w"
proof -
  have "(0xFFFFFFFF :: 32 word) = - 1" by simp
  then show ?thesis by (simp only: word_and_max)
qed

lemma shift_count: "unat ((i2 :: 32 word) AND 0x1F) = unat i2 mod 32"
proof -
  have "(0x1F :: 32 word) = mask 5" by (simp add: mask_eq_exp_minus_1)
  then have "i2 AND 0x1F = take_bit 5 i2" by (simp only: take_bit_eq_mask)
  then have "unat (i2 AND 0x1F) = take_bit 5 (unat i2)" by (simp only: unsigned_take_bit_eq)
  then show ?thesis by (simp add: take_bit_eq_mod)
qed

lemma shift_count_32: "unat (((i2 :: 32 word) + 32) AND 0x1F) = unat (i2 AND 0x1F)"
proof -
  have "unat (i2 + 32) = (unat i2 + 32) mod 2 ^ 32" by (simp add: unat_word_ariths)
  moreover have "((unat i2 + 32) mod 2 ^ 32) mod 32 = (unat i2 + 32) mod 32"
    by (rule mod_mod_cancel) simp
  ultimately show ?thesis by (simp add: shift_count)
qed

lemma basl_math: "sint (push_bit n (i1 :: 32 word)) = signed_take_bit 31 (sint i1 * 2 ^ n)"
proof -
  have "sint (push_bit n i1) = signed_take_bit (LENGTH(32) - Suc 0) (push_bit n (sint i1))"
    by (rule signed_push_bit_eq)
  then show ?thesis by (simp add: push_bit_eq_mult)
qed

lemma basr_math: "sint (signed_drop_bit n (i1 :: 32 word)) = sint i1 div 2 ^ n"
  by (simp only: sint_signed_drop_bit_eq drop_bit_eq_div)

lemma blsr_math: "unat (drop_bit n (i1 :: 32 word)) = unat i1 div 2 ^ n"
proof -
  have "unat (drop_bit n i1) = drop_bit n (unat i1)" by (rule unat_drop_bit_eq)
  then show ?thesis by (simp add: drop_bit_eq_div)
qed

lemma sint32_abs: "\<bar>sint (w :: 32 word)\<bar> < 2 ^ 53"
proof -
  have "- (2 ^ 31) \<le> sint w" "sint w < 2 ^ 31"
    using sint_greater_eq [of w] sint_less [of w] by simp_all
  then show ?thesis by simp
qed

lemma unat32_lt: "unat (w :: 32 word) < 2 ^ 53"
proof -
  have "unat w < 2 ^ 32" using unsigned_less [of w] by simp
  then show ?thesis by simp
qed

lemma int32_to_double_not_nan [simp]: "\<not> DUK_ISNAN (int_to_double (sint (w :: 32 word)))"
  by (rule int_to_double_not_nan [OF sint32_abs])

lemma uint32_to_double_not_nan [simp]: "\<not> DUK_ISNAN (uint_to_double (unat (w :: 32 word)))"
  by (rule uint_to_double_not_nan [OF unat32_lt])

lemma zero_to_double_not_nan [simp]: "\<not> DUK_ISNAN (uint_to_double 0)"
  by (simp add: uint_to_double_def DUK_ISNAN_def)

lemma bitwise_switch_not_nan: "\<not> DUK_ISNAN (duk__bitwise_switch opc i1 i2)"
  by (cases opc) (simp_all add: duk__bitwise_switch_def Let_def)

lemma bitwise_switch_count_32:
  "duk__bitwise_switch opc i1 (i2 + 32) = duk__bitwise_switch opc i1 i2"
  if "opc \<in> {DUK_OP_BASL, DUK_OP_BASR, DUK_OP_BLSR}"
  using that by (auto simp add: duk__bitwise_switch_def Let_def shift_count_32)

section \<open>Lemmas: the arithmetic helpers\<close>

lemma upd_app1 [simp]: "(xs @ [a])[length xs := c] = xs @ [c]"
  by (simp add: list_update_append)

lemma norm_s1:
  assumes "valstack_bottom thr \<le> length (valstack thr)" "valstack t = valstack thr @ [a]" "valstack_bottom t = valstack_bottom thr"
  shows "duk_normalize_index t (- 1) = Some (length (valstack thr))"
  using assms by (auto simp add: duk_normalize_index_def duk_get_top_def Let_def nat_add_distrib)

lemma to_number_s1:
  assumes "valstack_bottom thr \<le> length (valstack thr)"
  shows "duk_to_number X (thr\<lparr>valstack := valstack thr @ [a]\<rparr>) (- 1)
       = bindE (duk_js_tonumber X a) (\<lambda>d. Inr (d, thr\<lparr>valstack := valstack thr @ [TV_Number d]\<rparr>))"
  using assms
  by (simp add: duk_to_number_def norm_s1 [where thr = thr and a = a])

lemma to_int32_s1:
  assumes "valstack_bottom thr \<le> length (valstack thr)"
  shows "duk_to_int32 X (thr\<lparr>valstack := valstack thr @ [a]\<rparr>) (- 1)
       = bindE (duk_js_toint32 X a) (\<lambda>r. Inr (r, thr\<lparr>valstack := valstack thr @ [TV_Number (int_to_double (sint r))]\<rparr>))"
  using assms
  by (cases "duk_js_tonumber X a")
     (simp_all add: duk_to_int32_def to_number_s1 duk_js_toint32_def Let_def
        norm_s1 [where thr = thr])

lemma pop1:
  assumes "valstack_bottom thr \<le> length (valstack thr)"
  shows "duk_pop_n (thr\<lparr>valstack := valstack thr @ [a]\<rparr>) (Suc 0) = Inr thr"
  using assms by (simp add: duk_pop_n_def duk_get_top_def)

lemma push1:
  "duk_push_tval thr x =
     (if length (valstack thr) < valstack_size thr
      then Inr (thr\<lparr>valstack := valstack thr @ [x]\<rparr>) else Inl ApiError)"
  by (simp add: duk_push_tval_def)

lemma replace_reg:
  assumes "valstack_bottom thr + z < length (valstack thr)"
  shows "duk_replace (thr\<lparr>valstack := valstack thr @ [v]\<rparr>) (int z)
         = Inr (thr\<lparr>valstack := (valstack thr)[valstack_bottom thr + z := v]\<rparr>)"
proof -
  let ?t = "thr\<lparr>valstack := valstack thr @ [v]\<rparr>"
  have b: "valstack_bottom thr \<le> length (valstack thr)" using assms by simp
  have 1: "duk_normalize_index ?t (- 1) = Some (length (valstack thr))"
    by (rule norm_s1 [OF b]) simp_all
  have 2: "duk_normalize_index ?t (int z) = Some (valstack_bottom thr + z)"
    using assms by (auto simp add: duk_normalize_index_def duk_get_top_def Let_def)
  show ?thesis
    using assms by (simp add: duk_replace_def 1 2 list_update_append butlast_append)
qed

lemma set_reg_number_eq:
  assumes "valstack_bottom thr + z < length (valstack thr)"
  shows "duk__set_reg_number thr z d
         = Inr (thr\<lparr>valstack := (valstack thr)[valstack_bottom thr + z := TV_Number d]\<rparr>)"
  using assms by (simp add: duk__set_reg_number_def valstack_store_def)

lemma normalize_is_normalized [simp]:
  "DUK_DBLUNION_IS_NORMALIZED (DUK_DBLUNION_NORMALIZE_NAN_CHECK d)"
  by (simp add: DUK_DBLUNION_IS_NORMALIZED_def DUK_DBLUNION_NORMALIZE_NAN_CHECK_def)

lemma normalize_nan: "DUK_ISNAN d \<Longrightarrow> DUK_DBLUNION_NORMALIZE_NAN_CHECK d = DUK_DOUBLE_NAN"
  by (simp add: DUK_DBLUNION_NORMALIZE_NAN_CHECK_def)

lemma normalize_not_nan: "\<not> DUK_ISNAN d \<Longrightarrow> DUK_DBLUNION_NORMALIZE_NAN_CHECK d = d"
  by (simp add: DUK_DBLUNION_NORMALIZE_NAN_CHECK_def)

lemma tonumber_number [simp]: "duk_js_tonumber X (TV_Number d) = Inr d"
  by (simp add: duk_js_tonumber_def)

lemma is_number_cases: "DUK_TVAL_IS_NUMBER tv \<Longrightarrow> \<exists>d. tv = TV_Number d"
  by (cases tv) (simp_all add: DUK_TVAL_IS_NUMBER_def)

lemma get_number [simp]: "DUK_TVAL_GET_NUMBER (TV_Number d) = Inr d"
  by (simp add: DUK_TVAL_GET_NUMBER_def)

lemma is_number [simp]: "DUK_TVAL_IS_NUMBER (TV_Number d)"
  by (simp add: DUK_TVAL_IS_NUMBER_def)

lemma arith_binary_op_eq:
  assumes b: "valstack_bottom thr \<le> length (valstack thr)"
  shows "duk__vm_arith_binary_op X thr x y z opc =
     (if (DUK_TVAL_IS_NUMBER x \<and> DUK_TVAL_IS_NUMBER y) \<or> length (valstack thr) + 2 \<le> valstack_size thr
      then bindE (duk_js_tonumber X x) (\<lambda>d1. bindE (duk_js_tonumber X y) (\<lambda>d2.
             duk__set_reg_number thr z
               (DUK_DBLUNION_NORMALIZE_NAN_CHECK (duk__arith_binary_switch X opc d1 d2))))
      else Inl ApiError)"
proof (cases "DUK_TVAL_IS_NUMBER x \<and> DUK_TVAL_IS_NUMBER y")
  case True
  then obtain dx dy where "x = TV_Number dx" "y = TV_Number dy"
    using is_number_cases by blast
  then show ?thesis by (simp add: duk__vm_arith_binary_op_def Let_def)
next
  case False
  then have nn: "(DUK_TVAL_IS_NUMBER x \<and> DUK_TVAL_IS_NUMBER y) = False" by simp
  show ?thesis
  proof (cases "length (valstack thr) + 2 \<le> valstack_size thr")
    case False
    then show ?thesis
      unfolding duk__vm_arith_binary_op_def by (simp add: push2_fail nn)
  next
    case True
    have 1: "duk__vm_arith_binary_op X thr x y z opc =
       bindE (bindE (duk_to_number X (thr\<lparr>valstack := valstack thr @ [x, y]\<rparr>) (- 2)) (\<lambda>(d1, t3).
            bindE (duk_to_number X t3 (- 1)) (\<lambda>(d2, t4).
            bindE (duk_pop_n t4 2) (\<lambda>t5. Inr (d1, d2, t5)))))
       (\<lambda>(d1, d2, thr').
          let du = duk__arith_binary_switch X opc d1 d2
          in duk__set_reg_number thr' z (DUK_DBLUNION_NORMALIZE_NAN_CHECK du))"
      unfolding duk__vm_arith_binary_op_def by (simp only: push2 [OF True] nn if_False)
    show ?thesis
    proof (cases "duk_js_tonumber X x")
      case (Inl e)
      then show ?thesis using True by (simp add: 1 nn to_number_m2 [OF b])
    next
      case (Inr d1)
      note x = this
      show ?thesis
      proof (cases "duk_js_tonumber X y")
        case (Inl e)
        then show ?thesis using True by (simp add: 1 nn x to_number_m2 [OF b] to_number_m1 [OF b])
      next
        case (Inr d2)
        then show ?thesis
          using True by (simp add: 1 nn x to_number_m2 [OF b] to_number_m1 [OF b] pop2 [OF b])
      qed
    qed
  qed
qed

lemma arith_unary_op_eq:
  assumes b: "valstack_bottom thr \<le> length (valstack thr)"
  shows "duk__vm_arith_unary_op X thr x z opc =
     (if DUK_TVAL_IS_NUMBER x \<or> length (valstack thr) < valstack_size thr
      then bindE (duk_js_tonumber X x) (\<lambda>d1.
             duk__set_reg_number thr z
               (DUK_DBLUNION_NORMALIZE_NAN_CHECK (duk__arith_unary_switch X opc d1)))
      else Inl ApiError)"
proof (cases "DUK_TVAL_IS_NUMBER x")
  case True
  then obtain dx where "x = TV_Number dx" using is_number_cases by blast
  then show ?thesis by (simp add: duk__vm_arith_unary_op_def Let_def)
next
  case False
  then show ?thesis
    unfolding duk__vm_arith_unary_op_def
    by (cases "duk_js_tonumber X x")
       (simp_all add: push1 to_number_s1 [OF b] pop1 [OF b])
qed

lemma bitwise_not_eq:
  assumes b: "valstack_bottom thr \<le> length (valstack thr)"
  shows "duk__vm_bitwise_not X thr x z =
     (if length (valstack thr) < valstack_size thr
      then bindE (duk_js_toint32 X x) (\<lambda>i1.
             duk__set_reg_number thr z (int_to_double (sint (NOT i1))))
      else Inl ApiError)"
  unfolding duk__vm_bitwise_not_def
  by (cases "duk_js_toint32 X x")
     (simp_all add: push1 to_int32_s1 [OF b] pop1 [OF b])

lemma arith_add_stores:
  assumes k: "valstack_bottom thr + z < length (valstack thr)"
    and r: "duk__vm_arith_add X thr x y z = Inr thr'"
  shows "\<exists>v. thr' = thr\<lparr>valstack := (valstack thr)[valstack_bottom thr + z := v]\<rparr>
             \<and> tval_normalized v"
proof (cases "DUK_TVAL_IS_NUMBER x \<and> DUK_TVAL_IS_NUMBER y")
  case True
  then obtain dx dy where "x = TV_Number dx" "y = TV_Number dy"
    using is_number_cases by blast
  with r k show ?thesis
    by (auto simp add: duk__vm_arith_add_def set_reg_number_eq tval_normalized_def)
next
  case False
  then have nn: "(DUK_TVAL_IS_NUMBER x \<and> DUK_TVAL_IS_NUMBER y) = False" by simp
  have b: "valstack_bottom thr \<le> length (valstack thr)" using k by simp
  have room: "length (valstack thr) + 2 \<le> valstack_size thr"
    using r unfolding duk__vm_arith_add_def nn
    by (cases "length (valstack thr) + 2 \<le> valstack_size thr") (simp_all add: push2_fail)
  then have room1: "length (valstack thr) < valstack_size thr" by simp
  note r1 = r [unfolded duk__vm_arith_add_def nn if_False push2 [OF room]]
  from r1 obtain px where px: "js_toprimitive X x = Inr px"
    by (cases "js_toprimitive X x") simp_all
  from r1 px obtain py where py: "js_toprimitive X y = Inr py"
    by (cases "js_toprimitive X y") simp_all
  show ?thesis
  proof (cases "is_string_or_buffer px \<or> is_string_or_buffer py")
    case True
    with r1 px py have 2: "bindE (duk_js_tostring X px) (\<lambda>s1.
                 bindE (duk_js_tostring X py) (\<lambda>s2.
                   duk_replace (thr\<lparr>valstack := valstack thr @ [TV_String (s1 @ s2)]\<rparr>) (int z))) = Inr thr'"
      by (simp add: Let_def butlast_append)
    then obtain s1 where s1: "duk_js_tostring X px = Inr s1" by (cases "duk_js_tostring X px") simp_all
    with 2 obtain s2 where s2: "duk_js_tostring X py = Inr s2" by (cases "duk_js_tostring X py") simp_all
    from 2 s1 s2 show ?thesis
      by (auto simp add: replace_reg [OF k] tval_normalized_def)
  next
    case False
    with r1 px py have 2: "bindE (duk_to_number X (thr\<lparr>valstack := valstack thr @ [px, py]\<rparr>) (- 2)) (\<lambda>(d1, t4).
                 bindE (duk_to_number X t4 (- 1)) (\<lambda>(d2, t5).
                   bindE (duk_pop_n t5 2) (\<lambda>t6.
                      bindE (duk_push_tval t6 (TV_Number (DUK_DBLUNION_NORMALIZE_NAN_CHECK (fp_add X d1 d2)))) (\<lambda>t7.
                        duk_replace t7 (int z))))) = Inr thr'"
      by (simp add: Let_def butlast_append)
    then obtain d1 where d1: "duk_js_tonumber X px = Inr d1"
      by (cases "duk_js_tonumber X px") (simp_all add: to_number_m2 [OF b])
    with 2 obtain d2 where d2: "duk_js_tonumber X py = Inr d2"
      by (cases "duk_js_tonumber X py") (simp_all add: to_number_m2 [OF b] to_number_m1 [OF b])
    from 2 d1 d2 show ?thesis
      by (auto simp add: to_number_m2 [OF b] to_number_m1 [OF b] pop2 [OF b] push1 room1
            replace_reg [OF k] tval_normalized_def)
  qed
qed

lemma uint_to_double_sign [simp]: "dbl_sign (uint_to_double a) = False"
  by (simp add: uint_to_double_def)

lemma toint32_uint:
  assumes "a < 2 ^ 53"
  shows "duk_js_toint32 X (TV_Number (uint_to_double a)) = Inr (word_of_nat a)"
  using uint_to_double_expo [OF assms]
  by (simp add: duk_js_toint32_def duk_double_to_int32_def double_floor_abs_uint [OF assms])

lemma double_value_sint [simp]:
  "double_value (int_to_double (sint (w :: 32 word))) = real_of_int (sint w)"
  by (rule double_value_int [OF sint32_abs])

lemma double_value_unat [simp]:
  "double_value (uint_to_double (unat (w :: 32 word))) = real (unat w)"
  by (rule double_value_uint [OF unat32_lt])

lemma bitwise_binary_op_stores:
  assumes k: "valstack_bottom thr + z < length (valstack thr)"
    and r: "duk__vm_bitwise_binary_op X thr x y z opc = Inr thr'"
  shows "\<exists>i1 i2. duk_js_toint32 X x = Inr i1 \<and> duk_js_toint32 X y = Inr i2 \<and>
           thr' = thr\<lparr>valstack := (valstack thr)[valstack_bottom thr + z :=
                    TV_Number (duk__bitwise_switch opc i1 i2)]\<rparr>"
proof -
  have b: "valstack_bottom thr \<le> length (valstack thr)" using k by simp
  note e = r [unfolded bitwise_binary_op_eq [OF b]]
  from e have room: "length (valstack thr) + 2 \<le> valstack_size thr"
    by (cases "length (valstack thr) + 2 \<le> valstack_size thr") simp_all
  from e room obtain i1 where i1: "duk_js_toint32 X x = Inr i1"
    by (cases "duk_js_toint32 X x") simp_all
  from e room i1 obtain i2 where i2: "duk_js_toint32 X y = Inr i2"
    by (cases "duk_js_toint32 X y") simp_all
  from e room i1 i2 show ?thesis by (simp add: set_reg_number_eq [OF k])
qed

lemma bitwise_switch_word:
  "duk__bitwise_switch DUK_OP_BASL i1 i2 = int_to_double (sint (push_bit (unat i2 mod 32) i1))"
  "duk__bitwise_switch DUK_OP_BASR i1 i2 = int_to_double (sint (signed_drop_bit (unat i2 mod 32) i1))"
  "duk__bitwise_switch DUK_OP_BLSR i1 i2 = uint_to_double (unat (drop_bit (unat i2 mod 32) i1))"
  by (simp_all only: duk__bitwise_switch_def Let_def duk_opcode.case mask32 shift_count)

lemma bitwise_switch_value:
  "double_value (duk__bitwise_switch DUK_OP_BASL i1 i2)
     = real_of_int (signed_take_bit 31 (sint i1 * 2 ^ (unat i2 mod 32)))"
  "double_value (duk__bitwise_switch DUK_OP_BASR i1 i2)
     = real_of_int (sint i1 div 2 ^ (unat i2 mod 32))"
  "double_value (duk__bitwise_switch DUK_OP_BLSR i1 i2)
     = real (unat i1 div 2 ^ (unat i2 mod 32))"
  by (simp_all only: bitwise_switch_word double_value_sint double_value_unat)
     (simp_all only: basl_math basr_math blsr_math)

lemma real_sint32_range:
  "- (2 ^ 31) \<le> real_of_int (sint (w :: 32 word)) \<and> real_of_int (sint w) < 2 ^ 31"
proof -
  have "- (2 ^ 31) \<le> sint w" "sint w < 2 ^ 31"
    using sint_greater_eq [of w] sint_less [of w] by simp_all
  then have "real_of_int (- (2 ^ 31)) \<le> real_of_int (sint w)" "real_of_int (sint w) < real_of_int (2 ^ 31)"
    by (simp_all only: of_int_le_iff of_int_less_iff)
  then show ?thesis by simp
qed

lemma real_unat32_range:
  "0 \<le> real (unat (w :: 32 word)) \<and> real (unat w) < 2 ^ 32"
proof -
  have "unat w < 2 ^ 32" using unsigned_less [of w] by simp
  then have "real (unat w) < real (2 ^ 32)" by (simp only: of_nat_less_iff)
  then have 1: "real (unat w) < 2 ^ 32" by simp
  have 2: "0 \<le> real (unat w)" by (rule of_nat_0_le_iff)
  from 2 1 show ?thesis by (rule conjI)
qed

lemma bitwise_switch_range:
  "- (2 ^ 31) \<le> double_value (duk__bitwise_switch DUK_OP_BASL i1 i2)
     \<and> double_value (duk__bitwise_switch DUK_OP_BASL i1 i2) < 2 ^ 31"
  "- (2 ^ 31) \<le> double_value (duk__bitwise_switch DUK_OP_BASR i1 i2)
     \<and> double_value (duk__bitwise_switch DUK_OP_BASR i1 i2) < 2 ^ 31"
  "0 \<le> double_value (duk__bitwise_switch DUK_OP_BLSR i1 i2)
     \<and> double_value (duk__bitwise_switch DUK_OP_BLSR i1 i2) < 2 ^ 32"
  by (simp_all only: bitwise_switch_word double_value_sint double_value_unat
        real_sint32_range real_unat32_range simp_thms)

lemma arith_binary_op_stores:
  assumes k: "valstack_bottom thr + z < length (valstack thr)"
    and r: "duk__vm_arith_binary_op X thr x y z opc = Inr thr'"
  shows "\<exists>d. thr' = thr\<lparr>valstack := (valstack thr)[valstack_bottom thr + z := TV_Number d]\<rparr>
             \<and> DUK_DBLUNION_IS_NORMALIZED d"
proof -
  have b: "valstack_bottom thr \<le> length (valstack thr)" using k by simp
  note e = r [unfolded arith_binary_op_eq [OF b]]
  let ?c = "(DUK_TVAL_IS_NUMBER x \<and> DUK_TVAL_IS_NUMBER y) \<or> length (valstack thr) + 2 \<le> valstack_size thr"
  from e have c: ?c by (auto split: if_splits)
  from e c obtain d1 where d1: "duk_js_tonumber X x = Inr d1"
    by (cases "duk_js_tonumber X x") (simp_all only: if_True bindE_simps sum.distinct)
  from e c d1 obtain d2 where d2: "duk_js_tonumber X y = Inr d2"
    by (cases "duk_js_tonumber X y") (simp_all only: if_True bindE_simps sum.distinct)
  from e c d1 d2 have "thr' = thr\<lparr>valstack := (valstack thr)[valstack_bottom thr + z :=
      TV_Number (DUK_DBLUNION_NORMALIZE_NAN_CHECK (duk__arith_binary_switch X opc d1 d2))]\<rparr>"
    by (simp only: if_True bindE_simps set_reg_number_eq [OF k] sum.inject)
  then show ?thesis using normalize_is_normalized by blast
qed

lemma arith_unary_op_stores:
  assumes k: "valstack_bottom thr + z < length (valstack thr)"
    and r: "duk__vm_arith_unary_op X thr x z opc = Inr thr'"
  shows "\<exists>d. thr' = thr\<lparr>valstack := (valstack thr)[valstack_bottom thr + z := TV_Number d]\<rparr>
             \<and> DUK_DBLUNION_IS_NORMALIZED d"
proof -
  have b: "valstack_bottom thr \<le> length (valstack thr)" using k by simp
  note e = r [unfolded arith_unary_op_eq [OF b]]
  let ?c = "DUK_TVAL_IS_NUMBER x \<or> length (valstack thr) < valstack_size thr"
  from e have c: ?c by (auto split: if_splits)
  from e c obtain d1 where d1: "duk_js_tonumber X x = Inr d1"
    by (cases "duk_js_tonumber X x") (simp_all only: if_True bindE_simps sum.distinct)
  from e c d1 have "thr' = thr\<lparr>valstack := (valstack thr)[valstack_bottom thr + z :=
      TV_Number (DUK_DBLUNION_NORMALIZE_NAN_CHECK (duk__arith_unary_switch X opc d1))]\<rparr>"
    by (simp only: if_True bindE_simps set_reg_number_eq [OF k] sum.inject)
  then show ?thesis using normalize_is_normalized by blast
qed

lemma not_nan_normalized: "\<not> DUK_ISNAN d \<Longrightarrow> DUK_DBLUNION_IS_NORMALIZED d"
  by (simp add: DUK_DBLUNION_IS_NORMALIZED_def)

lemma bitwise_not_stores:
  assumes k: "valstack_bottom thr + z < length (valstack thr)"
    and r: "duk__vm_bitwise_not X thr x z = Inr thr'"
  shows "\<exists>d. thr' = thr\<lparr>valstack := (valstack thr)[valstack_bottom thr + z := TV_Number d]\<rparr>
             \<and> DUK_DBLUNION_IS_NORMALIZED d"
proof -
  have b: "valstack_bottom thr \<le> length (valstack thr)" using k by simp
  note e = r [unfolded bitwise_not_eq [OF b]]
  let ?c = "length (valstack thr) < valstack_size thr"
  from e have c: ?c by (auto split: if_splits)
  from e c obtain i1 where i1: "duk_js_toint32 X x = Inr i1"
    by (cases "duk_js_toint32 X x") (simp_all only: if_True bindE_simps sum.distinct)
  from e c i1 have "thr' = thr\<lparr>valstack := (valstack thr)[valstack_bottom thr + z :=
      TV_Number (int_to_double (sint (NOT i1)))]\<rparr>"
    by (simp only: if_True bindE_simps set_reg_number_eq [OF k] sum.inject)
  then show ?thesis using not_nan_normalized [OF int32_to_double_not_nan] by blast
qed

lemma bitwise_binary_op_stores_normalized:
  assumes k: "valstack_bottom thr + z < length (valstack thr)"
    and r: "duk__vm_bitwise_binary_op X thr x y z opc = Inr thr'"
  shows "\<exists>d. thr' = thr\<lparr>valstack := (valstack thr)[valstack_bottom thr + z := TV_Number d]\<rparr>
             \<and> DUK_DBLUNION_IS_NORMALIZED d"
  using bitwise_binary_op_stores [OF k r] not_nan_normalized [OF bitwise_switch_not_nan]
  by blast

lemma arith_div_nan:
  assumes k: "valstack_bottom thr + z < length (valstack thr)"
    and n: "DUK_ISNAN (fp_div X dx dy)"
  shows "duk__vm_arith_binary_op X thr (TV_Number dx) (TV_Number dy) z DUK_OP_DIV
         = Inr (thr\<lparr>valstack := (valstack thr)[valstack_bottom thr + z := TV_Number DUK_DOUBLE_NAN]\<rparr>)"
proof -
  have b: "valstack_bottom thr \<le> length (valstack thr)" using k by simp
  show ?thesis
    by (simp add: arith_binary_op_eq [OF b] set_reg_number_eq [OF k] duk__arith_binary_switch_def
          normalize_nan [OF n])
qed

lemma arith_add_numbers:
  assumes k: "valstack_bottom thr + z < length (valstack thr)"
  shows "duk__vm_arith_add X thr (TV_Number dx) (TV_Number dy) z
         = Inr (thr\<lparr>valstack := (valstack thr)[valstack_bottom thr + z :=
                  TV_Number (DUK_DBLUNION_NORMALIZE_NAN_CHECK (fp_add X dx dy))]\<rparr>)"
  by (simp add: duk__vm_arith_add_def set_reg_number_eq [OF k])

section \<open>Lemmas: the frame operations\<close>

lemma set_top_nonneg:
  assumes "valstack_bottom thr \<le> length (valstack thr)" "valstack_bottom thr + n \<le> valstack_size thr"
  shows "duk_set_top thr (int n) =
           Inr (thr\<lparr>valstack := take (valstack_bottom thr + n) (valstack thr)
                               @ replicate (valstack_bottom thr + n - length (valstack thr)) TV_Undefined\<rparr>)"
proof (cases "length (valstack thr) \<le> valstack_bottom thr + n")
  case True
  then have "nat (int n - int (duk_get_top thr)) = valstack_bottom thr + n - length (valstack thr)"
    using assms by (simp add: duk_get_top_def)
  then show ?thesis using assms True
    by (simp add: duk_set_top_def Let_def duk_get_top_def)
next
  case False
  then show ?thesis using assms
    by (simp add: duk_set_top_def Let_def duk_get_top_def)
qed

lemma set_top_Inr_nonneg:
  assumes "duk_set_top thr (int n) = Inr thr'"
  shows "valstack_bottom thr \<le> length (valstack thr) \<and> valstack_bottom thr + n \<le> valstack_size thr"
  using assms by (auto simp add: duk_set_top_def Let_def duk_get_top_def split: if_splits)

lemma dup_reg:
  assumes "valstack_bottom T + b < length (valstack T)" "length (valstack T) < valstack_size T"
  shows "duk_dup T (int b) = Inr (T\<lparr>valstack := valstack T @ [valstack T ! (valstack_bottom T + b)]\<rparr>)"
  using assms
  by (auto simp add: duk_dup_def duk_require_tval_def duk_normalize_index_def duk_get_top_def
        Let_def push1)

lemma setup_ljstate_pushed:
  assumes "thr < length (threads h)" "valstack_bottom T \<le> length (valstack T)"
  shows "duk_err_setup_heap_ljstate (put_thread h thr (T\<lparr>valstack := valstack T @ [v]\<rparr>)) thr ljt
         = Inr ((put_thread h thr T)\<lparr>lj := (lj h)\<lparr>lj_type := ljt, value1 := v\<rparr>\<rparr>)"
  using assms
  by (simp add: duk_err_setup_heap_ljstate_def get_thread_def threads_put_same pop1)
     (simp add: put_thread_def)

lemma put_thread_same: "T = threads h ! thr \<Longrightarrow> put_thread h thr T = h"
  by (simp add: put_thread_def)

lemma last_take_Suc: "k < length xs \<Longrightarrow> last (take (Suc k) xs) = xs ! k"
  by (simp add: take_Suc_conv_app_nth)

lemma nonempty_if_index: "k < length xs \<Longrightarrow> xs \<noteq> []"
  by auto

lemma store2:
  assumes "i + 1 < length (valstack thr)"
  shows "bindE (valstack_store thr i a) (\<lambda>t1. bindE (valstack_store t1 (i + 1) b) f)
         = f (thr\<lparr>valstack := (valstack thr)[i := a, i + 1 := b]\<rparr>)"
  using assms by (simp add: valstack_store_def)

lemma hcf_finally:
  assumes i: "i < length (catchstack thr)"
    and ci: "callstack_index (catchstack thr ! i) < length (callstack thr)"
    and f: "func (callstack thr ! callstack_index (catchstack thr ! i)) = Some (COMPILEDFUNCTION hf)"
    and ib: "idx_base (catchstack thr ! i) + 1 < length (valstack thr)"
    and b: "idx_bottom (callstack thr ! callstack_index (catchstack thr ! i)) \<le> length (valstack thr)"
    and sz: "idx_bottom (callstack thr ! callstack_index (catchstack thr ! i)) + nregs hf \<le> valstack_size thr"
  shows "duk__handle_catch_or_finally X ljs thr i True =
     Inr (thr\<lparr>
       valstack :=
         take (idx_bottom (callstack thr ! callstack_index (catchstack thr ! i)) + nregs hf)
           ((valstack thr)[idx_base (catchstack thr ! i) := value1 ljs,
                           idx_base (catchstack thr ! i) + 1 := TV_Number (uint_to_double (lj_type ljs))])
         @ replicate (idx_bottom (callstack thr ! callstack_index (catchstack thr ! i)) + nregs hf
                        - length (valstack thr)) TV_Undefined,
       valstack_bottom := idx_bottom (callstack thr ! callstack_index (catchstack thr ! i)),
       callstack := (take (callstack_index (catchstack thr ! i) + 1) (callstack thr))
          [callstack_index (catchstack thr ! i) :=
             (callstack thr ! callstack_index (catchstack thr ! i))
               \<lparr>pc := pc_base (catchstack thr ! i) + 1\<rparr>],
       catchstack := (take (i + 1) (catchstack thr))
          [i := (catchstack thr ! i)\<lparr>finally_enabled := False\<rparr>]\<rparr>)"
proof -
  define cat where "cat = catchstack thr ! i"
  define k where "k = callstack_index cat"
  define act where "act = callstack thr ! k"
  define vs' where "vs' = (valstack thr)[idx_base cat := value1 ljs,
                           idx_base cat + 1 := TV_Number (uint_to_double (lj_type ljs))]"
  define thr2 where "thr2 = thr\<lparr>valstack := vs'\<rparr>"
  define thr4 where "thr4 = thr2\<lparr>catchstack := take (i + 1) (catchstack thr),
                               callstack := take (k + 1) (callstack thr)\<rparr>"
  have k: "k < length (callstack thr)" using ci by (simp add: k_def cat_def)
  have l4: "callstack thr4 \<noteq> []" "last (callstack thr4) = act" "length (callstack thr4) = k + 1"
    using k nonempty_if_index [OF k] by (simp_all add: thr4_def act_def last_take_Suc)
  have c4: "catchstack thr4 ! i = cat" using i by (simp add: thr4_def cat_def)
  have st: "duk_set_top (thr4\<lparr>valstack_bottom := idx_bottom act\<rparr>) (int (nregs hf))
      = Inr (thr4\<lparr>valstack_bottom := idx_bottom act,
               valstack := take (idx_bottom act + nregs hf) vs'
                   @ replicate (idx_bottom act + nregs hf - length (valstack thr)) TV_Undefined\<rparr>)"
    using b sz set_top_nonneg [of "thr4\<lparr>valstack_bottom := idx_bottom act\<rparr>" "nregs hf"]
    by (simp add: thr4_def thr2_def vs'_def act_def k_def cat_def)
  have u: "duk__handle_catch_or_finally X ljs thr i True =
      (let thr3 = duk_hthread_catchstack_unwind thr2 (i + 1);
              thr4 = duk_hthread_callstack_unwind thr3 (callstack_index (catchstack thr3 ! i) + 1)
          in if callstack thr4 = [] then Inl Fault
             else
               case func (last (callstack thr4)) of
                 Some (COMPILEDFUNCTION h_func) \<Rightarrow>
                   bindE (duk_set_top (thr4\<lparr>valstack_bottom := idx_bottom (last (callstack thr4))\<rparr>)
                            (int (nregs h_func))) (\<lambda>thr5.
                     let n = length (callstack thr5) - 1;
                         thr6 = thr5\<lparr>callstack := (callstack thr5)[n :=
                                  (callstack thr5 ! n)\<lparr>pc := pc_base (catchstack thr5 ! i)
                                                            + (if True then 1 else 0)\<rparr>]\<rparr>
                     in bindE (if \<not> True \<and> catch_binding_enabled (catchstack thr6 ! i)
                               then duk__catch_binding X ljs thr6 i else Inr thr6) (\<lambda>thr7.
                          if True
                          then Inr (thr7\<lparr>catchstack := (catchstack thr7)[i :=
                                      (catchstack thr7 ! i)\<lparr>finally_enabled := False\<rparr>]\<rparr>)
                          else Inr (thr7\<lparr>catchstack := (catchstack thr7)[i :=
                                      (catchstack thr7 ! i)\<lparr>catch_enabled := False\<rparr>]\<rparr>)))
               | _ \<Rightarrow> Inl Fault)"
    unfolding duk__handle_catch_or_finally_def
    using i ib
    by (simp add: valstack_store_def thr2_def vs'_def cat_def del: One_nat_def)
  have u2: "duk_hthread_callstack_unwind (duk_hthread_catchstack_unwind thr2 (i + 1))
              (callstack_index (catchstack (duk_hthread_catchstack_unwind thr2 (i + 1)) ! i) + 1) = thr4"
    using i by (simp add: duk_hthread_callstack_unwind_def duk_hthread_catchstack_unwind_def
                  thr4_def thr2_def k_def cat_def)
  show ?thesis
    unfolding u Let_def u2
    using l4 c4 f k i
    apply (simp add: act_def [symmetric] k_def [symmetric] cat_def [symmetric] st)
    apply (simp add: thr4_def thr2_def vs'_def cat_def k_def act_def)
    done
qed

lemma setup_ljstate_top:
  assumes "thr < length (threads h)" "valstack_bottom T2 < length (valstack T2)"
  shows "duk_err_setup_heap_ljstate (put_thread h thr T2) thr ljt
         = Inr ((put_thread h thr (T2\<lparr>valstack := butlast (valstack T2)\<rparr>))
                  \<lparr>lj := (lj h)\<lparr>lj_type := ljt, value1 := last (valstack T2)\<rparr>\<rparr>)"
proof -
  have ne: "valstack T2 \<noteq> []" using assms(2) by auto
  have p: "duk_pop_n T2 (Suc 0) = Inr (T2\<lparr>valstack := butlast (valstack T2)\<rparr>)"
    using assms(2) by (simp add: duk_pop_n_def duk_get_top_def butlast_conv_take)
  show ?thesis
    using assms(1) ne
    by (simp add: duk_err_setup_heap_ljstate_def get_thread_def threads_put_same p)
       (simp add: put_thread_def)
qed

section \<open>Facts about the handler's walks and its switch\<close>

lemmas lj_type_defs =
  DUK_LJ_TYPE_UNKNOWN_def DUK_LJ_TYPE_RETURN_def DUK_LJ_TYPE_THROW_def DUK_LJ_TYPE_BREAK_def
  DUK_LJ_TYPE_CONTINUE_def DUK_LJ_TYPE_YIELD_def DUK_LJ_TYPE_RESUME_def DUK_LJ_TYPE_NORMAL_def

lemma return_walk_Inl:
  "duk__return_walk cs orig k = Inl i \<Longrightarrow>
     i < k \<and> callstack_index (cs ! i) = orig \<and> cat_type (cs ! i) = DUK_CAT_TYPE_TCF
     \<and> finally_enabled (cs ! i)"
  by (induction k) (auto split: if_splits)

lemma return_walk_Inr: "duk__return_walk cs orig k = Inr j \<Longrightarrow> j \<le> k"
  by (induction k) (auto split: if_splits)

lemma label_walk_finally:
  "duk__label_walk cs orig l k = Walk_finally i \<Longrightarrow>
     i < k \<and> callstack_index (cs ! i) = orig \<and> cat_type (cs ! i) = DUK_CAT_TYPE_TCF
     \<and> finally_enabled (cs ! i)"
  by (induction k) (auto split: if_splits)

lemma label_walk_label:
  "duk__label_walk cs orig l k = Walk_label i \<Longrightarrow>
     i < k \<and> callstack_index (cs ! i) = orig \<and> cat_type (cs ! i) = DUK_CAT_TYPE_LABEL
     \<and> cat_label (cs ! i) = l"
  by (induction k) (auto split: if_splits)

lemma throw_walk_Some:
  "duk__throw_walk cs e ei k = Some (i, fin) \<Longrightarrow>
     i < k \<and> (if fin then finally_enabled (cs ! i) \<and> \<not> catch_enabled (cs ! i)
              else catch_enabled (cs ! i))"
  by (induction k) (auto split: if_splits)

lemma handle_longjmp_wipe:
  "duk__handle_longjmp_switch X h thr et ect = Inr (Wipe_and_return rv h')
     \<Longrightarrow> duk__handle_longjmp X h thr et ect = Inr (rv, duk__wipe_lj h')"
  by (simp add: duk__handle_longjmp.simps)

lemma handle_longjmp_check:
  "duk__handle_longjmp_switch X h thr et ect = Inr (Check_longjmp h' thr')
     \<Longrightarrow> duk__handle_longjmp X h thr et ect = duk__handle_longjmp X h' thr' et ect"
  by (subst duk__handle_longjmp.simps) simp

lemma handle_longjmp_just:
  "duk__handle_longjmp_switch X h thr et ect = Inr (Just_return rv h')
     \<Longrightarrow> duk__handle_longjmp X h thr et ect = Inr (rv, h')"
  by (simp add: duk__handle_longjmp.simps)

lemma handle_longjmp_internal:
  "duk__handle_longjmp_switch X h thr et ect = Inr Convert_to_internal_error
     \<Longrightarrow> duk__handle_longjmp X h thr et ect = Inl InternalError"
  by (simp add: duk__handle_longjmp.simps)

lemma handle_longjmp_error:
  "duk__handle_longjmp_switch X h thr et ect = Inl e
     \<Longrightarrow> duk__handle_longjmp X h thr et ect = Inl e"
  by (simp add: duk__handle_longjmp.simps)

lemma get_thread_ok [simp]: "thr < length (threads h) \<Longrightarrow> get_thread h thr = Inr (threads h ! thr)"
  by (simp add: get_thread_def)

text \<open>the switch in each of the four interceptable kinds, when the walk ends at a finally\<close>

lemma switch_finally:
  assumes thr: "thr < length (threads h)"
    and w: "(lj_type (lj h) = DUK_LJ_TYPE_RETURN
            \<and> duk__return_walk (catchstack (threads h ! thr))
                 (size_minus_1 (length (callstack (threads h ! thr))))
                 (length (catchstack (threads h ! thr))) = Inl i)
          \<or> ((lj_type (lj h) = DUK_LJ_TYPE_BREAK \<or> lj_type (lj h) = DUK_LJ_TYPE_CONTINUE)
            \<and> (\<exists>d l. value1 (lj h) = TV_Number d \<and> double_to_uint d = Some l
                 \<and> duk__label_walk (catchstack (threads h ! thr))
                      (callstack_index (last (catchstack (threads h ! thr)))) l
                      (length (catchstack (threads h ! thr))) = Walk_finally i))
          \<or> (lj_type (lj h) = DUK_LJ_TYPE_THROW
            \<and> duk__throw_walk (catchstack (threads h ! thr)) (thr = et) (size_minus_1 ect)
                 (length (catchstack (threads h ! thr))) = Some (i, True))"
  shows "duk__handle_longjmp_switch X h thr et ect =
           bindE (duk__handle_catch_or_finally X (lj h) (threads h ! thr) i True) (\<lambda>T'.
             Inr (Wipe_and_return DUK__LONGJMP_RESTART (put_thread h thr T')))
         \<and> i < length (catchstack (threads h ! thr))
         \<and> finally_enabled (catchstack (threads h ! thr) ! i)"
proof -
  define T where "T = threads h ! thr"
  from w consider
    (ret) "lj_type (lj h) = DUK_LJ_TYPE_RETURN"
      "duk__return_walk (catchstack T) (size_minus_1 (length (callstack T))) (length (catchstack T)) = Inl i"
    | (brk) d l where "lj_type (lj h) = DUK_LJ_TYPE_BREAK \<or> lj_type (lj h) = DUK_LJ_TYPE_CONTINUE"
      "value1 (lj h) = TV_Number d" "double_to_uint d = Some l"
      "duk__label_walk (catchstack T) (callstack_index (last (catchstack T))) l (length (catchstack T)) = Walk_finally i"
    | (thw) "lj_type (lj h) = DUK_LJ_TYPE_THROW"
      "duk__throw_walk (catchstack T) (thr = et) (size_minus_1 ect) (length (catchstack T)) = Some (i, True)"
    unfolding T_def by blast
  then show ?thesis
  proof cases
    case ret
    from return_walk_Inl [OF ret(2)] have "i < length (catchstack T)" "finally_enabled (catchstack T ! i)"
      by simp_all
    then show ?thesis
      using ret thr unfolding T_def [symmetric]
      by (simp add: duk__handle_longjmp_switch_def duk__lj_return_def lj_type_defs T_def [symmetric])
  next
    case brk
    from label_walk_finally [OF brk(4)] have i: "i < length (catchstack T)" "finally_enabled (catchstack T ! i)"
      by simp_all
    then have ne: "catchstack T \<noteq> []" by auto
    from brk(1) have t: "lj_type (lj h) \<noteq> DUK_LJ_TYPE_RESUME" "lj_type (lj h) \<noteq> DUK_LJ_TYPE_YIELD"
      "lj_type (lj h) \<noteq> DUK_LJ_TYPE_RETURN"
      by (auto simp add: lj_type_defs)
    show ?thesis
      using brk i ne t thr unfolding T_def [symmetric]
      by (simp add: duk__handle_longjmp_switch_def duk__lj_break_continue_def T_def [symmetric])
  next
    case thw
    from throw_walk_Some [OF thw(2)] have "i < length (catchstack T)" "finally_enabled (catchstack T ! i)"
      by simp_all
    then show ?thesis
      using thw thr unfolding T_def [symmetric]
      by (simp add: duk__handle_longjmp_switch_def duk__lj_throw_def lj_type_defs T_def [symmetric])
  qed
qed

lemma endfin_normal:
  assumes t: "t < length (threads g)" and ne: "catchstack (threads g ! t) \<noteq> []"
    and ib: "idx_base (last (catchstack (threads g ! t))) + 1 < length (valstack (threads g ! t))"
    and v: "valstack (threads g ! t) ! (idx_base (last (catchstack (threads g ! t))) + 1) = TV_Number d"
    and n: "double_to_uint d = Some DUK_LJ_TYPE_NORMAL"
  shows "op_ENDFIN g t = Inr (Op_next (put_thread g t
           ((threads g ! t)\<lparr>catchstack := butlast (catchstack (threads g ! t))\<rparr>)))"
  using assms
  by (simp add: op_ENDFIN_def valstack_load_def DUK_TVAL_GET_NUMBER_def DUK_TVAL_IS_NUMBER_def
        duk_hthread_catchstack_unwind_def butlast_conv_take del: One_nat_def)

lemma endfin_rethrow:
  assumes t: "t < length (threads g)" and ne: "catchstack (threads g ! t) \<noteq> []"
    and ib: "idx_base (last (catchstack (threads g ! t))) + 1 < length (valstack (threads g ! t))"
    and v: "valstack (threads g ! t) ! (idx_base (last (catchstack (threads g ! t))) + 1) = TV_Number d"
    and n: "double_to_uint d = Some n" "n \<noteq> DUK_LJ_TYPE_NORMAL"
    and room: "length (valstack (threads g ! t)) < valstack_size (threads g ! t)"
    and b: "valstack_bottom (threads g ! t) \<le> length (valstack (threads g ! t))"
  shows "op_ENDFIN g t = Inr (Op_longjmp (g\<lparr>lj := (lj g)\<lparr>lj_type := n,
           value1 := valstack (threads g ! t) ! idx_base (last (catchstack (threads g ! t)))\<rparr>\<rparr>))"
proof -
  define G where "G = threads g ! t"
  have l: "valstack_load G (idx_base (last (catchstack G)) + 1) = Inr (TV_Number d)"
    "valstack_load G (idx_base (last (catchstack G))) = Inr (valstack G ! idx_base (last (catchstack G)))"
    using ib v by (simp_all add: valstack_load_def G_def del: One_nat_def)
  show ?thesis
    unfolding op_ENDFIN_def G_def [symmetric]
    using t ne n room
    by (simp add: G_def [symmetric] l DUK_TVAL_GET_NUMBER_def DUK_TVAL_IS_NUMBER_def push1
          setup_ljstate_pushed [OF t b [folded G_def]] put_thread_same [OF G_def] del: One_nat_def)
qed

lemma update_last: "xs \<noteq> [] \<Longrightarrow> xs[length xs - 1 := y] = butlast xs @ [y]"
  by (induction xs rule: rev_induct) simp_all

lemma take_Suc_update: "i < length xs \<Longrightarrow> (take (i + 1) xs)[i := y] = take i xs @ [y]"
  by (simp add: take_Suc_conv_app_nth list_update_append)

lemma lj_type_small:
  "n = DUK_LJ_TYPE_RETURN \<or> n = DUK_LJ_TYPE_THROW \<or> n = DUK_LJ_TYPE_BREAK \<or> n = DUK_LJ_TYPE_CONTINUE
     \<Longrightarrow> n < 2 ^ 32 \<and> n \<noteq> DUK_LJ_TYPE_NORMAL"
  by (auto simp add: lj_type_defs)

lemma reconfig_valstack_eq:
  assumes a: "a < length (callstack thr)"
    and f: "func (callstack thr ! a) = Some (COMPILEDFUNCTION hf)"
    and ib: "idx_bottom (callstack thr ! a) \<le> idx_retval (callstack thr ! a)"
    and live: "idx_retval (callstack thr ! a) < length (valstack thr)"
    and reg: "idx_retval (callstack thr ! a) < idx_bottom (callstack thr ! a) + nregs hf"
    and sz: "idx_retval (callstack thr ! a) < valstack_size thr"
    and mx: "idx_bottom (callstack thr ! a) + nregs hf + DUK_VALSTACK_INTERNAL_EXTRA X \<le> valstack_max thr"
  shows "duk__reconfig_valstack X thr a 1 =
           Inr (thr\<lparr>valstack_bottom := idx_bottom (callstack thr ! a),
                   valstack := take (idx_retval (callstack thr ! a) + 1) (valstack thr)
                     @ replicate (idx_bottom (callstack thr ! a) + nregs hf
                                    - (idx_retval (callstack thr ! a) + 1)) TV_Undefined,
                   valstack_size := idx_bottom (callstack thr ! a) + nregs hf
                                      + DUK_VALSTACK_INTERNAL_EXTRA X\<rparr>)"
proof -
  define act where "act = callstack thr ! a"
  define B where "B = idx_bottom act"
  define R where "R = idx_retval act"
  define N where "N = nregs hf"
  define thr1 where "thr1 = thr\<lparr>valstack_bottom := B\<rparr>"
  define thr2 where "thr2 = thr1\<lparr>valstack := take (R + 1) (valstack thr)\<rparr>"
  define thr3 where "thr3 = thr2\<lparr>valstack_size := B + N + DUK_VALSTACK_INTERNAL_EXTRA X\<rparr>"
  have BR: "B \<le> R" "R < length (valstack thr)" "R < B + N" "R < valstack_size thr"
    "B + N + DUK_VALSTACK_INTERNAL_EXTRA X \<le> valstack_max thr"
    using ib live reg sz mx by (simp_all add: B_def R_def N_def act_def)
  have i1: "int R - int B + int 1 = int (R + 1 - B)" using BR by simp
  have unf: "duk__reconfig_valstack X thr a 1 =
      bindE (duk_set_top thr1 (int (R + 1 - B))) (\<lambda>thr2.
        bindE (duk_valstack_resize_raw thr2 (valstack_bottom thr2 + N + DUK_VALSTACK_INTERNAL_EXTRA X))
          (\<lambda>thr3. duk_set_top thr3 (int N)))"
    using a f unfolding duk__reconfig_valstack_def
    by (simp only: Let_def act_def [symmetric] B_def [symmetric] R_def [symmetric] i1 [simplified]
          thr1_def N_def)
       (simp add: i1 [simplified] del: of_nat_diff)
  have st1: "duk_set_top thr1 (int (R + 1 - B)) = Inr thr2"
    using BR set_top_nonneg [of thr1 "R + 1 - B"]
    by (simp add: thr1_def thr2_def)
  have rs: "duk_valstack_resize_raw thr2 (valstack_bottom thr2 + N + DUK_VALSTACK_INTERNAL_EXTRA X) = Inr thr3"
    using BR by (simp add: duk_valstack_resize_raw_def thr2_def thr1_def thr3_def)
  have st2: "duk_set_top thr3 (int N) =
      Inr (thr3\<lparr>valstack := take (R + 1) (valstack thr) @ replicate (B + N - (R + 1)) TV_Undefined\<rparr>)"
    using BR set_top_nonneg [of thr3 N]
    by (simp add: thr3_def thr2_def thr1_def)
  show ?thesis
    unfolding unf act_def [symmetric] B_def [symmetric] R_def [symmetric] N_def [symmetric]
    by (simp only: st1 bindE_simps rs st2) (simp add: thr3_def thr2_def thr1_def)
qed

lemma handle_yield_eq:
  assumes r: "r < length (threads h)"
    and a: "a < length (callstack (threads h ! r))"
    and f: "func (callstack (threads h ! r) ! a) = Some (COMPILEDFUNCTION hf)"
    and ib: "idx_bottom (callstack (threads h ! r) ! a) \<le> idx_retval (callstack (threads h ! r) ! a)"
    and live: "idx_retval (callstack (threads h ! r) ! a) < length (valstack (threads h ! r))"
    and reg: "idx_retval (callstack (threads h ! r) ! a)
                < idx_bottom (callstack (threads h ! r) ! a) + nregs hf"
    and sz: "idx_retval (callstack (threads h ! r) ! a) < valstack_size (threads h ! r)"
    and mx: "idx_bottom (callstack (threads h ! r) ! a) + nregs hf + DUK_VALSTACK_INTERNAL_EXTRA X
               \<le> valstack_max (threads h ! r)"
  shows "duk__handle_yield X h r a =
           Inr (put_thread h r ((threads h ! r)\<lparr>
             valstack := take (idx_retval (callstack (threads h ! r) ! a) + 1)
                           ((valstack (threads h ! r))[idx_retval (callstack (threads h ! r) ! a) := value1 (lj h)])
                 @ replicate (idx_bottom (callstack (threads h ! r) ! a) + nregs hf
                                - (idx_retval (callstack (threads h ! r) ! a) + 1)) TV_Undefined,
             valstack_bottom := idx_bottom (callstack (threads h ! r) ! a),
             valstack_size := idx_bottom (callstack (threads h ! r) ! a) + nregs hf
                                + DUK_VALSTACK_INTERNAL_EXTRA X,
             callstack := take (a + 1) (callstack (threads h ! r))\<rparr>))"
proof -
  define R where "R = threads h ! r"
  define A where "A = callstack R ! a"
  define R2 where "R2 = R\<lparr>valstack := (valstack R)[idx_retval A := value1 (lj h)],
                          callstack := take (a + 1) (callstack R)\<rparr>"
  have st: "valstack_store R (idx_retval A) (value1 (lj h))
              = Inr (R\<lparr>valstack := (valstack R)[idx_retval A := value1 (lj h)]\<rparr>)"
    using live by (simp add: valstack_store_def R_def A_def)
  have uw: "duk_hthread_callstack_unwind (R\<lparr>valstack := (valstack R)[idx_retval A := value1 (lj h)]\<rparr>) (a + 1) = R2"
    by (simp add: duk_hthread_callstack_unwind_def R2_def)
  have A2: "callstack R2 ! a = A" using a by (simp add: R2_def A_def R_def)
  have rc: "duk__reconfig_valstack X R2 a 1 =
           Inr (R2\<lparr>valstack_bottom := idx_bottom (callstack R2 ! a),
                   valstack := take (idx_retval (callstack R2 ! a) + 1) (valstack R2)
                     @ replicate (idx_bottom (callstack R2 ! a) + nregs hf
                                    - (idx_retval (callstack R2 ! a) + 1)) TV_Undefined,
                   valstack_size := idx_bottom (callstack R2 ! a) + nregs hf
                                      + DUK_VALSTACK_INTERNAL_EXTRA X\<rparr>)"
    apply (rule reconfig_valstack_eq)
    using a f ib live reg sz mx unfolding A2
    by (simp_all add: R2_def A_def R_def)
  have g: "get_thread h r = Inr R" using r by (simp add: R_def)
  have na: "\<not> length (callstack R) \<le> a" using a by (simp add: R_def)
  show ?thesis
    unfolding duk__handle_yield_def R_def [symmetric] A_def [symmetric]
    apply (simp only: g bindE_simps na if_False A_def [symmetric] st Let_def uw rc A2)
    apply (rule arg_cong [where f = Inr])
    apply (rule arg_cong [where f = "put_thread h r"])
    apply (rule duk_hthread.equality)
    apply (simp_all add: R2_def)
    done
qed

lemma switch_return:
  assumes "thr < length (threads h)" "lj_type (lj h) = DUK_LJ_TYPE_RETURN"
  shows "duk__handle_longjmp_switch X h thr et ect =
    (case duk__return_walk (catchstack (threads h ! thr))
            (size_minus_1 (length (callstack (threads h ! thr))))
            (length (catchstack (threads h ! thr))) of
         Inl i \<Rightarrow>
           bindE (duk__handle_catch_or_finally X (lj h) (threads h ! thr) i True) (\<lambda>T'.
             Inr (Wipe_and_return DUK__LONGJMP_RESTART (put_thread h thr T')))
       | Inr k \<Rightarrow>
           if thr = et \<and> length (callstack (threads h ! thr)) = ect then
             bindE (duk_push_tval (threads h ! thr) (value1 (lj h))) (\<lambda>T'.
               Inr (Wipe_and_return DUK__LONGJMP_FINISHED (put_thread h thr T')))
           else if 2 \<le> length (callstack (threads h ! thr)) then
             bindE (valstack_store (threads h ! thr)
                      (idx_retval (callstack (threads h ! thr) ! (length (callstack (threads h ! thr)) - 2)))
                      (value1 (lj h))) (\<lambda>T1.
               let T2 = duk_hthread_catchstack_unwind T1 k;
                   T3 = duk_hthread_callstack_unwind T2 (length (callstack T2) - 1)
               in bindE (duk__reconfig_valstack X T3 (length (callstack T3) - 1) 1) (\<lambda>T4.
                    Inr (Wipe_and_return DUK__LONGJMP_RESTART (put_thread h thr T4))))
           else
             (case resumer (threads h ! thr) of
                None \<Rightarrow> Inl Fault
              | Some r \<Rightarrow>
                  bindE (get_thread h r) (\<lambda>R.
                    if length (callstack R) < 2 then Inl Fault
                    else
                      bindE (duk__handle_yield X h r (length (callstack R) - 2)) (\<lambda>h0.
                        Inr (Wipe_and_return DUK__LONGJMP_RESTART
                               (duk__terminate_and_switch h0 thr r))))))"
  using assms
  by (simp add: duk__handle_longjmp_switch_def duk__lj_return_def lj_type_defs)

lemma handle_longjmp_bind_wipe:
  "duk__handle_longjmp_switch X h thr et ect = bindE m (\<lambda>x. Inr (Wipe_and_return rv (g x)))
     \<Longrightarrow> duk__handle_longjmp X h thr et ect = bindE m (\<lambda>x. Inr (rv, duk__wipe_lj (g x)))"
  by (cases m) (simp_all add: duk__handle_longjmp.simps)

lemmas fixture_defs =
  heap_try_def thr_try_def frame_main_def cat_finally_def fun_regs3_def lj_return_def lj_idle_def
  frame_callee_def frame_resume_def thr_nested_def thr_resumer_def thr_co_def heap_co_def
  heap_in_finally_def ext0_def

lemma switch_throw:
  assumes "thr < length (threads h)" "lj_type (lj h) = DUK_LJ_TYPE_THROW"
  shows "duk__handle_longjmp_switch X h thr et ect =
    (case duk__throw_walk (catchstack (threads h ! thr)) (thr = et) (size_minus_1 ect)
              (length (catchstack (threads h ! thr))) of
         Some (i, is_finally) \<Rightarrow>
           bindE (duk__handle_catch_or_finally X (lj h) (threads h ! thr) i is_finally) (\<lambda>T'.
             Inr (Wipe_and_return DUK__LONGJMP_RESTART (put_thread h thr T')))
       | None \<Rightarrow>
           if thr = et then Inr (Just_return DUK__LONGJMP_RETHROW h)
           else
             (case resumer (threads h ! thr) of
                None \<Rightarrow> Inl Fault
              | Some r \<Rightarrow>
                  bindE (get_thread h r) (\<lambda>R.
                    Inr (Check_longjmp (duk__terminate_and_switch h thr r) r))))"
  using assms
  by (simp add: duk__handle_longjmp_switch_def duk__lj_throw_def lj_type_defs)

lemma terminate_and_switch_eq:
  assumes "thr < length (threads h)" "r < length (threads h)" "r \<noteq> thr"
  shows "duk__terminate_and_switch h thr r =
           (put_thread
              (put_thread h thr ((threads h ! thr)\<lparr>state := DUK_HTHREAD_STATE_TERMINATED, resumer := None\<rparr>))
              r ((threads h ! r)\<lparr>state := DUK_HTHREAD_STATE_RUNNING\<rparr>))\<lparr>curr_thread := r\<rparr>"
  using assms
  by (simp add: duk__terminate_and_switch_def put_thread_def duk_hthread_terminate_def Let_def)

lemmas handler_defs =
  duk__handle_longjmp_switch_def duk__lj_throw_def duk__lj_return_def duk__lj_break_continue_def
  duk__lj_yield_def duk__lj_resume_def duk__handle_catch_or_finally_def duk__handle_label_def
  duk__handle_yield_def duk__reconfig_valstack_def duk__terminate_and_switch_def
  duk__switch_to_resumee_def duk__wipe_lj_def
  get_thread_def put_thread_def valstack_store_def valstack_load_def
  duk_hthread_catchstack_unwind_def duk_hthread_callstack_unwind_def duk_hthread_terminate_def
  duk_set_top_def duk_get_top_def duk_push_tval_def duk_pop_n_def duk_valstack_resize_raw_def
  size_minus_1_def Let_def

lemma return_walk_finds:
  assumes "i < k" "callstack_index (cs ! i) = orig" "cat_type (cs ! i) = DUK_CAT_TYPE_TCF"
    "finally_enabled (cs ! i)"
    and "\<forall>j. i < j \<and> j < k \<longrightarrow>
           callstack_index (cs ! j) = orig
           \<and> \<not> (cat_type (cs ! j) = DUK_CAT_TYPE_TCF \<and> finally_enabled (cs ! j))"
  shows "duk__return_walk cs orig k = Inl i"
  using assms
proof (induction k)
  case 0
  then show ?case by simp
next
  case (Suc k)
  show ?case
  proof (cases "i = k")
    case True
    with Suc.prems show ?thesis by simp
  next
    case False
    with Suc.prems have ik: "i < k" by simp
    from Suc.prems(5) ik have top: "callstack_index (cs ! k) = orig"
        "\<not> (cat_type (cs ! k) = DUK_CAT_TYPE_TCF \<and> finally_enabled (cs ! k))"
      by simp_all
    from Suc.prems(5) have "\<forall>j. i < j \<and> j < k \<longrightarrow>
           callstack_index (cs ! j) = orig
           \<and> \<not> (cat_type (cs ! j) = DUK_CAT_TYPE_TCF \<and> finally_enabled (cs ! j))"
      by simp
    from Suc.IH [OF ik Suc.prems(2,3,4) this] top show ?thesis by auto
  qed
qed

lemma return_walk_none:
  assumes "j \<le> k"
    and "\<forall>m. j \<le> m \<and> m < k \<longrightarrow>
           callstack_index (cs ! m) = orig
           \<and> \<not> (cat_type (cs ! m) = DUK_CAT_TYPE_TCF \<and> finally_enabled (cs ! m))"
    and "j = 0 \<or> callstack_index (cs ! (j - 1)) \<noteq> orig"
  shows "duk__return_walk cs orig k = Inr j"
  using assms
proof (induction k)
  case 0
  then show ?case by simp
next
  case (Suc k)
  show ?case
  proof (cases "j = Suc k")
    case True
    with Suc.prems(3) show ?thesis by simp
  next
    case False
    with Suc.prems have jk: "j \<le> k" by simp
    from Suc.prems(2) jk have top: "callstack_index (cs ! k) = orig"
        "\<not> (cat_type (cs ! k) = DUK_CAT_TYPE_TCF \<and> finally_enabled (cs ! k))"
      by simp_all
    from Suc.prems(2) have "\<forall>m. j \<le> m \<and> m < k \<longrightarrow>
           callstack_index (cs ! m) = orig
           \<and> \<not> (cat_type (cs ! m) = DUK_CAT_TYPE_TCF \<and> finally_enabled (cs ! m))"
      by simp
    from Suc.IH [OF jk this Suc.prems(3)] top show ?thesis by simp
  qed
qed

lemma return_walk_Inl_above:
  "duk__return_walk cs orig k = Inl i \<Longrightarrow> i < j \<Longrightarrow> j < k \<Longrightarrow>
     callstack_index (cs ! j) = orig
     \<and> \<not> (cat_type (cs ! j) = DUK_CAT_TYPE_TCF \<and> finally_enabled (cs ! j))"
proof (induction k)
  case 0
  then show ?case by simp
next
  case (Suc k)
  from Suc.prems(1) have top: "callstack_index (cs ! k) = orig"
    by (simp split: if_splits)
  show ?case
  proof (cases "cat_type (cs ! k) = DUK_CAT_TYPE_TCF \<and> finally_enabled (cs ! k)")
    case True
    with Suc.prems top have "i = k" by simp
    with Suc.prems show ?thesis by simp
  next
    case False
    with Suc.prems(1) top have w: "duk__return_walk cs orig k = Inl i" by auto
    show ?thesis
    proof (cases "j = k")
      case True
      with top False show ?thesis by simp
    next
      case False
      with Suc.prems have "j < k" by simp
      from Suc.IH [OF w Suc.prems(2) this] show ?thesis .
    qed
  qed
qed

lemma return_walk_Inr_run:
  "duk__return_walk cs orig k = Inr j \<Longrightarrow>
     j \<le> k
     \<and> (\<forall>m. j \<le> m \<and> m < k \<longrightarrow>
           callstack_index (cs ! m) = orig
           \<and> \<not> (cat_type (cs ! m) = DUK_CAT_TYPE_TCF \<and> finally_enabled (cs ! m)))
     \<and> (j = 0 \<or> callstack_index (cs ! (j - 1)) \<noteq> orig)"
proof (induction k)
  case 0
  then show ?case by simp
next
  case (Suc k)
  show ?case
  proof (cases "callstack_index (cs ! k) = orig")
    case False
    with Suc.prems have "j = Suc k" by simp
    with False show ?thesis by auto
  next
    case True
    with Suc.prems have nf: "\<not> (cat_type (cs ! k) = DUK_CAT_TYPE_TCF \<and> finally_enabled (cs ! k))"
      and w: "duk__return_walk cs orig k = Inr j"
      by (auto split: if_splits)
    from Suc.IH [OF w] have ih: "j \<le> k"
      "\<forall>m. j \<le> m \<and> m < k \<longrightarrow>
           callstack_index (cs ! m) = orig
           \<and> \<not> (cat_type (cs ! m) = DUK_CAT_TYPE_TCF \<and> finally_enabled (cs ! m))"
      "j = 0 \<or> callstack_index (cs ! (j - 1)) \<noteq> orig"
      by simp_all
    have "\<forall>m. j \<le> m \<and> m < Suc k \<longrightarrow>
           callstack_index (cs ! m) = orig
           \<and> \<not> (cat_type (cs ! m) = DUK_CAT_TYPE_TCF \<and> finally_enabled (cs ! m))"
      using ih(2) True nf by (auto simp add: less_Suc_eq)
    with ih show ?thesis by simp
  qed
qed

lemma break_continue_outcomes:
  assumes thr: "thr < length (threads h)"
    and T: "T = threads h ! thr"
    and ty: "lj_type (lj h) = DUK_LJ_TYPE_BREAK \<or> lj_type (lj h) = DUK_LJ_TYPE_CONTINUE"
    and v: "value1 (lj h) = TV_Number d" "double_to_uint d = Some l"
    and ne: "catchstack T \<noteq> []"
    and W: "W = duk__label_walk (catchstack T) (callstack_index (last (catchstack T))) l
                  (length (catchstack T))"
  shows
    "(W = Walk_finally i \<longrightarrow>
        duk__handle_longjmp X h thr entry_thread entry_callstack_top =
          bindE (duk__handle_catch_or_finally X (lj h) T i True) (\<lambda>T'.
            Inr (DUK__LONGJMP_RESTART, duk__wipe_lj (put_thread h thr T'))))
     \<and> (W = Walk_label i \<and> callstack T \<noteq> [] \<longrightarrow>
        duk__handle_longjmp X h thr entry_thread entry_callstack_top =
          Inr (DUK__LONGJMP_RESTART,
               duk__wipe_lj (put_thread h thr (T\<lparr>
                 callstack := (callstack T)[length (callstack T) - 1 :=
                    (callstack T ! (length (callstack T) - 1))\<lparr>pc := pc_base (catchstack T ! i)
                       + (if lj_type (lj h) = DUK_LJ_TYPE_CONTINUE then 1 else 0)\<rparr>],
                 catchstack := take (i + 1) (catchstack T)\<rparr>))))
     \<and> (W = Walk_none \<longrightarrow>
        duk__handle_longjmp X h thr entry_thread entry_callstack_top = Inl InternalError)"
proof -
  from ty have t: "lj_type (lj h) \<noteq> DUK_LJ_TYPE_RESUME" "lj_type (lj h) \<noteq> DUK_LJ_TYPE_YIELD"
      "lj_type (lj h) \<noteq> DUK_LJ_TYPE_RETURN"
    by (auto simp add: lj_type_defs)
  have sw: "duk__handle_longjmp_switch X h thr entry_thread entry_callstack_top =
      (case W of
         Walk_finally i \<Rightarrow>
           bindE (duk__handle_catch_or_finally X (lj h) T i True) (\<lambda>T'.
             Inr (Wipe_and_return DUK__LONGJMP_RESTART (put_thread h thr T')))
       | Walk_label i \<Rightarrow>
           bindE (duk__handle_label (lj h) T i) (\<lambda>T'.
             Inr (Wipe_and_return DUK__LONGJMP_RESTART (put_thread h thr T')))
       | Walk_none \<Rightarrow> Inr Convert_to_internal_error)"
    using thr ty t ne v
    by (simp add: duk__handle_longjmp_switch_def duk__lj_break_continue_def T [symmetric] W
          DUK_TVAL_GET_NUMBER_def DUK_TVAL_IS_NUMBER_def)
  have p1: "duk__handle_longjmp X h thr entry_thread entry_callstack_top =
          bindE (duk__handle_catch_or_finally X (lj h) T i True) (\<lambda>T'.
            Inr (DUK__LONGJMP_RESTART, duk__wipe_lj (put_thread h thr T')))"
    if w: "W = Walk_finally i"
    by (rule handle_longjmp_bind_wipe) (simp add: sw w)
  have p2: "duk__handle_longjmp X h thr entry_thread entry_callstack_top =
          Inr (DUK__LONGJMP_RESTART,
               duk__wipe_lj (put_thread h thr (T\<lparr>
                 callstack := (callstack T)[length (callstack T) - 1 :=
                    (callstack T ! (length (callstack T) - 1))\<lparr>pc := pc_base (catchstack T ! i)
                       + (if lj_type (lj h) = DUK_LJ_TYPE_CONTINUE then 1 else 0)\<rparr>],
                 catchstack := take (i + 1) (catchstack T)\<rparr>)))"
    if w: "W = Walk_label i" and c: "callstack T \<noteq> []"
  proof -
    from w W label_walk_label [of "catchstack T" _ l "length (catchstack T)" i]
    have i: "i < length (catchstack T)" by simp
    have "duk__handle_longjmp_switch X h thr entry_thread entry_callstack_top =
        Inr (Wipe_and_return DUK__LONGJMP_RESTART (put_thread h thr (T\<lparr>
                 callstack := (callstack T)[length (callstack T) - 1 :=
                    (callstack T ! (length (callstack T) - 1))\<lparr>pc := pc_base (catchstack T ! i)
                       + (if lj_type (lj h) = DUK_LJ_TYPE_CONTINUE then 1 else 0)\<rparr>],
                 catchstack := take (i + 1) (catchstack T)\<rparr>)))"
      unfolding sw w using i c
      by (simp add: duk__handle_label_def Let_def duk_hthread_catchstack_unwind_def)
    then show ?thesis by (rule handle_longjmp_wipe)
  qed
  have p3: "duk__handle_longjmp X h thr entry_thread entry_callstack_top = Inl InternalError"
    if w: "W = Walk_none"
    by (rule handle_longjmp_internal) (simp add: sw w)
  from p1 p2 p3 show ?thesis by blast
qed

lemma label_walk_finds_finally:
  assumes "i < k" "callstack_index (cs ! i) = orig" "cat_type (cs ! i) = DUK_CAT_TYPE_TCF"
    "finally_enabled (cs ! i)"
    and "\<forall>j. i < j \<and> j < k \<longrightarrow>
           callstack_index (cs ! j) = orig
           \<and> \<not> (cat_type (cs ! j) = DUK_CAT_TYPE_TCF \<and> finally_enabled (cs ! j))
           \<and> \<not> (cat_type (cs ! j) = DUK_CAT_TYPE_LABEL \<and> cat_label (cs ! j) = l)"
  shows "duk__label_walk cs orig l k = Walk_finally i"
  using assms
proof (induction k)
  case 0
  then show ?case by simp
next
  case (Suc k)
  show ?case
  proof (cases "i = k")
    case True
    with Suc.prems show ?thesis by simp
  next
    case False
    with Suc.prems have ik: "i < k" by simp
    from Suc.prems(5) ik have top: "callstack_index (cs ! k) = orig"
        "\<not> (cat_type (cs ! k) = DUK_CAT_TYPE_TCF \<and> finally_enabled (cs ! k))"
        "\<not> (cat_type (cs ! k) = DUK_CAT_TYPE_LABEL \<and> cat_label (cs ! k) = l)"
      by simp_all
    from Suc.prems(5) have "\<forall>j. i < j \<and> j < k \<longrightarrow>
           callstack_index (cs ! j) = orig
           \<and> \<not> (cat_type (cs ! j) = DUK_CAT_TYPE_TCF \<and> finally_enabled (cs ! j))
           \<and> \<not> (cat_type (cs ! j) = DUK_CAT_TYPE_LABEL \<and> cat_label (cs ! j) = l)"
      by simp
    from Suc.IH [OF ik Suc.prems(2,3,4) this] top show ?thesis by auto
  qed
qed

lemma label_walk_finds_label:
  assumes "i < k" "callstack_index (cs ! i) = orig" "cat_type (cs ! i) = DUK_CAT_TYPE_LABEL"
    "cat_label (cs ! i) = l"
    and "\<forall>j. i < j \<and> j < k \<longrightarrow>
           callstack_index (cs ! j) = orig
           \<and> \<not> (cat_type (cs ! j) = DUK_CAT_TYPE_TCF \<and> finally_enabled (cs ! j))
           \<and> \<not> (cat_type (cs ! j) = DUK_CAT_TYPE_LABEL \<and> cat_label (cs ! j) = l)"
  shows "duk__label_walk cs orig l k = Walk_label i"
  using assms
proof (induction k)
  case 0
  then show ?case by simp
next
  case (Suc k)
  show ?case
  proof (cases "i = k")
    case True
    with Suc.prems show ?thesis by simp
  next
    case False
    with Suc.prems have ik: "i < k" by simp
    from Suc.prems(5) ik have top: "callstack_index (cs ! k) = orig"
        "\<not> (cat_type (cs ! k) = DUK_CAT_TYPE_TCF \<and> finally_enabled (cs ! k))"
        "\<not> (cat_type (cs ! k) = DUK_CAT_TYPE_LABEL \<and> cat_label (cs ! k) = l)"
      by simp_all
    from Suc.prems(5) have "\<forall>j. i < j \<and> j < k \<longrightarrow>
           callstack_index (cs ! j) = orig
           \<and> \<not> (cat_type (cs ! j) = DUK_CAT_TYPE_TCF \<and> finally_enabled (cs ! j))
           \<and> \<not> (cat_type (cs ! j) = DUK_CAT_TYPE_LABEL \<and> cat_label (cs ! j) = l)"
      by simp
    from Suc.IH [OF ik Suc.prems(2,3,4) this] top show ?thesis by auto
  qed
qed

lemma label_walk_finds_none:
  assumes "j \<le> k"
    and "\<forall>m. j \<le> m \<and> m < k \<longrightarrow>
           callstack_index (cs ! m) = orig
           \<and> \<not> (cat_type (cs ! m) = DUK_CAT_TYPE_TCF \<and> finally_enabled (cs ! m))
           \<and> \<not> (cat_type (cs ! m) = DUK_CAT_TYPE_LABEL \<and> cat_label (cs ! m) = l)"
    and "j = 0 \<or> callstack_index (cs ! (j - 1)) \<noteq> orig"
  shows "duk__label_walk cs orig l k = Walk_none"
  using assms
proof (induction k)
  case 0
  then show ?case by simp
next
  case (Suc k)
  show ?case
  proof (cases "j = Suc k")
    case True
    with Suc.prems(3) show ?thesis by simp
  next
    case False
    with Suc.prems have jk: "j \<le> k" by simp
    from Suc.prems(2) jk have top: "callstack_index (cs ! k) = orig"
        "\<not> (cat_type (cs ! k) = DUK_CAT_TYPE_TCF \<and> finally_enabled (cs ! k))"
        "\<not> (cat_type (cs ! k) = DUK_CAT_TYPE_LABEL \<and> cat_label (cs ! k) = l)"
      by simp_all
    from Suc.prems(2) have "\<forall>m. j \<le> m \<and> m < k \<longrightarrow>
           callstack_index (cs ! m) = orig
           \<and> \<not> (cat_type (cs ! m) = DUK_CAT_TYPE_TCF \<and> finally_enabled (cs ! m))
           \<and> \<not> (cat_type (cs ! m) = DUK_CAT_TYPE_LABEL \<and> cat_label (cs ! m) = l)"
      by simp
    from Suc.IH [OF jk this Suc.prems(3)] top show ?thesis by auto
  qed
qed

text \<open>Conversely, what a result of the walk says about the catch stack.\<close>

lemma label_walk_cases:
  "(\<exists>i. duk__label_walk cs orig l k = Walk_finally i
        \<and> i < k \<and> callstack_index (cs ! i) = orig
        \<and> cat_type (cs ! i) = DUK_CAT_TYPE_TCF \<and> finally_enabled (cs ! i)
        \<and> (\<forall>j. i < j \<and> j < k \<longrightarrow>
               callstack_index (cs ! j) = orig
               \<and> \<not> (cat_type (cs ! j) = DUK_CAT_TYPE_TCF \<and> finally_enabled (cs ! j))
               \<and> \<not> (cat_type (cs ! j) = DUK_CAT_TYPE_LABEL \<and> cat_label (cs ! j) = l)))
   \<or> (\<exists>i. duk__label_walk cs orig l k = Walk_label i
        \<and> i < k \<and> callstack_index (cs ! i) = orig
        \<and> cat_type (cs ! i) = DUK_CAT_TYPE_LABEL \<and> cat_label (cs ! i) = l
        \<and> (\<forall>j. i < j \<and> j < k \<longrightarrow>
               callstack_index (cs ! j) = orig
               \<and> \<not> (cat_type (cs ! j) = DUK_CAT_TYPE_TCF \<and> finally_enabled (cs ! j))
               \<and> \<not> (cat_type (cs ! j) = DUK_CAT_TYPE_LABEL \<and> cat_label (cs ! j) = l)))
   \<or> (\<exists>j. duk__label_walk cs orig l k = Walk_none
        \<and> j \<le> k
        \<and> (\<forall>m. j \<le> m \<and> m < k \<longrightarrow>
               callstack_index (cs ! m) = orig
               \<and> \<not> (cat_type (cs ! m) = DUK_CAT_TYPE_TCF \<and> finally_enabled (cs ! m))
               \<and> \<not> (cat_type (cs ! m) = DUK_CAT_TYPE_LABEL \<and> cat_label (cs ! m) = l))
        \<and> (j = 0 \<or> callstack_index (cs ! (j - 1)) \<noteq> orig))"
proof (induction k)
  case 0
  then show ?case by simp
next
  case (Suc k)
  show ?case
  proof (cases "callstack_index (cs ! k) = orig")
    case False
    then have "duk__label_walk cs orig l (Suc k) = Walk_none
        \<and> Suc k \<le> Suc k
        \<and> (\<forall>m. Suc k \<le> m \<and> m < Suc k \<longrightarrow>
               callstack_index (cs ! m) = orig
               \<and> \<not> (cat_type (cs ! m) = DUK_CAT_TYPE_TCF \<and> finally_enabled (cs ! m))
               \<and> \<not> (cat_type (cs ! m) = DUK_CAT_TYPE_LABEL \<and> cat_label (cs ! m) = l))
        \<and> (Suc k = 0 \<or> callstack_index (cs ! (Suc k - 1)) \<noteq> orig)"
      by auto
    then show ?thesis by blast
  next
    case own: True
    show ?thesis
    proof (cases "cat_type (cs ! k) = DUK_CAT_TYPE_TCF \<and> finally_enabled (cs ! k)")
      case True
      with own have "duk__label_walk cs orig l (Suc k) = Walk_finally k
        \<and> k < Suc k \<and> callstack_index (cs ! k) = orig
        \<and> cat_type (cs ! k) = DUK_CAT_TYPE_TCF \<and> finally_enabled (cs ! k)
        \<and> (\<forall>j. k < j \<and> j < Suc k \<longrightarrow>
               callstack_index (cs ! j) = orig
               \<and> \<not> (cat_type (cs ! j) = DUK_CAT_TYPE_TCF \<and> finally_enabled (cs ! j))
               \<and> \<not> (cat_type (cs ! j) = DUK_CAT_TYPE_LABEL \<and> cat_label (cs ! j) = l))"
        by auto
      then show ?thesis by blast
    next
      case nofin: False
      show ?thesis
      proof (cases "cat_type (cs ! k) = DUK_CAT_TYPE_LABEL \<and> cat_label (cs ! k) = l")
        case True
        with own nofin have "duk__label_walk cs orig l (Suc k) = Walk_label k
          \<and> k < Suc k \<and> callstack_index (cs ! k) = orig
          \<and> cat_type (cs ! k) = DUK_CAT_TYPE_LABEL \<and> cat_label (cs ! k) = l
          \<and> (\<forall>j. k < j \<and> j < Suc k \<longrightarrow>
               callstack_index (cs ! j) = orig
               \<and> \<not> (cat_type (cs ! j) = DUK_CAT_TYPE_TCF \<and> finally_enabled (cs ! j))
               \<and> \<not> (cat_type (cs ! j) = DUK_CAT_TYPE_LABEL \<and> cat_label (cs ! j) = l))"
          by auto
        then show ?thesis by blast
      next
        case nolab: False
        from own nofin nolab have step: "duk__label_walk cs orig l (Suc k) = duk__label_walk cs orig l k"
          by auto
        have ext: "(\<forall>j. a \<le> j \<and> j < Suc k \<longrightarrow>
               callstack_index (cs ! j) = orig
               \<and> \<not> (cat_type (cs ! j) = DUK_CAT_TYPE_TCF \<and> finally_enabled (cs ! j))
               \<and> \<not> (cat_type (cs ! j) = DUK_CAT_TYPE_LABEL \<and> cat_label (cs ! j) = l))"
          if "\<forall>j. a \<le> j \<and> j < k \<longrightarrow>
               callstack_index (cs ! j) = orig
               \<and> \<not> (cat_type (cs ! j) = DUK_CAT_TYPE_TCF \<and> finally_enabled (cs ! j))
               \<and> \<not> (cat_type (cs ! j) = DUK_CAT_TYPE_LABEL \<and> cat_label (cs ! j) = l)" for a
          using that own nofin nolab by (auto simp add: less_Suc_eq)
        have ext': "(\<forall>j. a < j \<and> j < Suc k \<longrightarrow>
               callstack_index (cs ! j) = orig
               \<and> \<not> (cat_type (cs ! j) = DUK_CAT_TYPE_TCF \<and> finally_enabled (cs ! j))
               \<and> \<not> (cat_type (cs ! j) = DUK_CAT_TYPE_LABEL \<and> cat_label (cs ! j) = l))"
          if "\<forall>j. a < j \<and> j < k \<longrightarrow>
               callstack_index (cs ! j) = orig
               \<and> \<not> (cat_type (cs ! j) = DUK_CAT_TYPE_TCF \<and> finally_enabled (cs ! j))
               \<and> \<not> (cat_type (cs ! j) = DUK_CAT_TYPE_LABEL \<and> cat_label (cs ! j) = l)" for a
          using that own nofin nolab by (auto simp add: less_Suc_eq)
        from Suc.IH consider
          (f) i where "duk__label_walk cs orig l k = Walk_finally i" "i < k"
            "callstack_index (cs ! i) = orig" "cat_type (cs ! i) = DUK_CAT_TYPE_TCF"
            "finally_enabled (cs ! i)"
            "\<forall>j. i < j \<and> j < k \<longrightarrow>
               callstack_index (cs ! j) = orig
               \<and> \<not> (cat_type (cs ! j) = DUK_CAT_TYPE_TCF \<and> finally_enabled (cs ! j))
               \<and> \<not> (cat_type (cs ! j) = DUK_CAT_TYPE_LABEL \<and> cat_label (cs ! j) = l)"
          | (l) i where "duk__label_walk cs orig l k = Walk_label i" "i < k"
            "callstack_index (cs ! i) = orig" "cat_type (cs ! i) = DUK_CAT_TYPE_LABEL"
            "cat_label (cs ! i) = l"
            "\<forall>j. i < j \<and> j < k \<longrightarrow>
               callstack_index (cs ! j) = orig
               \<and> \<not> (cat_type (cs ! j) = DUK_CAT_TYPE_TCF \<and> finally_enabled (cs ! j))
               \<and> \<not> (cat_type (cs ! j) = DUK_CAT_TYPE_LABEL \<and> cat_label (cs ! j) = l)"
          | (n) j where "duk__label_walk cs orig l k = Walk_none" "j \<le> k"
            "\<forall>m. j \<le> m \<and> m < k \<longrightarrow>
               callstack_index (cs ! m) = orig
               \<and> \<not> (cat_type (cs ! m) = DUK_CAT_TYPE_TCF \<and> finally_enabled (cs ! m))
               \<and> \<not> (cat_type (cs ! m) = DUK_CAT_TYPE_LABEL \<and> cat_label (cs ! m) = l)"
            "j = 0 \<or> callstack_index (cs ! (j - 1)) \<noteq> orig"
          by blast
        then show ?thesis
        proof cases
          case f
          have w: "duk__label_walk cs orig l (Suc k) = Walk_finally i" using step f(1) by simp
          show ?thesis
            apply (rule disjI1)
            apply (rule exI [of _ i])
            using w f(2,3,4,5) ext' [OF f(6)] apply simp
            done
        next
          case l
          have w: "duk__label_walk cs orig l (Suc k) = Walk_label i" using step l(1) by simp
          show ?thesis
            apply (rule disjI2)
            apply (rule disjI1)
            apply (rule exI [of _ i])
            using w l(2,3,4,5) ext' [OF l(6)] apply simp
            done
        next
          case n
          have w: "duk__label_walk cs orig l (Suc k) = Walk_none" using step n(1) by simp
          show ?thesis
            apply (rule disjI2)
            apply (rule disjI2)
            apply (rule exI [of _ j])
            using w n(2,4) ext [OF n(3)] apply simp
            done
        qed
      qed
    qed
  qed
qed

section \<open>The shift opcodes\<close>

text \<open>
  Claim C6. For the binary shift opcodes \<open>BASL\<close>, \<open>BASR\<close> and \<open>BLSR\<close>, whenever
  \<open>duk__vm_bitwise_binary_op\<close> returns: both operands were coerced with \<open>ToInt32\<close>;
  the target register holds a number that is not NaN; the number is exactly the
  integer obtained by shifting the first operand by the count reduced modulo 32
  (so a count of \<open>c + 32\<close> stores what \<open>c\<close> stores, and \<open>1 << 32\<close> is \<open>1\<close>); the
  \<open>BASL\<close> result wraps as a signed 32-bit integer (\<open>4294967295 << 1\<close> is \<open>-2\<close>), the
  \<open>BASR\<close> result is the arithmetic shift of the signed operand and the \<open>BLSR\<close>
  result is the shift of the operand read as an unsigned 32-bit integer.
\<close>

theorem shift_opcodes_mask_count_and_store_exact:
  assumes "opcode \<in> {DUK_OP_BASL, DUK_OP_BASR, DUK_OP_BLSR}"
    and "valstack_bottom thr + idx_z < length (valstack thr)"
    and "duk__vm_bitwise_binary_op X thr tv_x tv_y idx_z opcode = Inr thr'"
  shows "\<exists>i1 i2 d.
      duk_js_toint32 X tv_x = Inr i1 \<and> duk_js_toint32 X tv_y = Inr i2 \<and>
      thr' = thr\<lparr>valstack := (valstack thr)[valstack_bottom thr + idx_z := TV_Number d]\<rparr> \<and>
      \<not> DUK_ISNAN d \<and>
      d = duk__bitwise_switch opcode i1 (i2 + 32) \<and>
      double_value d =
        (if opcode = DUK_OP_BASL then real_of_int (signed_take_bit 31 (sint i1 * 2 ^ (unat i2 mod 32)))
         else if opcode = DUK_OP_BASR then real_of_int (sint i1 div 2 ^ (unat i2 mod 32))
         else real (unat i1 div 2 ^ (unat i2 mod 32))) \<and>
      (if opcode = DUK_OP_BLSR then 0 \<le> double_value d \<and> double_value d < 2 ^ 32
       else - (2 ^ 31) \<le> double_value d \<and> double_value d < 2 ^ 31)"
proof -
  from bitwise_binary_op_stores [OF assms(2,3)] obtain i1 i2 where
    i: "duk_js_toint32 X tv_x = Inr i1" "duk_js_toint32 X tv_y = Inr i2"
    and t: "thr' = thr\<lparr>valstack := (valstack thr)[valstack_bottom thr + idx_z :=
                    TV_Number (duk__bitwise_switch opcode i1 i2)]\<rparr>"
    by blast
  let ?d = "duk__bitwise_switch opcode i1 i2"
  have v: "double_value ?d =
        (if opcode = DUK_OP_BASL then real_of_int (signed_take_bit 31 (sint i1 * 2 ^ (unat i2 mod 32)))
         else if opcode = DUK_OP_BASR then real_of_int (sint i1 div 2 ^ (unat i2 mod 32))
         else real (unat i1 div 2 ^ (unat i2 mod 32)))"
    using assms(1) by (auto simp add: bitwise_switch_value)
  have r: "(if opcode = DUK_OP_BLSR then 0 \<le> double_value ?d \<and> double_value ?d < 2 ^ 32
       else - (2 ^ 31) \<le> double_value ?d \<and> double_value ?d < 2 ^ 31)"
    using assms(1) bitwise_switch_range [of i1 i2] by auto
  show ?thesis
    using i t v r bitwise_switch_not_nan [of opcode i1 i2] bitwise_switch_count_32 [OF assms(1), of i1 i2]
    by (intro exI [of _ i1] exI [of _ i2] exI [of _ ?d]) simp
qed

theorem shift_opcodes_witness:
  "DUK_OP_BASL \<in> {DUK_OP_BASL, DUK_OP_BASR, DUK_OP_BLSR}
   \<and> valstack_bottom thr_regs2 + 0 < length (valstack thr_regs2)
   \<and> duk__vm_bitwise_binary_op ext0 thr_regs2
        (TV_Number (uint_to_double 1)) (TV_Number (uint_to_double 32)) 0 DUK_OP_BASL
      = Inr (thr_regs2\<lparr>valstack := [TV_Number (int_to_double 1), TV_Undefined]\<rparr>)
   \<and> duk__vm_bitwise_binary_op ext0 thr_regs2
        (TV_Number (uint_to_double 4294967295)) (TV_Number (uint_to_double 1)) 0 DUK_OP_BASL
      = Inr (thr_regs2\<lparr>valstack := [TV_Number (int_to_double (- 2)), TV_Undefined]\<rparr>)
   \<and> double_value (int_to_double (- 2)) = - 2
   \<and> (\<exists>d. thr_regs2\<lparr>valstack := [TV_Number (int_to_double 1), TV_Undefined]\<rparr>
            = thr_regs2\<lparr>valstack := (valstack thr_regs2)[valstack_bottom thr_regs2 + 0 := TV_Number d]\<rparr>
          \<and> \<not> DUK_ISNAN d \<and> double_value d = 1)"
proof -
  have m: "DUK_OP_BASL \<in> {DUK_OP_BASL, DUK_OP_BASR, DUK_OP_BLSR}" by simp
  have k: "valstack_bottom thr_regs2 + 0 < length (valstack thr_regs2)"
    by (simp add: thr_regs2_def)
  have b: "valstack_bottom thr_regs2 \<le> length (valstack thr_regs2)"
    by (simp add: thr_regs2_def)
  have room: "length (valstack thr_regs2) + 2 \<le> valstack_size thr_regs2"
    by (simp add: thr_regs2_def)
  have i: "duk_js_toint32 ext0 (TV_Number (uint_to_double 1)) = Inr 1"
    "duk_js_toint32 ext0 (TV_Number (uint_to_double 32)) = Inr 32"
    "duk_js_toint32 ext0 (TV_Number (uint_to_double 4294967295)) = Inr (- 1)"
    using toint32_uint [of 1 ext0] toint32_uint [of 32 ext0] toint32_uint [of 4294967295 ext0]
    by simp_all
  have sw: "duk__bitwise_switch DUK_OP_BASL 1 32 = int_to_double 1"
    "duk__bitwise_switch DUK_OP_BASL (- 1) 1 = int_to_double (- 2)"
    by (simp_all add: duk__bitwise_switch_def)
  have st: "duk__set_reg_number thr_regs2 0 d
             = Inr (thr_regs2\<lparr>valstack := [TV_Number d, TV_Undefined]\<rparr>)" for d
    by (simp add: set_reg_number_eq [OF k]) (simp add: thr_regs2_def)
  have r1: "duk__vm_bitwise_binary_op ext0 thr_regs2
        (TV_Number (uint_to_double 1)) (TV_Number (uint_to_double 32)) 0 DUK_OP_BASL
      = Inr (thr_regs2\<lparr>valstack := [TV_Number (int_to_double 1), TV_Undefined]\<rparr>)"
    by (simp only: bitwise_binary_op_eq [OF b] room if_True i bindE_simps sw st)
  have r2: "duk__vm_bitwise_binary_op ext0 thr_regs2
        (TV_Number (uint_to_double 4294967295)) (TV_Number (uint_to_double 1)) 0 DUK_OP_BASL
      = Inr (thr_regs2\<lparr>valstack := [TV_Number (int_to_double (- 2)), TV_Undefined]\<rparr>)"
    by (simp only: bitwise_binary_op_eq [OF b] room if_True i bindE_simps sw st)
  have v: "double_value (int_to_double (- 2)) = - 2"
    using double_value_int [of "- 2"] by simp
  from shift_opcodes_mask_count_and_store_exact [OF m k r1]
  obtain i1 i2 d where
    "duk_js_toint32 ext0 (TV_Number (uint_to_double 1)) = Inr i1"
    "duk_js_toint32 ext0 (TV_Number (uint_to_double 32)) = Inr i2"
    and t: "thr_regs2\<lparr>valstack := [TV_Number (int_to_double 1), TV_Undefined]\<rparr>
            = thr_regs2\<lparr>valstack := (valstack thr_regs2)[valstack_bottom thr_regs2 + 0 := TV_Number d]\<rparr>"
    and n: "\<not> DUK_ISNAN d"
    and dv: "double_value d =
        (if DUK_OP_BASL = DUK_OP_BASL then real_of_int (signed_take_bit 31 (sint i1 * 2 ^ (unat i2 mod 32)))
         else if DUK_OP_BASL = DUK_OP_BASR then real_of_int (sint i1 div 2 ^ (unat i2 mod 32))
         else real (unat i1 div 2 ^ (unat i2 mod 32)))"
    by blast
  then have "i1 = 1" "i2 = 32" using i by simp_all
  with dv have "double_value d = 1" by simp
  with m k r1 r2 v t n show ?thesis by blast
qed

section \<open>NaN normalization of numeric results\<close>

text \<open>
  Claim C8. Whenever one of the arithmetic, bitwise or unary helpers behind \<open>ADD\<close>,
  \<open>SUB\<close>, \<open>MUL\<close>, \<open>DIV\<close>, \<open>MOD\<close>, \<open>BAND\<close>, \<open>BOR\<close>, \<open>BXOR\<close>, \<open>BASL\<close>,
  \<open>BASR\<close>, \<open>BLSR\<close>, \<open>BNOT\<close>, \<open>UNM\<close>, \<open>UNP\<close>, \<open>INC\<close> and \<open>DEC\<close> returns,
  only the target register has changed, and the number written there has a non-NaN
  bit pattern or is the canonical NaN (\<open>ADD\<close> may write a string instead). A
  division or an addition of two numbers whose floating-point result is any NaN
  stores the canonical NaN.
\<close>

theorem numeric_results_are_normalized:
  assumes "valstack_bottom thr + idx_z < length (valstack thr)"
  shows
    "(\<forall>thr'. duk__vm_arith_add X thr tv_x tv_y idx_z = Inr thr' \<longrightarrow>
        (\<exists>v. thr' = thr\<lparr>valstack := (valstack thr)[valstack_bottom thr + idx_z := v]\<rparr>
              \<and> tval_normalized v))
   \<and> (\<forall>opcode thr'. duk__vm_arith_binary_op X thr tv_x tv_y idx_z opcode = Inr thr' \<longrightarrow>
        (\<exists>d. thr' = thr\<lparr>valstack := (valstack thr)[valstack_bottom thr + idx_z := TV_Number d]\<rparr>
              \<and> DUK_DBLUNION_IS_NORMALIZED d))
   \<and> (\<forall>opcode thr'. duk__vm_bitwise_binary_op X thr tv_x tv_y idx_z opcode = Inr thr' \<longrightarrow>
        (\<exists>d. thr' = thr\<lparr>valstack := (valstack thr)[valstack_bottom thr + idx_z := TV_Number d]\<rparr>
              \<and> DUK_DBLUNION_IS_NORMALIZED d))
   \<and> (\<forall>thr'. duk__vm_bitwise_not X thr tv_x idx_z = Inr thr' \<longrightarrow>
        (\<exists>d. thr' = thr\<lparr>valstack := (valstack thr)[valstack_bottom thr + idx_z := TV_Number d]\<rparr>
              \<and> DUK_DBLUNION_IS_NORMALIZED d))
   \<and> (\<forall>extraop thr'. duk__vm_arith_unary_op X thr tv_x idx_z extraop = Inr thr' \<longrightarrow>
        (\<exists>d. thr' = thr\<lparr>valstack := (valstack thr)[valstack_bottom thr + idx_z := TV_Number d]\<rparr>
              \<and> DUK_DBLUNION_IS_NORMALIZED d))
   \<and> (\<forall>dx dy. DUK_ISNAN (fp_div X dx dy) \<longrightarrow>
        duk__vm_arith_binary_op X thr (TV_Number dx) (TV_Number dy) idx_z DUK_OP_DIV
          = Inr (thr\<lparr>valstack := (valstack thr)[valstack_bottom thr + idx_z := TV_Number DUK_DOUBLE_NAN]\<rparr>))
   \<and> (\<forall>dx dy. DUK_ISNAN (fp_add X dx dy) \<longrightarrow>
        duk__vm_arith_add X thr (TV_Number dx) (TV_Number dy) idx_z
          = Inr (thr\<lparr>valstack := (valstack thr)[valstack_bottom thr + idx_z := TV_Number DUK_DOUBLE_NAN]\<rparr>))"
  using arith_add_stores [OF assms] arith_binary_op_stores [OF assms]
    bitwise_binary_op_stores_normalized [OF assms] bitwise_not_stores [OF assms]
    arith_unary_op_stores [OF assms] arith_div_nan [OF assms]
  by (simp add: arith_add_numbers [OF assms] normalize_nan)


theorem numeric_results_witness:
  "valstack_bottom thr_regs2 + 0 < length (valstack thr_regs2)
   \<and> DUK_ISNAN (fp_div ext0 fp_zero fp_zero)
   \<and> fp_div ext0 fp_zero fp_zero \<noteq> DUK_DOUBLE_NAN
   \<and> duk__vm_arith_binary_op ext0 thr_regs2 (TV_Number fp_zero) (TV_Number fp_zero) 0 DUK_OP_DIV
       = Inr (thr_regs2\<lparr>valstack := [TV_Number DUK_DOUBLE_NAN, TV_Undefined]\<rparr>)
   \<and> DUK_ISNAN (fp_add ext0 fp_x86_default_nan fp_one)
   \<and> duk__vm_arith_add ext0 thr_regs2 (TV_Number fp_x86_default_nan) (TV_Number fp_one) 0
       = Inr (thr_regs2\<lparr>valstack := [TV_Number DUK_DOUBLE_NAN, TV_Undefined]\<rparr>)
   \<and> duk__vm_arith_unary_op ext0 thr_regs2 (TV_Number fp_one) 0 DUK_EXTRAOP_INC
       = Inr (thr_regs2\<lparr>valstack := [TV_Number fp_one, TV_Undefined]\<rparr>)
   \<and> DUK_DBLUNION_IS_NORMALIZED fp_one
   \<and> tval_normalized (TV_Number DUK_DOUBLE_NAN)"
proof -
  have k: "valstack_bottom thr_regs2 + 0 < length (valstack thr_regs2)"
    by (simp add: thr_regs2_def)
  have b: "valstack_bottom thr_regs2 \<le> length (valstack thr_regs2)"
    by (simp add: thr_regs2_def)
  have st: "(valstack thr_regs2)[valstack_bottom thr_regs2 + 0 := v] = [v, TV_Undefined]" for v
    by (simp add: thr_regs2_def)
  note T = numeric_results_are_normalized [OF k, of ext0 "TV_Number fp_one" "TV_Number fp_one", unfolded st]
  have n1: "DUK_ISNAN (fp_div ext0 fp_zero fp_zero)"
    by (simp add: ext0_def fp_x86_default_nan_def DUK_ISNAN_def)
  have n1': "fp_div ext0 fp_zero fp_zero \<noteq> DUK_DOUBLE_NAN"
    by (simp add: ext0_def fp_x86_default_nan_def DUK_DOUBLE_NAN_def)
  have n2: "DUK_ISNAN (fp_add ext0 fp_x86_default_nan fp_one)"
    by (simp add: ext0_def fpu0_def fp_x86_default_nan_def DUK_ISNAN_def)
  from T n1 have r1: "duk__vm_arith_binary_op ext0 thr_regs2 (TV_Number fp_zero) (TV_Number fp_zero) 0 DUK_OP_DIV
       = Inr (thr_regs2\<lparr>valstack := [TV_Number DUK_DOUBLE_NAN, TV_Undefined]\<rparr>)"
    by blast
  from T n2 have r2: "duk__vm_arith_add ext0 thr_regs2 (TV_Number fp_x86_default_nan) (TV_Number fp_one) 0
       = Inr (thr_regs2\<lparr>valstack := [TV_Number DUK_DOUBLE_NAN, TV_Undefined]\<rparr>)"
    by blast
  have o: "\<not> DUK_ISNAN fp_one" by (simp add: fp_one_def DUK_ISNAN_def)
  have r3: "duk__vm_arith_unary_op ext0 thr_regs2 (TV_Number fp_one) 0 DUK_EXTRAOP_INC
       = Inr (thr_regs2\<lparr>valstack := [TV_Number fp_one, TV_Undefined]\<rparr>)"
    using o
    by (simp add: arith_unary_op_eq [OF b] set_reg_number_eq [OF k] duk__arith_unary_switch_def
          normalize_not_nan st)
       (simp add: ext0_def fpu0_def normalize_not_nan thr_regs2_def)
  from T r3 have "\<exists>d. thr_regs2\<lparr>valstack := [TV_Number fp_one, TV_Undefined]\<rparr>
                = thr_regs2\<lparr>valstack := [TV_Number d, TV_Undefined]\<rparr> \<and> DUK_DBLUNION_IS_NORMALIZED d"
    by blast
  then obtain d where "valstack (thr_regs2\<lparr>valstack := [TV_Number fp_one, TV_Undefined]\<rparr>)
                = valstack (thr_regs2\<lparr>valstack := [TV_Number d, TV_Undefined]\<rparr>)" and d: "DUK_DBLUNION_IS_NORMALIZED d"
    by metis
  then have "d = fp_one" by simp
  with d have n3: "DUK_DBLUNION_IS_NORMALIZED fp_one" by simp
  have n4: "tval_normalized (TV_Number DUK_DOUBLE_NAN)"
    by (simp add: tval_normalized_def DUK_DBLUNION_IS_NORMALIZED_def)
  from k n1 n1' r1 n2 r2 r3 n3 n4 show ?thesis by blast
qed

section \<open>The contract of reconfigure\<close>

text \<open>
  Claim C7. Let the activation at \<open>act_idx\<close> run a compiled function, with its
  \<open>idx_retval\<close> at or above its \<open>idx_bottom\<close>. Whenever
  \<open>duk__reconfig_valstack\<close> returns (for \<open>retval_count\<close> 0 or 1, and for any other
  count): \<open>valstack_bottom\<close> is the frame's \<open>idx_bottom\<close>; the slots are those the stack
  had after its top was clamped to \<open>idx_retval - idx_bottom + retval_count\<close>, cut or
  padded with \<open>undefined\<close> to \<open>nregs\<close>, so the top index is \<open>nregs\<close>; the allocated
  stack extends to \<open>idx_bottom + nregs\<close> plus the spare; nothing else in the thread
  has changed. The call does return when the clamped top lies within the allocated
  stack and within the new size, and the new size within the thread's limit.
\<close>

theorem reconfig_valstack_contract:
  assumes a: "act_idx < length (callstack thr)"
    and f: "func (callstack thr ! act_idx) = Some (COMPILEDFUNCTION h_func)"
    and ib: "idx_bottom (callstack thr ! act_idx) \<le> idx_retval (callstack thr ! act_idx)"
  shows
    "(\<forall>thr'. duk__reconfig_valstack X thr act_idx retval_count = Inr thr' \<longrightarrow>
        valstack_bottom thr' = idx_bottom (callstack thr ! act_idx)
      \<and> duk_get_top thr' = nregs h_func
      \<and> valstack_size thr' = idx_bottom (callstack thr ! act_idx) + nregs h_func + DUK_VALSTACK_INTERNAL_EXTRA X
      \<and> valstack thr' =
          take (idx_bottom (callstack thr ! act_idx) + nregs h_func)
            (take (idx_retval (callstack thr ! act_idx) + retval_count) (valstack thr)
               @ replicate (idx_retval (callstack thr ! act_idx) + retval_count - length (valstack thr)) TV_Undefined)
          @ replicate (idx_bottom (callstack thr ! act_idx) + nregs h_func
                         - (idx_retval (callstack thr ! act_idx) + retval_count)) TV_Undefined
      \<and> thr' = thr\<lparr>valstack_bottom := valstack_bottom thr', valstack := valstack thr',
                    valstack_size := valstack_size thr'\<rparr>)
   \<and> (idx_bottom (callstack thr ! act_idx) \<le> length (valstack thr)
      \<and> idx_retval (callstack thr ! act_idx) + retval_count \<le> valstack_size thr
      \<and> idx_retval (callstack thr ! act_idx) + retval_count
            \<le> idx_bottom (callstack thr ! act_idx) + nregs h_func + DUK_VALSTACK_INTERNAL_EXTRA X
      \<and> idx_bottom (callstack thr ! act_idx) + nregs h_func + DUK_VALSTACK_INTERNAL_EXTRA X \<le> valstack_max thr
      \<longrightarrow> (\<exists>thr'. duk__reconfig_valstack X thr act_idx retval_count = Inr thr'))"
proof -
  define act where "act = callstack thr ! act_idx"
  define B where "B = idx_bottom act"
  define R where "R = idx_retval act"
  define N where "N = nregs h_func"
  define c where "c = R + retval_count"
  define thr1 where "thr1 = thr\<lparr>valstack_bottom := B\<rparr>"
  define vs1 where "vs1 = take c (valstack thr) @ replicate (c - length (valstack thr)) TV_Undefined"
  define thr2 where "thr2 = thr1\<lparr>valstack := vs1\<rparr>"
  have BR: "B \<le> R" using ib by (simp add: B_def R_def act_def)
  have i1: "int R - int B + int retval_count = int (c - B)" using BR by (simp add: c_def)
  have Bc: "B \<le> c" using BR by (simp add: c_def)
  have l1: "length vs1 = c" by (simp add: vs1_def)
  have unf: "duk__reconfig_valstack X thr act_idx retval_count =
      bindE (duk_set_top thr1 (int (c - B))) (\<lambda>thr2.
        bindE (duk_valstack_resize_raw thr2 (valstack_bottom thr2 + N + DUK_VALSTACK_INTERNAL_EXTRA X))
          (\<lambda>thr3. duk_set_top thr3 (int N)))"
    using a f unfolding duk__reconfig_valstack_def
    by (simp add: Let_def act_def [symmetric] B_def [symmetric] R_def [symmetric] i1 thr1_def N_def)
  have st1: "duk_set_top thr1 (int (c - B)) = Inr thr2"
    if "B \<le> length (valstack thr)" "c \<le> valstack_size thr"
    using that Bc set_top_nonneg [of thr1 "c - B"]
    by (simp add: thr1_def thr2_def vs1_def)
  have part1: "valstack_bottom thr' = B \<and> duk_get_top thr' = N
      \<and> valstack_size thr' = B + N + DUK_VALSTACK_INTERNAL_EXTRA X
      \<and> valstack thr' = take (B + N) vs1 @ replicate (B + N - c) TV_Undefined
      \<and> thr' = thr\<lparr>valstack_bottom := valstack_bottom thr', valstack := valstack thr',
                    valstack_size := valstack_size thr'\<rparr>"
    if r: "duk__reconfig_valstack X thr act_idx retval_count = Inr thr'" for thr'
  proof -
    from r unf obtain t2 where t2: "duk_set_top thr1 (int (c - B)) = Inr t2"
      by (cases "duk_set_top thr1 (int (c - B))") simp_all
    from set_top_Inr_nonneg [OF t2] have pre: "B \<le> length (valstack thr)" "c \<le> valstack_size thr"
      using Bc by (simp_all add: thr1_def)
    from t2 st1 [OF pre] have t2': "t2 = thr2" by simp
    from r unf t2 t2' obtain t3 where
      t3: "duk_valstack_resize_raw thr2 (valstack_bottom thr2 + N + DUK_VALSTACK_INTERNAL_EXTRA X) = Inr t3"
      by (cases "duk_valstack_resize_raw thr2 (valstack_bottom thr2 + N + DUK_VALSTACK_INTERNAL_EXTRA X)") simp_all
    then have t3': "t3 = thr2\<lparr>valstack_size := B + N + DUK_VALSTACK_INTERNAL_EXTRA X\<rparr>"
      by (auto simp add: duk_valstack_resize_raw_def thr2_def thr1_def split: if_splits)
    from r unf t2 t2' t3 have r3: "duk_set_top t3 (int N) = Inr thr'" by simp
    have b3: "valstack_bottom t3 \<le> length (valstack t3)" "valstack_bottom t3 + N \<le> valstack_size t3"
      using Bc l1 by (simp_all add: t3' thr2_def thr1_def)
    from r3 set_top_nonneg [OF b3] have
      "thr' = t3\<lparr>valstack := take (B + N) vs1 @ replicate (B + N - c) TV_Undefined\<rparr>"
      using l1 by (simp add: t3' thr2_def thr1_def)
    then show ?thesis
      using Bc l1 by (simp add: t3' thr2_def thr1_def duk_get_top_def)
  qed
  have part2: "\<exists>thr'. duk__reconfig_valstack X thr act_idx retval_count = Inr thr'"
    if p: "B \<le> length (valstack thr)" "c \<le> valstack_size thr"
      "c \<le> B + N + DUK_VALSTACK_INTERNAL_EXTRA X"
      "B + N + DUK_VALSTACK_INTERNAL_EXTRA X \<le> valstack_max thr"
  proof -
    have t3: "duk_valstack_resize_raw thr2 (valstack_bottom thr2 + N + DUK_VALSTACK_INTERNAL_EXTRA X)
          = Inr (thr2\<lparr>valstack_size := B + N + DUK_VALSTACK_INTERNAL_EXTRA X\<rparr>)"
      using p l1 by (simp add: duk_valstack_resize_raw_def thr2_def thr1_def)
    let ?t3 = "thr2\<lparr>valstack_size := B + N + DUK_VALSTACK_INTERNAL_EXTRA X\<rparr>"
    have b3: "valstack_bottom ?t3 \<le> length (valstack ?t3)" "valstack_bottom ?t3 + N \<le> valstack_size ?t3"
      using Bc l1 by (simp_all add: thr2_def thr1_def)
    show ?thesis
      unfolding unf by (simp add: st1 [OF p(1,2)] t3 set_top_nonneg [OF b3])
  qed
  show ?thesis
    using part1 part2
    unfolding act_def [symmetric] B_def [symmetric] R_def [symmetric] N_def [symmetric]
      c_def [symmetric] vs1_def [symmetric]
    by blast
qed


theorem reconfig_valstack_witness:
  "0 < length (callstack thr_caller)
   \<and> func (callstack thr_caller ! 0) = Some (COMPILEDFUNCTION fun_regs3)
   \<and> idx_bottom (callstack thr_caller ! 0) \<le> idx_retval (callstack thr_caller ! 0)
   \<and> duk__reconfig_valstack ext0 thr_caller 0 1
       = Inr (thr_caller\<lparr>valstack_bottom := 1,
                valstack := [TV_Null, TV_Boolean True, TV_Boolean False, TV_Undefined],
                valstack_size := 6\<rparr>)
   \<and> duk_get_top (thr_caller\<lparr>valstack_bottom := 1,
                valstack := [TV_Null, TV_Boolean True, TV_Boolean False, TV_Undefined],
                valstack_size := 6\<rparr>) = nregs fun_regs3"
proof -
  have a: "0 < length (callstack thr_caller)" by (simp add: thr_caller_def)
  have f: "func (callstack thr_caller ! 0) = Some (COMPILEDFUNCTION fun_regs3)"
    by (simp add: thr_caller_def)
  have ib: "idx_bottom (callstack thr_caller ! 0) \<le> idx_retval (callstack thr_caller ! 0)"
    by (simp add: thr_caller_def)
  note T = reconfig_valstack_contract [OF a f ib, where retval_count = 1 and X = ext0]
  have "\<exists>thr'. duk__reconfig_valstack ext0 thr_caller 0 1 = Inr thr'"
    by (rule T [THEN conjunct2, THEN mp])
       (simp add: thr_caller_def fun_regs3_def ext0_def)
  then obtain thr' where r: "duk__reconfig_valstack ext0 thr_caller 0 1 = Inr thr'" by blast
  from T r have
    p: "valstack_bottom thr' = idx_bottom (callstack thr_caller ! 0)"
      "duk_get_top thr' = nregs fun_regs3"
      "valstack_size thr' = idx_bottom (callstack thr_caller ! 0) + nregs fun_regs3 + DUK_VALSTACK_INTERNAL_EXTRA ext0"
      "valstack thr' =
          take (idx_bottom (callstack thr_caller ! 0) + nregs fun_regs3)
            (take (idx_retval (callstack thr_caller ! 0) + 1) (valstack thr_caller)
               @ replicate (idx_retval (callstack thr_caller ! 0) + 1 - length (valstack thr_caller)) TV_Undefined)
          @ replicate (idx_bottom (callstack thr_caller ! 0) + nregs fun_regs3
                         - (idx_retval (callstack thr_caller ! 0) + 1)) TV_Undefined"
      "thr' = thr_caller\<lparr>valstack_bottom := valstack_bottom thr', valstack := valstack thr',
                    valstack_size := valstack_size thr'\<rparr>"
    by blast+
  have b: "valstack_bottom thr' = 1" using p(1) by (simp add: thr_caller_def)
  have s: "valstack_size thr' = 6" using p(3) by (simp add: thr_caller_def fun_regs3_def ext0_def)
  have v: "valstack thr' = [TV_Null, TV_Boolean True, TV_Boolean False, TV_Undefined]"
    using p(4) by (simp add: thr_caller_def fun_regs3_def)
  from p(5) have e: "thr' = thr_caller\<lparr>valstack_bottom := 1,
                valstack := [TV_Null, TV_Boolean True, TV_Boolean False, TV_Undefined],
                valstack_size := 6\<rparr>"
    by (simp only: b s v)
  from a f ib r p(2) e show ?thesis by simp
qed

section \<open>The type of an unresolvable identifier\<close>

text \<open>
  Claim C9. Let the name operand of \<open>TYPEOFID\<close> be an identifier that the walk of the
  activation's environment chain does not resolve, in a register window with a spare
  slot above it, \<open>b\<close> a register of the window. Then \<open>TYPEOFID\<close> does not throw:
  it returns the thread with the string \<open>undefined\<close> in register \<open>b\<close> and every
  other slot, the top and the bottom of the value stack as they were. It is the
  cleared throw flag that makes the difference: the lookup which \<open>TYPEOFID\<close> makes
  returns false and leaves the stack alone, while the same lookup with the flag set,
  as \<open>GETVAR\<close> makes it, throws a reference error.
\<close>

theorem typeofid_unresolvable_writes_undefined:
  assumes "DUK__REGCONSTP X thr fun c = Inr (TV_String name)"
    and "env_chain_lookup X thr act name = Inr None"
    and "valstack_bottom thr + b < length (valstack thr)"
    and "length (valstack thr) < valstack_size thr"
  shows "op_TYPEOFID X thr act fun b c =
           Inr (thr\<lparr>valstack := (valstack thr)[valstack_bottom thr + b := TV_String ''undefined'']\<rparr>)
         \<and> duk_js_getvar_activation X thr act name False = Inr (False, thr)
         \<and> duk_js_getvar_activation X thr act name True = Inl ReferenceError
         \<and> (DUK__CONSTP fun bc = Inr (TV_String name) \<longrightarrow>
               op_GETVAR X thr act fun a bc = Inl ReferenceError)"
  using assms
  by (simp add: op_TYPEOFID_def op_GETVAR_def duk_js_getvar_activation_def push1 replace_reg
        DUK_STRIDX_LC_UNDEFINED_def)

theorem typeofid_unresolvable_witness:
  "DUK__REGCONSTP ext0 thr_try fun_regs3 256 = Inr (TV_String ''x'')
   \<and> env_chain_lookup ext0 thr_try frame_main ''x'' = Inr None
   \<and> valstack_bottom thr_try + 1 < length (valstack thr_try)
   \<and> length (valstack thr_try) < valstack_size thr_try
   \<and> DUK__CONSTP fun_regs3 0 = Inr (TV_String ''x'')
   \<and> op_TYPEOFID ext0 thr_try frame_main fun_regs3 1 256 =
        Inr (thr_try\<lparr>valstack := [TV_Object 7, TV_String ''undefined'', TV_Undefined]\<rparr>)
   \<and> op_GETVAR ext0 thr_try frame_main fun_regs3 1 0 = Inl ReferenceError"
proof -
  have 1: "DUK__REGCONSTP ext0 thr_try fun_regs3 256 = Inr (TV_String ''x'')"
    by (simp add: DUK__REGCONSTP_def ext0_def fun_regs3_def)
  have 2: "env_chain_lookup ext0 thr_try frame_main ''x'' = Inr None"
    by (simp add: ext0_def)
  have 3: "valstack_bottom thr_try + 1 < length (valstack thr_try)"
    by (simp add: thr_try_def)
  have 4: "length (valstack thr_try) < valstack_size thr_try"
    by (simp add: thr_try_def)
  have 5: "(valstack thr_try)[valstack_bottom thr_try + 1 := v] = [TV_Object 7, v, TV_Undefined]" for v
    by (simp add: thr_try_def)
  have 6: "DUK__CONSTP fun_regs3 0 = Inr (TV_String ''x'')"
    by (simp add: DUK__CONSTP_def fun_regs3_def)
  from typeofid_unresolvable_writes_undefined [OF 1 2 3 4, where a = 1 and bc = 0, unfolded 5]
    1 2 3 4 6
  show ?thesis by simp
qed

section \<open>What the throw opcode delivers\<close>

text \<open>
  Claim C5, in the form that holds. \<open>THROW\<close> on register \<open>b\<close> (a register of the
  window, with a spare slot above the top) pushes a copy of the register's value.
  With throw-time augmentation compiled out it leaves through a longjmp of type throw
  whose \<open>value1\<close> is the value of register \<open>b\<close> itself, the thread's stacks as they
  were. With augmentation compiled in, the copy is passed to the hook on the stack
  top, and the longjmp carries whatever value the hook leaves on the stack top, in
  the thread as the hook leaves it below that value: the register's value itself
  when the hook returns the thread as it received it, another value when the hook
  replaces it. An error thrown by the hook is the opcode's error.
\<close>

theorem throw_opcode_delivers_what_the_hook_leaves:
  assumes thr: "thr < length (threads h)"
    and T: "T = threads h ! thr"
    and reg: "valstack_bottom T + b < length (valstack T)"
    and room: "length (valstack T) < valstack_size T"
    and T1: "T1 = T\<lparr>valstack := valstack T @ [valstack T ! (valstack_bottom T + b)]\<rparr>"
  shows
    "(\<not> DUK_USE_AUGMENT_ERROR_THROW X \<longrightarrow>
        op_THROW X h thr b =
          Inr (Op_longjmp (h\<lparr>lj := (lj h)\<lparr>lj_type := DUK_LJ_TYPE_THROW,
                 value1 := valstack T ! (valstack_bottom T + b)\<rparr>\<rparr>)))
     \<and> (DUK_USE_AUGMENT_ERROR_THROW X \<and> duk_err_augment_error_throw X T1 = Inr T2
          \<and> valstack_bottom T2 < length (valstack T2) \<longrightarrow>
        op_THROW X h thr b =
          Inr (Op_longjmp ((put_thread h thr (T2\<lparr>valstack := butlast (valstack T2)\<rparr>))
                 \<lparr>lj := (lj h)\<lparr>lj_type := DUK_LJ_TYPE_THROW, value1 := last (valstack T2)\<rparr>\<rparr>)))
     \<and> (DUK_USE_AUGMENT_ERROR_THROW X \<and> duk_err_augment_error_throw X T1 = Inr T1 \<longrightarrow>
        op_THROW X h thr b =
          Inr (Op_longjmp (h\<lparr>lj := (lj h)\<lparr>lj_type := DUK_LJ_TYPE_THROW,
                 value1 := valstack T ! (valstack_bottom T + b)\<rparr>\<rparr>)))
     \<and> (DUK_USE_AUGMENT_ERROR_THROW X \<and> duk_err_augment_error_throw X T1 = Inl e \<longrightarrow>
        op_THROW X h thr b = Inl e)"
proof -
  have bt: "valstack_bottom T \<le> length (valstack T)" using reg by simp
  have g: "get_thread h thr = Inr T" using thr by (simp add: T)
  have d: "duk_dup T (int b) = Inr T1"
    unfolding T1 using reg room by (rule dup_reg)
  have same: "duk_err_setup_heap_ljstate (put_thread h thr T1) thr DUK_LJ_TYPE_THROW
      = Inr (h\<lparr>lj := (lj h)\<lparr>lj_type := DUK_LJ_TYPE_THROW,
                 value1 := valstack T ! (valstack_bottom T + b)\<rparr>\<rparr>)"
    unfolding T1 by (simp add: setup_ljstate_pushed [OF thr bt] put_thread_same [OF T])
  have p1: "op_THROW X h thr b =
          Inr (Op_longjmp (h\<lparr>lj := (lj h)\<lparr>lj_type := DUK_LJ_TYPE_THROW,
                 value1 := valstack T ! (valstack_bottom T + b)\<rparr>\<rparr>))"
    if "\<not> DUK_USE_AUGMENT_ERROR_THROW X"
    unfolding op_THROW_def using that by (simp add: g d same)
  have p2: "op_THROW X h thr b =
          Inr (Op_longjmp ((put_thread h thr (T2\<lparr>valstack := butlast (valstack T2)\<rparr>))
                 \<lparr>lj := (lj h)\<lparr>lj_type := DUK_LJ_TYPE_THROW, value1 := last (valstack T2)\<rparr>\<rparr>))"
    if "DUK_USE_AUGMENT_ERROR_THROW X" "duk_err_augment_error_throw X T1 = Inr T2"
      "valstack_bottom T2 < length (valstack T2)"
    unfolding op_THROW_def using that(1,2)
    by (simp add: g d setup_ljstate_top [OF thr that(3)])
  have p3: "op_THROW X h thr b =
          Inr (Op_longjmp (h\<lparr>lj := (lj h)\<lparr>lj_type := DUK_LJ_TYPE_THROW,
                 value1 := valstack T ! (valstack_bottom T + b)\<rparr>\<rparr>))"
    if "DUK_USE_AUGMENT_ERROR_THROW X" "duk_err_augment_error_throw X T1 = Inr T1"
    unfolding op_THROW_def using that by (simp add: g d same)
  have p4: "op_THROW X h thr b = Inl e"
    if "DUK_USE_AUGMENT_ERROR_THROW X" "duk_err_augment_error_throw X T1 = Inl e"
    unfolding op_THROW_def using that by (simp add: g d)
  from p1 p2 p3 p4 show ?thesis by blast
qed

theorem throw_opcode_witness:
  "op_THROW ext0 (heap_try lj_idle) 0 0 =
        Inr (Op_longjmp (heap_try (lj_idle\<lparr>lj_type := DUK_LJ_TYPE_THROW, value1 := TV_Object 7\<rparr>)))
   \<and> op_THROW ext_errthrow (heap_try lj_idle) 0 0 =
        Inr (Op_longjmp (heap_try (lj_idle\<lparr>lj_type := DUK_LJ_TYPE_THROW, value1 := TV_Object 99\<rparr>)))"
proof -
  define h where "h = heap_try lj_idle"
  define T2 where "T2 = thr_try\<lparr>valstack := [TV_Object 7, TV_Undefined, TV_Undefined, TV_Object 99]\<rparr>"
  have 1: "0 < length (threads h)" by (simp add: h_def heap_try_def)
  have 2: "thr_try = threads h ! 0" by (simp add: h_def heap_try_def)
  have 3: "valstack_bottom thr_try + 0 < length (valstack thr_try)" by (simp add: thr_try_def)
  have 4: "length (valstack thr_try) < valstack_size thr_try" by (simp add: thr_try_def)
  note c = throw_opcode_delivers_what_the_hook_leaves [OF 1 2 3 4 refl]
  have off: "\<not> DUK_USE_AUGMENT_ERROR_THROW ext0" by (simp add: ext0_def)
  have on: "DUK_USE_AUGMENT_ERROR_THROW ext_errthrow
       \<and> duk_err_augment_error_throw ext_errthrow
            (thr_try\<lparr>valstack := valstack thr_try @ [valstack thr_try ! (valstack_bottom thr_try + 0)]\<rparr>)
           = Inr T2
       \<and> valstack_bottom T2 < length (valstack T2)"
    by (simp add: ext_errthrow_def T2_def thr_try_def)
  have a: "op_THROW ext0 h 0 0 =
        Inr (Op_longjmp (heap_try (lj_idle\<lparr>lj_type := DUK_LJ_TYPE_THROW, value1 := TV_Object 7\<rparr>)))"
    unfolding c [where X = ext0, THEN conjunct1, THEN mp, OF off]
    by (simp add: h_def heap_try_def thr_try_def)
  have b: "op_THROW ext_errthrow h 0 0 =
        Inr (Op_longjmp (heap_try (lj_idle\<lparr>lj_type := DUK_LJ_TYPE_THROW, value1 := TV_Object 99\<rparr>)))"
    unfolding c [where X = ext_errthrow and ?T2.0 = T2, THEN conjunct2, THEN conjunct1, THEN mp, OF on]
    by (simp add: h_def heap_try_def thr_try_def T2_def put_thread_def)
  from a b show ?thesis unfolding h_def by simp
qed

text \<open>
  With throw-time augmentation compiled in and a hook that answers with another
  object, the longjmp carries that object, not the one in the source register.
\<close>

theorem throw_opcode_hook_replaces_value:
  "op_THROW ext_errthrow (heap_try lj_idle) 0 0 =
     Inr (Op_longjmp (heap_try (lj_idle\<lparr>lj_type := DUK_LJ_TYPE_THROW, value1 := TV_Object 99\<rparr>)))
   \<and> valstack (threads (heap_try lj_idle) ! 0) ! (valstack_bottom (threads (heap_try lj_idle) ! 0) + 0)
       = TV_Object 7"
  by (simp add: op_THROW_def heap_try_def thr_try_def ext_errthrow_def ext0_def get_thread_def
        duk_dup_def duk_normalize_index_def duk_get_top_def duk_require_tval_def duk_push_tval_def
        duk_err_setup_heap_ljstate_def put_thread_def duk_pop_n_def lj_idle_def Let_def)

section \<open>Interception by a finally part, and the end of the finally part\<close>

text \<open>
  Claim C1. Let a longjmp of type return, break, continue or throw reach the handler, and
  let the walk of its case end at catcher \<open>i\<close> taken as a finally part (for return,
  break and continue that is a finally-enabled try-catch-finally catcher), a catcher of
  the current (topmost) frame whose two registers are registers of that frame's
  compiled function. Then the handler returns the restart result with the longjmp
  state wiped, and in the thread: slot \<open>idx_base\<close> holds \<open>value1\<close>, slot
  \<open>idx_base + 1\<close> the longjmp type as a number, the catcher is the top catcher with
  its finally-enabled flag cleared, the frame's pc is \<open>pc_base + 1\<close>, the value stack
  is reconfigured to the frame's registers, and nothing else has changed. \<open>ENDFIN\<close>
  executed on that state leaves through a longjmp of the recorded type carrying the
  saved value. In general \<open>ENDFIN\<close> reads slot \<open>idx_base + 1\<close> of the top catcher as
  an unsigned number: if it is the normal type, the top catcher is unwound and
  execution falls through; otherwise the value in slot \<open>idx_base\<close> is thrown again
  as a longjmp of that type.
\<close>

theorem finally_interception_and_endfin:
  assumes thr: "thr < length (threads h)"
    and T: "T = threads h ! thr"
    and taken:
      "(lj_type (lj h) = DUK_LJ_TYPE_RETURN
          \<and> duk__return_walk (catchstack T) (size_minus_1 (length (callstack T)))
               (length (catchstack T)) = Inl i)
       \<or> ((lj_type (lj h) = DUK_LJ_TYPE_BREAK \<or> lj_type (lj h) = DUK_LJ_TYPE_CONTINUE)
          \<and> (\<exists>d l. value1 (lj h) = TV_Number d \<and> double_to_uint d = Some l
               \<and> duk__label_walk (catchstack T) (callstack_index (last (catchstack T))) l
                    (length (catchstack T)) = Walk_finally i))
       \<or> (lj_type (lj h) = DUK_LJ_TYPE_THROW
          \<and> duk__throw_walk (catchstack T) (thr = entry_thread) (size_minus_1 entry_callstack_top)
               (length (catchstack T)) = Some (i, True))"
    and cat: "cat = catchstack T ! i"
    and cur: "callstack T \<noteq> []" "callstack_index cat = length (callstack T) - 1"
    and act: "act = last (callstack T)"
    and f: "func act = Some (COMPILEDFUNCTION hf)"
    and regs: "idx_bottom act \<le> idx_base cat" "idx_base cat + 1 < idx_bottom act + nregs hf"
    and live: "idx_base cat + 1 < length (valstack T)"
    and room: "idx_bottom act + nregs hf < valstack_size T"
  shows
    "(\<exists>T1. duk__handle_longjmp X h thr entry_thread entry_callstack_top
             = Inr (DUK__LONGJMP_RESTART, duk__wipe_lj (put_thread h thr T1))
        \<and> valstack T1 ! idx_base cat = value1 (lj h)
        \<and> valstack T1 ! (idx_base cat + 1) = TV_Number (uint_to_double (lj_type (lj h)))
        \<and> catchstack T1 = take i (catchstack T) @ [cat\<lparr>finally_enabled := False\<rparr>]
        \<and> callstack T1 = butlast (callstack T) @ [act\<lparr>pc := pc_base cat + 1\<rparr>]
        \<and> valstack_bottom T1 = idx_bottom act
        \<and> valstack T1 =
            take (idx_bottom act + nregs hf)
              ((valstack T)[idx_base cat := value1 (lj h),
                            idx_base cat + 1 := TV_Number (uint_to_double (lj_type (lj h)))])
            @ replicate (idx_bottom act + nregs hf - length (valstack T)) TV_Undefined
        \<and> T1 = T\<lparr>valstack := valstack T1, valstack_bottom := valstack_bottom T1,
                   callstack := callstack T1, catchstack := catchstack T1\<rparr>
        \<and> op_ENDFIN (duk__wipe_lj (put_thread h thr T1)) thr
            = Inr (Op_longjmp ((put_thread h thr T1)\<lparr>lj :=
                     \<lparr>lj_type = lj_type (lj h), iserror = False,
                      value1 = value1 (lj h), value2 = TV_Unused\<rparr>\<rparr>)))
     \<and> (t < length (threads g) \<and> catchstack (threads g ! t) \<noteq> []
        \<and> idx_base (last (catchstack (threads g ! t))) + 1 < length (valstack (threads g ! t))
        \<and> valstack (threads g ! t) ! (idx_base (last (catchstack (threads g ! t))) + 1) = TV_Number d
        \<and> double_to_uint d = Some n
        \<longrightarrow> (n = DUK_LJ_TYPE_NORMAL \<longrightarrow>
               op_ENDFIN g t = Inr (Op_next (put_thread g t
                 ((threads g ! t)\<lparr>catchstack := butlast (catchstack (threads g ! t))\<rparr>))))
          \<and> (n \<noteq> DUK_LJ_TYPE_NORMAL
               \<and> valstack_bottom (threads g ! t) \<le> length (valstack (threads g ! t))
               \<and> length (valstack (threads g ! t)) < valstack_size (threads g ! t) \<longrightarrow>
               op_ENDFIN g t = Inr (Op_longjmp (g\<lparr>lj := (lj g)\<lparr>lj_type := n,
                 value1 := valstack (threads g ! t) ! idx_base (last (catchstack (threads g ! t)))\<rparr>\<rparr>))))"
proof -
  define B where "B = idx_bottom act"
  define N where "N = nregs hf"
  define k where "k = length (callstack T) - 1"
  define num where "num = TV_Number (uint_to_double (lj_type (lj h)))"
  define vs' where "vs' = (valstack T)[idx_base cat := value1 (lj h), idx_base cat + 1 := num]"
  define vs1 where "vs1 = take (B + N) vs' @ replicate (B + N - length (valstack T)) TV_Undefined"
  define cat1 where "cat1 = cat\<lparr>finally_enabled := False\<rparr>"
  define T1 where "T1 = T\<lparr>valstack := vs1, valstack_bottom := B,
      callstack := butlast (callstack T) @ [act\<lparr>pc := pc_base cat + 1\<rparr>],
      catchstack := take i (catchstack T) @ [cat1]\<rparr>"
  define h1 where "h1 = duk__wipe_lj (put_thread h thr T1)"
  from switch_finally [OF thr taken [unfolded T]] have
    sw: "duk__handle_longjmp_switch X h thr entry_thread entry_callstack_top =
           bindE (duk__handle_catch_or_finally X (lj h) T i True) (\<lambda>T'.
             Inr (Wipe_and_return DUK__LONGJMP_RESTART (put_thread h thr T')))"
    and i: "i < length (catchstack T)"
    unfolding T [symmetric] by simp_all
  have kk: "k < length (callstack T)" "callstack_index (catchstack T ! i) = k"
    "callstack T ! k = act"
    using cur act by (simp_all add: k_def cat last_conv_nth)
  have hcf: "duk__handle_catch_or_finally X (lj h) T i True = Inr T1"
  proof -
    have 1: "callstack_index (catchstack T ! i) < length (callstack T)" using kk by simp
    have 2: "func (callstack T ! callstack_index (catchstack T ! i)) = Some (COMPILEDFUNCTION hf)"
      using kk f by simp
    have 3: "idx_base (catchstack T ! i) + 1 < length (valstack T)" using live cat by simp
    have 4: "idx_bottom (callstack T ! callstack_index (catchstack T ! i)) \<le> length (valstack T)"
      using kk regs live by (simp add: cat)
    have 5: "idx_bottom (callstack T ! callstack_index (catchstack T ! i)) + nregs hf \<le> valstack_size T"
      using kk room by simp
    have c: "(take (k + 1) (callstack T))[k := act\<lparr>pc := pc_base cat + 1\<rparr>]
               = butlast (callstack T) @ [act\<lparr>pc := pc_base cat + 1\<rparr>]"
      using cur(1) update_last [OF cur(1)] by (simp add: k_def)
    have kc: "callstack_index cat = k" using kk(2) by (simp add: cat)
    note r = hcf_finally [OF i 1 2 3 4 5, folded cat]
    show ?thesis
      unfolding r kc kk(3) c take_Suc_update [OF i]
      by (simp add: T1_def vs1_def vs'_def num_def B_def N_def cat1_def)
  qed
  have hl: "duk__handle_longjmp X h thr entry_thread entry_callstack_top = Inr (DUK__LONGJMP_RESTART, h1)"
    unfolding h1_def by (rule handle_longjmp_wipe) (simp add: sw hcf)
  have lv: "length vs' = length (valstack T)" by (simp add: vs'_def)
  have l1: "length vs1 = B + N" by (simp add: vs1_def lv)
  have in1: "idx_base cat < B + N" "idx_base cat + 1 < B + N" "idx_base cat < length (valstack T)"
    using regs live by (simp_all add: B_def N_def)
  have s0: "vs1 ! idx_base cat = value1 (lj h)"
    using in1 live by (simp add: vs1_def nth_append lv) (simp add: vs'_def)
  have s1: "vs1 ! (idx_base cat + 1) = num"
    using in1 live by (simp add: vs1_def nth_append lv del: One_nat_def) (simp add: vs'_def)
  have th1: "threads h1 ! thr = T1" "thr < length (threads h1)" "lj h1 = \<lparr>lj_type = DUK_LJ_TYPE_UNKNOWN,
       iserror = False, value1 = TV_Unused, value2 = TV_Unused\<rparr>"
    using thr by (simp_all add: h1_def duk__wipe_lj_def threads_put_same)
  have ty: "lj_type (lj h) < 2 ^ 32 \<and> lj_type (lj h) \<noteq> DUK_LJ_TYPE_NORMAL"
    using taken by (intro lj_type_small) blast
  have ef: "op_ENDFIN h1 thr = Inr (Op_longjmp (h1\<lparr>lj := (lj h1)\<lparr>lj_type := lj_type (lj h),
           value1 := valstack (threads h1 ! thr) ! idx_base (last (catchstack (threads h1 ! thr)))\<rparr>\<rparr>))"
  proof (rule endfin_rethrow [where d = "uint_to_double (lj_type (lj h))"])
    show "thr < length (threads h1)" by (rule th1)
    show "catchstack (threads h1 ! thr) \<noteq> []" by (simp add: th1 T1_def)
    show "idx_base (last (catchstack (threads h1 ! thr))) + 1 < length (valstack (threads h1 ! thr))"
      using in1 by (simp add: th1 T1_def cat1_def l1)
    show "valstack (threads h1 ! thr) ! (idx_base (last (catchstack (threads h1 ! thr))) + 1)
            = TV_Number (uint_to_double (lj_type (lj h)))"
      using s1 by (simp add: th1 T1_def cat1_def num_def)
    show "double_to_uint (uint_to_double (lj_type (lj h))) = Some (lj_type (lj h))"
      using ty by (simp add: double_to_uint_uint)
    show "lj_type (lj h) \<noteq> DUK_LJ_TYPE_NORMAL" using ty by simp
    show "length (valstack (threads h1 ! thr)) < valstack_size (threads h1 ! thr)"
      using room by (simp add: th1 T1_def l1 B_def N_def)
    show "valstack_bottom (threads h1 ! thr) \<le> length (valstack (threads h1 ! thr))"
      by (simp add: th1 T1_def l1)
  qed
  have ef': "op_ENDFIN h1 thr = Inr (Op_longjmp ((put_thread h thr T1)\<lparr>lj :=
                     \<lparr>lj_type = lj_type (lj h), iserror = False,
                      value1 = value1 (lj h), value2 = TV_Unused\<rparr>\<rparr>))"
    unfolding ef th1 using s0
    by (simp add: T1_def cat1_def h1_def duk__wipe_lj_def)
  have part1: "duk__handle_longjmp X h thr entry_thread entry_callstack_top
             = Inr (DUK__LONGJMP_RESTART, duk__wipe_lj (put_thread h thr T1))
        \<and> valstack T1 ! idx_base cat = value1 (lj h)
        \<and> valstack T1 ! (idx_base cat + 1) = TV_Number (uint_to_double (lj_type (lj h)))
        \<and> catchstack T1 = take i (catchstack T) @ [cat\<lparr>finally_enabled := False\<rparr>]
        \<and> callstack T1 = butlast (callstack T) @ [act\<lparr>pc := pc_base cat + 1\<rparr>]
        \<and> valstack_bottom T1 = idx_bottom act
        \<and> valstack T1 =
            take (idx_bottom act + nregs hf)
              ((valstack T)[idx_base cat := value1 (lj h),
                            idx_base cat + 1 := TV_Number (uint_to_double (lj_type (lj h)))])
            @ replicate (idx_bottom act + nregs hf - length (valstack T)) TV_Undefined
        \<and> T1 = T\<lparr>valstack := valstack T1, valstack_bottom := valstack_bottom T1,
                   callstack := callstack T1, catchstack := catchstack T1\<rparr>
        \<and> op_ENDFIN (duk__wipe_lj (put_thread h thr T1)) thr
            = Inr (Op_longjmp ((put_thread h thr T1)\<lparr>lj :=
                     \<lparr>lj_type = lj_type (lj h), iserror = False,
                      value1 = value1 (lj h), value2 = TV_Unused\<rparr>\<rparr>))"
    using hl ef' s0 s1
    by (simp add: h1_def [symmetric] del: One_nat_def)
       (simp add: T1_def cat1_def num_def vs1_def vs'_def B_def N_def)
  have part2: "t < length (threads g) \<and> catchstack (threads g ! t) \<noteq> []
        \<and> idx_base (last (catchstack (threads g ! t))) + 1 < length (valstack (threads g ! t))
        \<and> valstack (threads g ! t) ! (idx_base (last (catchstack (threads g ! t))) + 1) = TV_Number d
        \<and> double_to_uint d = Some n
        \<longrightarrow> (n = DUK_LJ_TYPE_NORMAL \<longrightarrow>
               op_ENDFIN g t = Inr (Op_next (put_thread g t
                 ((threads g ! t)\<lparr>catchstack := butlast (catchstack (threads g ! t))\<rparr>))))
          \<and> (n \<noteq> DUK_LJ_TYPE_NORMAL
               \<and> valstack_bottom (threads g ! t) \<le> length (valstack (threads g ! t))
               \<and> length (valstack (threads g ! t)) < valstack_size (threads g ! t) \<longrightarrow>
               op_ENDFIN g t = Inr (Op_longjmp (g\<lparr>lj := (lj g)\<lparr>lj_type := n,
                 value1 := valstack (threads g ! t) ! idx_base (last (catchstack (threads g ! t)))\<rparr>\<rparr>)))"
    using endfin_normal [of t g d] endfin_rethrow [of t g d n] by blast
  from part1 part2 show ?thesis by blast
qed

theorem finally_interception_witness:
  "duk__return_walk (catchstack thr_try) (size_minus_1 (length (callstack thr_try)))
      (length (catchstack thr_try)) = Inl 0
   \<and> lj_type (lj (heap_try lj_return)) = DUK_LJ_TYPE_RETURN
   \<and> duk__handle_longjmp ext0 (heap_try lj_return) 0 0 1
       = Inr (DUK__LONGJMP_RESTART, heap_in_finally lj_idle DUK_LJ_TYPE_RETURN)
   \<and> op_ENDFIN (heap_in_finally lj_idle DUK_LJ_TYPE_RETURN) 0
       = Inr (Op_longjmp (heap_in_finally lj_return DUK_LJ_TYPE_RETURN))
   \<and> op_ENDFIN (heap_in_finally lj_idle DUK_LJ_TYPE_NORMAL) 0
       = Inr (Op_next (put_thread (heap_in_finally lj_idle DUK_LJ_TYPE_NORMAL) 0
                ((threads (heap_in_finally lj_idle DUK_LJ_TYPE_NORMAL) ! 0)\<lparr>catchstack := []\<rparr>)))"
proof -
  define h where "h = heap_try lj_return"
  define g where "g = heap_in_finally lj_idle DUK_LJ_TYPE_NORMAL"
  have thr: "0 < length (threads h)" by (simp add: h_def heap_try_def)
  have T: "thr_try = threads h ! 0" by (simp add: h_def heap_try_def)
  have w: "duk__return_walk (catchstack thr_try) (size_minus_1 (length (callstack thr_try)))
      (length (catchstack thr_try)) = Inl 0"
    by (simp add: thr_try_def cat_finally_def size_minus_1_def)
  have ty: "lj_type (lj h) = DUK_LJ_TYPE_RETURN" by (simp add: h_def heap_try_def lj_return_def)
  have cat: "cat_finally = catchstack thr_try ! 0" by (simp add: thr_try_def)
  have cur: "callstack thr_try \<noteq> []" "callstack_index cat_finally = length (callstack thr_try) - 1"
    by (simp_all add: thr_try_def cat_finally_def)
  have act: "frame_main = last (callstack thr_try)" by (simp add: thr_try_def)
  have f: "func frame_main = Some (COMPILEDFUNCTION fun_regs3)" by (simp add: frame_main_def)
  have regs: "idx_bottom frame_main \<le> idx_base cat_finally"
    "idx_base cat_finally + 1 < idx_bottom frame_main + nregs fun_regs3"
    by (simp_all add: frame_main_def cat_finally_def fun_regs3_def)
  have live: "idx_base cat_finally + 1 < length (valstack thr_try)"
    by (simp add: cat_finally_def thr_try_def)
  have room: "idx_bottom frame_main + nregs fun_regs3 < valstack_size thr_try"
    by (simp add: frame_main_def fun_regs3_def thr_try_def)
  have gt: "0 < length (threads g) \<and> catchstack (threads g ! 0) \<noteq> []
        \<and> idx_base (last (catchstack (threads g ! 0))) + 1 < length (valstack (threads g ! 0))
        \<and> valstack (threads g ! 0) ! (idx_base (last (catchstack (threads g ! 0))) + 1)
             = TV_Number (uint_to_double DUK_LJ_TYPE_NORMAL)
        \<and> double_to_uint (uint_to_double DUK_LJ_TYPE_NORMAL) = Some DUK_LJ_TYPE_NORMAL"
  proof -
    have "DUK_LJ_TYPE_NORMAL < 2 ^ 32" by (simp add: DUK_LJ_TYPE_NORMAL_def)
    from double_to_uint_uint [OF this] show ?thesis
      by (simp add: g_def heap_in_finally_def cat_finally_def)
  qed
  note inst = finally_interception_and_endfin [where thr = 0 and h = h and T = thr_try and i = 0
      and entry_thread = 0 and entry_callstack_top = 1 and cat = cat_finally and act = frame_main
      and hf = fun_regs3 and t = 0 and g = g and d = "uint_to_double DUK_LJ_TYPE_NORMAL"
      and n = DUK_LJ_TYPE_NORMAL and X = ext0, OF thr T _ cat cur act f regs live room]
  have "(lj_type (lj h) = DUK_LJ_TYPE_RETURN
          \<and> duk__return_walk (catchstack thr_try) (size_minus_1 (length (callstack thr_try)))
               (length (catchstack thr_try)) = Inl 0)
       \<or> ((lj_type (lj h) = DUK_LJ_TYPE_BREAK \<or> lj_type (lj h) = DUK_LJ_TYPE_CONTINUE)
          \<and> (\<exists>d l. value1 (lj h) = TV_Number d \<and> double_to_uint d = Some l
               \<and> duk__label_walk (catchstack thr_try) (callstack_index (last (catchstack thr_try))) l
                    (length (catchstack thr_try)) = Walk_finally 0))
       \<or> (lj_type (lj h) = DUK_LJ_TYPE_THROW
          \<and> duk__throw_walk (catchstack thr_try) ((0::nat) = 0) (size_minus_1 1)
               (length (catchstack thr_try)) = Some (0, True))"
    using w ty by simp
  from inst [OF this] gt
  obtain T1 where
    r: "duk__handle_longjmp ext0 h 0 0 1 = Inr (DUK__LONGJMP_RESTART, duk__wipe_lj (put_thread h 0 T1))"
    and cs: "catchstack T1 = take 0 (catchstack thr_try) @ [cat_finally\<lparr>finally_enabled := False\<rparr>]"
    and cl: "callstack T1 = butlast (callstack thr_try) @ [frame_main\<lparr>pc := pc_base cat_finally + 1\<rparr>]"
    and vb: "valstack_bottom T1 = idx_bottom frame_main"
    and vs: "valstack T1 =
            take (idx_bottom frame_main + nregs fun_regs3)
              ((valstack thr_try)[idx_base cat_finally := value1 (lj h),
                            idx_base cat_finally + 1 := TV_Number (uint_to_double (lj_type (lj h)))])
            @ replicate (idx_bottom frame_main + nregs fun_regs3 - length (valstack thr_try)) TV_Undefined"
    and fr: "T1 = thr_try\<lparr>valstack := valstack T1, valstack_bottom := valstack_bottom T1,
                   callstack := callstack T1, catchstack := catchstack T1\<rparr>"
    and e1: "op_ENDFIN (duk__wipe_lj (put_thread h 0 T1)) 0
            = Inr (Op_longjmp ((put_thread h 0 T1)\<lparr>lj :=
                     \<lparr>lj_type = lj_type (lj h), iserror = False,
                      value1 = value1 (lj h), value2 = TV_Unused\<rparr>\<rparr>))"
    and e2: "op_ENDFIN g 0 = Inr (Op_next (put_thread g 0
                 ((threads g ! 0)\<lparr>catchstack := butlast (catchstack (threads g ! 0))\<rparr>)))"
    by blast
  have cs': "catchstack T1 = [cat_finally\<lparr>finally_enabled := False\<rparr>]" using cs by simp
  have cl': "callstack T1 = [frame_main\<lparr>pc := 21\<rparr>]"
    using cl by (simp add: thr_try_def cat_finally_def)
  have vb': "valstack_bottom T1 = 0" using vb by (simp add: frame_main_def)
  have vs': "valstack T1 = [TV_Object 7, TV_Boolean True, TV_Number (uint_to_double DUK_LJ_TYPE_RETURN)]"
    unfolding vs ty
    by (simp add: frame_main_def fun_regs3_def thr_try_def cat_finally_def h_def heap_try_def lj_return_def)
  have T1: "T1 = thr_try\<lparr>valstack := [TV_Object 7, TV_Boolean True, TV_Number (uint_to_double DUK_LJ_TYPE_RETURN)],
                          callstack := [frame_main\<lparr>pc := 21\<rparr>],
                          catchstack := [cat_finally\<lparr>finally_enabled := False\<rparr>]\<rparr>"
    using fr unfolding cs' cl' vb' vs' by (simp add: thr_try_def)
  have h1: "duk__wipe_lj (put_thread h 0 T1) = heap_in_finally lj_idle DUK_LJ_TYPE_RETURN"
    unfolding T1 by (simp add: duk__wipe_lj_def put_thread_def h_def heap_try_def heap_in_finally_def lj_idle_def)
  have h2: "(put_thread h 0 T1)\<lparr>lj :=
                     \<lparr>lj_type = lj_type (lj h), iserror = False,
                      value1 = value1 (lj h), value2 = TV_Unused\<rparr>\<rparr>
            = heap_in_finally lj_return DUK_LJ_TYPE_RETURN"
    unfolding T1 by (simp add: put_thread_def h_def heap_try_def heap_in_finally_def lj_return_def)
  have g2: "butlast (catchstack (threads g ! 0)) = []" by (simp add: g_def heap_in_finally_def)
  from w ty r e1 e2 show ?thesis
    unfolding h1 h2 g2 by (simp add: h_def g_def)
qed

section \<open>The outcomes of a return\<close>

text \<open>
  Claim C2. Let a longjmp of type return reach the handler on thread \<open>thr\<close>. The
  catchers at the top of the catch stack whose frame index is that of the returning
  (topmost) frame form a run; either one of them is a finally-enabled
  try-catch-finally catcher, or the run ends at an index \<open>k\<close> without one.
  (1) If catcher \<open>i\<close> is the topmost finally-enabled try-catch-finally catcher of that
  run, whatever other catchers of the frame lie above it, the handler is
  \<open>duk__handle_catch_or_finally\<close> on catcher \<open>i\<close> as a finally part, followed by
  restart. (2) Else, if the thread is the entry thread and its call stack depth is the
  entry depth, the return value is pushed and the result is finished. (3) Else, if the
  call stack has at least two entries and the caller runs a compiled function, the
  value is written at the caller's \<open>idx_retval\<close>, the catch stack is unwound to \<open>k\<close>,
  the call stack by one, the value stack is reconfigured for the caller, and the
  result is restart. (4) Else the thread is terminated and its resumer reference
  cleared, the value is delivered at \<open>idx_retval\<close> of the resumer's activation below
  its \<open>resume\<close> call, which is unwound, the resumer becomes the running current
  thread, and the result is restart. In every case the longjmp state is wiped.
\<close>

theorem return_outcomes_in_order:
  assumes thr: "thr < length (threads h)"
    and T: "T = threads h ! thr"
    and ty: "lj_type (lj h) = DUK_LJ_TYPE_RETURN"
    and cs: "cs = catchstack T"
    and orig: "orig = size_minus_1 (length (callstack T))"
    and fin: "finally_found =
                (i < length cs \<and> callstack_index (cs ! i) = orig
                 \<and> cat_type (cs ! i) = DUK_CAT_TYPE_TCF \<and> finally_enabled (cs ! i)
                 \<and> (\<forall>j. i < j \<and> j < length cs \<longrightarrow>
                        callstack_index (cs ! j) = orig
                        \<and> \<not> (cat_type (cs ! j) = DUK_CAT_TYPE_TCF \<and> finally_enabled (cs ! j))))"
    and nofin: "no_finally =
                (k \<le> length cs
                 \<and> (\<forall>m. k \<le> m \<and> m < length cs \<longrightarrow>
                        callstack_index (cs ! m) = orig
                        \<and> \<not> (cat_type (cs ! m) = DUK_CAT_TYPE_TCF \<and> finally_enabled (cs ! m)))
                 \<and> (k = 0 \<or> callstack_index (cs ! (k - 1)) \<noteq> orig))"
    and caller: "caller = callstack T ! (length (callstack T) - 2)"
    and R: "R = threads h ! r"
    and site: "site = callstack R ! (length (callstack R) - 2)"
  shows
    "((\<exists>i'. i' < length cs \<and> callstack_index (cs ! i') = orig
              \<and> cat_type (cs ! i') = DUK_CAT_TYPE_TCF \<and> finally_enabled (cs ! i')
              \<and> (\<forall>j. i' < j \<and> j < length cs \<longrightarrow>
                     callstack_index (cs ! j) = orig
                     \<and> \<not> (cat_type (cs ! j) = DUK_CAT_TYPE_TCF \<and> finally_enabled (cs ! j))))
       \<or> (\<exists>k'. k' \<le> length cs
              \<and> (\<forall>m. k' \<le> m \<and> m < length cs \<longrightarrow>
                     callstack_index (cs ! m) = orig
                     \<and> \<not> (cat_type (cs ! m) = DUK_CAT_TYPE_TCF \<and> finally_enabled (cs ! m)))
              \<and> (k' = 0 \<or> callstack_index (cs ! (k' - 1)) \<noteq> orig)))
     \<and> (finally_found \<longrightarrow>
        duk__handle_longjmp X h thr entry_thread entry_callstack_top =
             bindE (duk__handle_catch_or_finally X (lj h) T i True) (\<lambda>T'.
               Inr (DUK__LONGJMP_RESTART, duk__wipe_lj (put_thread h thr T'))))
     \<and> (no_finally \<and> thr = entry_thread \<and> length (callstack T) = entry_callstack_top
        \<and> length (valstack T) < valstack_size T \<longrightarrow>
          duk__handle_longjmp X h thr entry_thread entry_callstack_top =
            Inr (DUK__LONGJMP_FINISHED,
                 duk__wipe_lj (put_thread h thr (T\<lparr>valstack := valstack T @ [value1 (lj h)]\<rparr>))))
     \<and> (no_finally \<and> \<not> (thr = entry_thread \<and> length (callstack T) = entry_callstack_top)
        \<and> 2 \<le> length (callstack T)
        \<and> func caller = Some (COMPILEDFUNCTION hf)
        \<and> idx_bottom caller \<le> idx_retval caller
        \<and> idx_retval caller < idx_bottom caller + nregs hf
        \<and> idx_retval caller < length (valstack T)
        \<and> idx_retval caller < valstack_size T
        \<and> idx_bottom caller + nregs hf + DUK_VALSTACK_INTERNAL_EXTRA X \<le> valstack_max T \<longrightarrow>
          duk__handle_longjmp X h thr entry_thread entry_callstack_top =
            Inr (DUK__LONGJMP_RESTART,
                 duk__wipe_lj (put_thread h thr (T\<lparr>
                   valstack := take (idx_retval caller + 1) ((valstack T)[idx_retval caller := value1 (lj h)])
                       @ replicate (idx_bottom caller + nregs hf - (idx_retval caller + 1)) TV_Undefined,
                   valstack_bottom := idx_bottom caller,
                   valstack_size := idx_bottom caller + nregs hf + DUK_VALSTACK_INTERNAL_EXTRA X,
                   callstack := butlast (callstack T),
                   catchstack := take k (catchstack T)\<rparr>))))
     \<and> (no_finally \<and> \<not> (thr = entry_thread \<and> length (callstack T) = entry_callstack_top)
        \<and> length (callstack T) < 2
        \<and> resumer T = Some r \<and> r < length (threads h)
        \<and> state T = DUK_HTHREAD_STATE_RUNNING \<and> state R = DUK_HTHREAD_STATE_RESUMED
        \<and> 2 \<le> length (callstack R)
        \<and> func site = Some (COMPILEDFUNCTION hr)
        \<and> idx_bottom site \<le> idx_retval site
        \<and> idx_retval site < idx_bottom site + nregs hr
        \<and> idx_retval site < length (valstack R)
        \<and> idx_retval site < valstack_size R
        \<and> idx_bottom site + nregs hr + DUK_VALSTACK_INTERNAL_EXTRA X \<le> valstack_max R \<longrightarrow>
          duk__handle_longjmp X h thr entry_thread entry_callstack_top =
            Inr (DUK__LONGJMP_RESTART,
                 duk__wipe_lj ((put_thread
                    (put_thread h thr (T\<lparr>state := DUK_HTHREAD_STATE_TERMINATED, resumer := None\<rparr>))
                    r (R\<lparr>
                      state := DUK_HTHREAD_STATE_RUNNING,
                      valstack := take (idx_retval site + 1) ((valstack R)[idx_retval site := value1 (lj h)])
                          @ replicate (idx_bottom site + nregs hr - (idx_retval site + 1)) TV_Undefined,
                      valstack_bottom := idx_bottom site,
                      valstack_size := idx_bottom site + nregs hr + DUK_VALSTACK_INTERNAL_EXTRA X,
                      callstack := butlast (callstack R)\<rparr>))\<lparr>curr_thread := r\<rparr>)))"
proof -
  define W where "W = duk__return_walk (catchstack T) (size_minus_1 (length (callstack T)))
                  (length (catchstack T))"
  note sw = switch_return [OF thr ty, of X entry_thread entry_callstack_top, folded T, folded W_def]
  have W: "W = duk__return_walk cs orig (length cs)" by (simp add: W_def cs orig)
  have wf: "W = Inl i" if finally_found
    using that unfolding fin W by (intro return_walk_finds) simp_all
  have wn: "W = Inr k" if no_finally
    using that unfolding nofin W by (intro return_walk_none) simp_all
  have p0: "(\<exists>i'. i' < length cs \<and> callstack_index (cs ! i') = orig
              \<and> cat_type (cs ! i') = DUK_CAT_TYPE_TCF \<and> finally_enabled (cs ! i')
              \<and> (\<forall>j. i' < j \<and> j < length cs \<longrightarrow>
                     callstack_index (cs ! j) = orig
                     \<and> \<not> (cat_type (cs ! j) = DUK_CAT_TYPE_TCF \<and> finally_enabled (cs ! j))))
       \<or> (\<exists>k'. k' \<le> length cs
              \<and> (\<forall>m. k' \<le> m \<and> m < length cs \<longrightarrow>
                     callstack_index (cs ! m) = orig
                     \<and> \<not> (cat_type (cs ! m) = DUK_CAT_TYPE_TCF \<and> finally_enabled (cs ! m)))
              \<and> (k' = 0 \<or> callstack_index (cs ! (k' - 1)) \<noteq> orig))"
  proof (cases W)
    case (Inl i')
    from Inl W have w: "duk__return_walk cs orig (length cs) = Inl i'" by simp
    from return_walk_Inl [OF w] return_walk_Inl_above [OF w] show ?thesis by blast
  next
    case (Inr k')
    from Inr W have w: "duk__return_walk cs orig (length cs) = Inr k'" by simp
    from return_walk_Inr_run [OF w] show ?thesis by blast
  qed
  have p1: "i < length (catchstack T)
        \<and> callstack_index (catchstack T ! i) = size_minus_1 (length (callstack T))
        \<and> cat_type (catchstack T ! i) = DUK_CAT_TYPE_TCF \<and> finally_enabled (catchstack T ! i)
        \<and> duk__handle_longjmp X h thr entry_thread entry_callstack_top =
             bindE (duk__handle_catch_or_finally X (lj h) T i True) (\<lambda>T'.
               Inr (DUK__LONGJMP_RESTART, duk__wipe_lj (put_thread h thr T')))"
    if w: "W = Inl i"
  proof -
    from w W_def return_walk_Inl [of "catchstack T" "size_minus_1 (length (callstack T))" "length (catchstack T)" i]
    have a: "i < length (catchstack T)"
        "callstack_index (catchstack T ! i) = size_minus_1 (length (callstack T))"
        "cat_type (catchstack T ! i) = DUK_CAT_TYPE_TCF" "finally_enabled (catchstack T ! i)"
      by simp_all
    have "duk__handle_longjmp X h thr entry_thread entry_callstack_top =
             bindE (duk__handle_catch_or_finally X (lj h) T i True) (\<lambda>T'.
               Inr (DUK__LONGJMP_RESTART, duk__wipe_lj (put_thread h thr T')))"
      by (rule handle_longjmp_bind_wipe) (simp add: sw w)
    with a show ?thesis by simp
  qed
  have p2: "duk__handle_longjmp X h thr entry_thread entry_callstack_top =
            Inr (DUK__LONGJMP_FINISHED,
                 duk__wipe_lj (put_thread h thr (T\<lparr>valstack := valstack T @ [value1 (lj h)]\<rparr>)))"
    if w: "W = Inr k" and e: "thr = entry_thread" "length (callstack T) = entry_callstack_top"
      and room: "length (valstack T) < valstack_size T"
  proof -
    have "duk__handle_longjmp_switch X h thr entry_thread entry_callstack_top =
            Inr (Wipe_and_return DUK__LONGJMP_FINISHED
                   (put_thread h thr (T\<lparr>valstack := valstack T @ [value1 (lj h)]\<rparr>)))"
      unfolding sw w using e room by (simp add: push1)
    then show ?thesis by (rule handle_longjmp_wipe)
  qed
  have p3: "duk__handle_longjmp X h thr entry_thread entry_callstack_top =
            Inr (DUK__LONGJMP_RESTART,
                 duk__wipe_lj (put_thread h thr (T\<lparr>
                   valstack := take (idx_retval caller + 1) ((valstack T)[idx_retval caller := value1 (lj h)])
                       @ replicate (idx_bottom caller + nregs hf - (idx_retval caller + 1)) TV_Undefined,
                   valstack_bottom := idx_bottom caller,
                   valstack_size := idx_bottom caller + nregs hf + DUK_VALSTACK_INTERNAL_EXTRA X,
                   callstack := butlast (callstack T),
                   catchstack := take k (catchstack T)\<rparr>)))"
    if w: "W = Inr k" and ne: "\<not> (thr = entry_thread \<and> length (callstack T) = entry_callstack_top)"
      and two: "2 \<le> length (callstack T)"
      and f: "func caller = Some (COMPILEDFUNCTION hf)"
      and b: "idx_bottom caller \<le> idx_retval caller" "idx_retval caller < idx_bottom caller + nregs hf"
        "idx_retval caller < length (valstack T)" "idx_retval caller < valstack_size T"
        "idx_bottom caller + nregs hf + DUK_VALSTACK_INTERNAL_EXTRA X \<le> valstack_max T"
  proof -
    define a where "a = length (callstack T) - 2"
    define T3 where "T3 = T\<lparr>valstack := (valstack T)[idx_retval caller := value1 (lj h)],
                            catchstack := take k (catchstack T),
                            callstack := take (length (callstack T) - 1) (callstack T)\<rparr>"
    have st: "valstack_store T (idx_retval caller) (value1 (lj h))
                = Inr (T\<lparr>valstack := (valstack T)[idx_retval caller := value1 (lj h)]\<rparr>)"
      using b by (simp add: valstack_store_def)
    have l3: "length (callstack T3) - 1 = a" "a < length (callstack T3)" "callstack T3 ! a = caller"
      using two by (auto simp add: T3_def a_def caller)
    have rc: "duk__reconfig_valstack X T3 a 1 =
           Inr (T3\<lparr>valstack_bottom := idx_bottom (callstack T3 ! a),
                   valstack := take (idx_retval (callstack T3 ! a) + 1) (valstack T3)
                     @ replicate (idx_bottom (callstack T3 ! a) + nregs hf
                                    - (idx_retval (callstack T3 ! a) + 1)) TV_Undefined,
                   valstack_size := idx_bottom (callstack T3 ! a) + nregs hf
                                      + DUK_VALSTACK_INTERNAL_EXTRA X\<rparr>)"
      apply (rule reconfig_valstack_eq)
      using l3(2) f b unfolding l3(3)
      by (simp_all add: T3_def)
    have u: "duk_hthread_callstack_unwind
               (duk_hthread_catchstack_unwind
                  (T\<lparr>valstack := (valstack T)[idx_retval caller := value1 (lj h)]\<rparr>) k)
               (length (callstack (duk_hthread_catchstack_unwind
                  (T\<lparr>valstack := (valstack T)[idx_retval caller := value1 (lj h)]\<rparr>) k)) - 1) = T3"
      by (simp add: duk_hthread_callstack_unwind_def duk_hthread_catchstack_unwind_def T3_def)
    have s: "duk__handle_longjmp_switch X h thr entry_thread entry_callstack_top =
        Inr (Wipe_and_return DUK__LONGJMP_RESTART (put_thread h thr
           (T3\<lparr>valstack_bottom := idx_bottom caller,
                   valstack := take (idx_retval caller + 1) (valstack T3)
                     @ replicate (idx_bottom caller + nregs hf - (idx_retval caller + 1)) TV_Undefined,
                   valstack_size := idx_bottom caller + nregs hf + DUK_VALSTACK_INTERNAL_EXTRA X\<rparr>)))"
      unfolding sw w using ne two
      by (simp only: sum.case if_False if_True caller [symmetric] st bindE_simps Let_def u l3 rc)
    have e: "T3\<lparr>valstack_bottom := idx_bottom caller,
                   valstack := take (idx_retval caller + 1) (valstack T3)
                     @ replicate (idx_bottom caller + nregs hf - (idx_retval caller + 1)) TV_Undefined,
                   valstack_size := idx_bottom caller + nregs hf + DUK_VALSTACK_INTERNAL_EXTRA X\<rparr>
         = T\<lparr>valstack := take (idx_retval caller + 1) ((valstack T)[idx_retval caller := value1 (lj h)])
                       @ replicate (idx_bottom caller + nregs hf - (idx_retval caller + 1)) TV_Undefined,
                   valstack_bottom := idx_bottom caller,
                   valstack_size := idx_bottom caller + nregs hf + DUK_VALSTACK_INTERNAL_EXTRA X,
                   callstack := butlast (callstack T),
                   catchstack := take k (catchstack T)\<rparr>"
      by (rule duk_hthread.equality) (simp_all add: T3_def butlast_conv_take)
    show ?thesis
      by (rule handle_longjmp_wipe) (simp only: s e)
  qed
  have p4: "duk__handle_longjmp X h thr entry_thread entry_callstack_top =
            Inr (DUK__LONGJMP_RESTART,
                 duk__wipe_lj ((put_thread
                    (put_thread h thr (T\<lparr>state := DUK_HTHREAD_STATE_TERMINATED, resumer := None\<rparr>))
                    r (R\<lparr>
                      state := DUK_HTHREAD_STATE_RUNNING,
                      valstack := take (idx_retval site + 1) ((valstack R)[idx_retval site := value1 (lj h)])
                          @ replicate (idx_bottom site + nregs hr - (idx_retval site + 1)) TV_Undefined,
                      valstack_bottom := idx_bottom site,
                      valstack_size := idx_bottom site + nregs hr + DUK_VALSTACK_INTERNAL_EXTRA X,
                      callstack := butlast (callstack R)\<rparr>))\<lparr>curr_thread := r\<rparr>))"
    if w: "W = Inr k" and ne: "\<not> (thr = entry_thread \<and> length (callstack T) = entry_callstack_top)"
      and one: "length (callstack T) < 2"
      and rs: "resumer T = Some r" "r < length (threads h)"
      and sts: "state T = DUK_HTHREAD_STATE_RUNNING" "state R = DUK_HTHREAD_STATE_RESUMED"
      and two: "2 \<le> length (callstack R)"
      and f: "func site = Some (COMPILEDFUNCTION hr)"
      and b: "idx_bottom site \<le> idx_retval site" "idx_retval site < idx_bottom site + nregs hr"
        "idx_retval site < length (valstack R)" "idx_retval site < valstack_size R"
        "idx_bottom site + nregs hr + DUK_VALSTACK_INTERNAL_EXTRA X \<le> valstack_max R"
  proof -
    define a where "a = length (callstack R) - 2"
    define R3 where "R3 = R\<lparr>
             valstack := take (idx_retval site + 1) ((valstack R)[idx_retval site := value1 (lj h)])
                 @ replicate (idx_bottom site + nregs hr - (idx_retval site + 1)) TV_Undefined,
             valstack_bottom := idx_bottom site,
             valstack_size := idx_bottom site + nregs hr + DUK_VALSTACK_INTERNAL_EXTRA X,
             callstack := take (a + 1) (callstack R)\<rparr>"
    have neq: "r \<noteq> thr" using sts T R by auto
    have a: "a < length (callstack (threads h ! r))" "callstack R ! a = site"
      using two by (simp_all add: a_def R [symmetric] site)
    note hy0 = handle_yield_eq [OF rs(2) a(1), folded R, unfolded a(2), OF f b(1) b(3) b(2) b(4) b(5)]
    have hy: "duk__handle_yield X h r a = Inr (put_thread h r R3)"
      unfolding hy0 R3_def by simp
    have tk: "take (a + 1) (callstack R) = butlast (callstack R)"
      using two by (simp add: a_def butlast_conv_take) (metis Suc_diff_Suc Suc_1 Suc_le_lessD diff_Suc_eq_diff_pred numeral_2_eq_2)
    have g: "get_thread h r = Inr R" using rs by (simp add: R)
    have n2: "\<not> 2 \<le> length (callstack T)" "\<not> length (callstack R) < 2" using one two by simp_all
    have s: "duk__handle_longjmp_switch X h thr entry_thread entry_callstack_top =
        Inr (Wipe_and_return DUK__LONGJMP_RESTART (duk__terminate_and_switch (put_thread h r R3) thr r))"
      unfolding sw w using ne
      by (simp only: sum.case if_False n2 rs(1) option.case g bindE_simps a_def [symmetric] hy)
    have tk': "take (Suc a) (callstack R) = butlast (callstack R)" using tk by simp
    have rr: "R3\<lparr>state := DUK_HTHREAD_STATE_RUNNING\<rparr> = R\<lparr>
                      state := DUK_HTHREAD_STATE_RUNNING,
                      valstack := take (idx_retval site + 1) ((valstack R)[idx_retval site := value1 (lj h)])
                          @ replicate (idx_bottom site + nregs hr - (idx_retval site + 1)) TV_Undefined,
                      valstack_bottom := idx_bottom site,
                      valstack_size := idx_bottom site + nregs hr + DUK_VALSTACK_INTERNAL_EXTRA X,
                      callstack := butlast (callstack R)\<rparr>"
      by (rule duk_hthread.equality) (simp_all add: R3_def tk')
    have e: "duk__terminate_and_switch (put_thread h r R3) thr r =
          (put_thread
                    (put_thread h thr (T\<lparr>state := DUK_HTHREAD_STATE_TERMINATED, resumer := None\<rparr>))
                    r (R3\<lparr>state := DUK_HTHREAD_STATE_RUNNING\<rparr>))\<lparr>curr_thread := r\<rparr>"
      using neq thr rs(2)
      by (simp add: duk__terminate_and_switch_def put_thread_def duk_hthread_terminate_def Let_def
            T [symmetric] list_update_swap)
    show ?thesis
      by (rule handle_longjmp_wipe) (simp only: s e rr)
  qed
  have q1: "duk__handle_longjmp X h thr entry_thread entry_callstack_top =
             bindE (duk__handle_catch_or_finally X (lj h) T i True) (\<lambda>T'.
               Inr (DUK__LONGJMP_RESTART, duk__wipe_lj (put_thread h thr T')))"
    if finally_found
    using p1 [OF wf [OF that]] by simp
  note q2 = p2 [OF wn]
  note q3 = p3 [OF wn]
  note q4 = p4 [OF wn]
  show ?thesis
    apply (intro conjI impI)
        apply (rule p0)
       apply (erule q1)
      apply (elim conjE, erule (3) q2)
     apply (elim conjE, erule (8) q3)
    apply (elim conjE, erule (13) q4)
    done
qed



theorem return_outcomes_witness:
  "duk__handle_longjmp ext0 (heap_try lj_return) 0 0 1
     = Inr (DUK__LONGJMP_RESTART, heap_in_finally lj_idle DUK_LJ_TYPE_RETURN)
   \<and> duk__handle_longjmp ext0
        \<lparr>threads = [thr_try\<lparr>catchstack := [cat_finally, cat_label5]\<rparr>], curr_thread = 0, lj = lj_return\<rparr> 0 0 1
     = Inr (DUK__LONGJMP_RESTART, heap_in_finally lj_idle DUK_LJ_TYPE_RETURN)
   \<and> duk__handle_longjmp ext0 \<lparr>threads = [thr_try\<lparr>catchstack := []\<rparr>], curr_thread = 0, lj = lj_return\<rparr> 0 0 1
     = Inr (DUK__LONGJMP_FINISHED,
            \<lparr>threads = [thr_try\<lparr>catchstack := [],
                          valstack := [TV_Object 7, TV_Undefined, TV_Undefined, TV_Boolean True]\<rparr>],
             curr_thread = 0, lj = lj_idle\<rparr>)
   \<and> duk__handle_longjmp ext0 \<lparr>threads = [thr_nested], curr_thread = 0, lj = lj_return\<rparr> 0 0 1
     = Inr (DUK__LONGJMP_RESTART,
            \<lparr>threads = [thr_try\<lparr>valstack := [TV_Object 7, TV_Boolean True, TV_Undefined]\<rparr>],
             curr_thread = 0, lj = lj_idle\<rparr>)
   \<and> duk__handle_longjmp ext0 (heap_co lj_return) 1 0 1
     = Inr (DUK__LONGJMP_RESTART,
            \<lparr>threads = [thr_resumer\<lparr>state := DUK_HTHREAD_STATE_RUNNING,
                            valstack := [TV_Object 7, TV_Boolean True, TV_Undefined],
                            valstack_bottom := 0, valstack_size := 5, callstack := [frame_main]\<rparr>,
                        thr_co\<lparr>state := DUK_HTHREAD_STATE_TERMINATED, resumer := None\<rparr>],
             curr_thread = 0, lj = lj_idle\<rparr>)"
proof -
  have two: "j < 2 \<longleftrightarrow> j = 0 \<or> j = Suc 0" for j :: nat by auto
  define h1 where "h1 = heap_try lj_return"
  have t1: "0 < length (threads h1)" "lj_type (lj h1) = DUK_LJ_TYPE_RETURN"
    by (simp_all add: h1_def heap_try_def lj_return_def)
  note c1 = return_outcomes_in_order [where h = h1 and thr = 0 and X = ext0 and entry_thread = 0
      and entry_callstack_top = 1 and i = 0,
      OF t1(1) refl t1(2) refl refl refl refl refl refl refl, THEN conjunct2, THEN conjunct1]
  have w1: "(0 < length (catchstack (threads h1 ! 0))
          \<and> callstack_index (catchstack (threads h1 ! 0) ! 0) = size_minus_1 (length (callstack (threads h1 ! 0)))
          \<and> cat_type (catchstack (threads h1 ! 0) ! 0) = DUK_CAT_TYPE_TCF
          \<and> finally_enabled (catchstack (threads h1 ! 0) ! 0)
          \<and> (\<forall>j. 0 < j \<and> j < length (catchstack (threads h1 ! 0)) \<longrightarrow>
                 callstack_index (catchstack (threads h1 ! 0) ! j) = size_minus_1 (length (callstack (threads h1 ! 0)))
                 \<and> \<not> (cat_type (catchstack (threads h1 ! 0) ! j) = DUK_CAT_TYPE_TCF
                        \<and> finally_enabled (catchstack (threads h1 ! 0) ! j))))"
    by (auto simp add: h1_def heap_try_def thr_try_def cat_finally_def size_minus_1_def)
  from c1 [THEN mp, OF w1] have
    e1: "duk__handle_longjmp ext0 h1 0 0 1 =
             bindE (duk__handle_catch_or_finally ext0 (lj h1) (threads h1 ! 0) 0 True) (\<lambda>T'.
               Inr (DUK__LONGJMP_RESTART, duk__wipe_lj (put_thread h1 0 T')))"
    by simp
  have r1: "duk__handle_longjmp ext0 (heap_try lj_return) 0 0 1
     = Inr (DUK__LONGJMP_RESTART, heap_in_finally lj_idle DUK_LJ_TYPE_RETURN)"
    unfolding e1 [unfolded h1_def]
    by (simp add: fixture_defs handler_defs)
  define h5 where "h5 = \<lparr>threads = [thr_try\<lparr>catchstack := [cat_finally, cat_label5]\<rparr>],
                          curr_thread = 0, lj = lj_return\<rparr>"
  have t5: "0 < length (threads h5)" "lj_type (lj h5) = DUK_LJ_TYPE_RETURN"
    by (simp_all add: h5_def lj_return_def)
  note c5 = return_outcomes_in_order [where h = h5 and thr = 0 and X = ext0 and entry_thread = 0
      and entry_callstack_top = 1 and i = 0,
      OF t5(1) refl t5(2) refl refl refl refl refl refl refl, THEN conjunct2, THEN conjunct1]
  have w5: "(0 < length (catchstack (threads h5 ! 0))
          \<and> callstack_index (catchstack (threads h5 ! 0) ! 0) = size_minus_1 (length (callstack (threads h5 ! 0)))
          \<and> cat_type (catchstack (threads h5 ! 0) ! 0) = DUK_CAT_TYPE_TCF
          \<and> finally_enabled (catchstack (threads h5 ! 0) ! 0)
          \<and> (\<forall>j. 0 < j \<and> j < length (catchstack (threads h5 ! 0)) \<longrightarrow>
                 callstack_index (catchstack (threads h5 ! 0) ! j) = size_minus_1 (length (callstack (threads h5 ! 0)))
                 \<and> \<not> (cat_type (catchstack (threads h5 ! 0) ! j) = DUK_CAT_TYPE_TCF
                        \<and> finally_enabled (catchstack (threads h5 ! 0) ! j))))"
    by (auto simp add: h5_def thr_try_def cat_finally_def cat_label5_def size_minus_1_def two)
  from c5 [THEN mp, OF w5] have
    e5: "duk__handle_longjmp ext0 h5 0 0 1 =
             bindE (duk__handle_catch_or_finally ext0 (lj h5) (threads h5 ! 0) 0 True) (\<lambda>T'.
               Inr (DUK__LONGJMP_RESTART, duk__wipe_lj (put_thread h5 0 T')))"
    by simp
  have r5: "duk__handle_longjmp ext0
        \<lparr>threads = [thr_try\<lparr>catchstack := [cat_finally, cat_label5]\<rparr>], curr_thread = 0, lj = lj_return\<rparr> 0 0 1
     = Inr (DUK__LONGJMP_RESTART, heap_in_finally lj_idle DUK_LJ_TYPE_RETURN)"
    unfolding e5 [unfolded h5_def]
    by (simp add: fixture_defs cat_label5_def handler_defs)
  define h2 where "h2 = \<lparr>threads = [thr_try\<lparr>catchstack := []\<rparr>], curr_thread = 0, lj = lj_return\<rparr>"
  have t2: "0 < length (threads h2)" "lj_type (lj h2) = DUK_LJ_TYPE_RETURN"
    by (simp_all add: h2_def lj_return_def)
  note c2 = return_outcomes_in_order [where h = h2 and thr = 0 and X = ext0 and entry_thread = 0
      and entry_callstack_top = 1 and k = 0,
      OF t2(1) refl t2(2) refl refl refl refl refl refl refl,
      THEN conjunct2, THEN conjunct2, THEN conjunct1]
  have p2: "(0 \<le> length (catchstack (threads h2 ! 0))
          \<and> (\<forall>m. 0 \<le> m \<and> m < length (catchstack (threads h2 ! 0)) \<longrightarrow>
                 callstack_index (catchstack (threads h2 ! 0) ! m) = size_minus_1 (length (callstack (threads h2 ! 0)))
                 \<and> \<not> (cat_type (catchstack (threads h2 ! 0) ! m) = DUK_CAT_TYPE_TCF
                        \<and> finally_enabled (catchstack (threads h2 ! 0) ! m)))
          \<and> (0 = 0 \<or> callstack_index (catchstack (threads h2 ! 0) ! (0 - 1))
                         \<noteq> size_minus_1 (length (callstack (threads h2 ! 0)))))
        \<and> (0::nat) = 0 \<and> length (callstack (threads h2 ! 0)) = 1
        \<and> length (valstack (threads h2 ! 0)) < valstack_size (threads h2 ! 0)"
    by (auto simp add: h2_def thr_try_def)
  note e2 = c2 [THEN mp, OF p2]
  have r2: "duk__handle_longjmp ext0 \<lparr>threads = [thr_try\<lparr>catchstack := []\<rparr>], curr_thread = 0, lj = lj_return\<rparr> 0 0 1
     = Inr (DUK__LONGJMP_FINISHED,
            \<lparr>threads = [thr_try\<lparr>catchstack := [],
                          valstack := [TV_Object 7, TV_Undefined, TV_Undefined, TV_Boolean True]\<rparr>],
             curr_thread = 0, lj = lj_idle\<rparr>)"
    unfolding e2 [unfolded h2_def]
    by (simp add: fixture_defs duk__wipe_lj_def put_thread_def)
  define h3 where "h3 = \<lparr>threads = [thr_nested], curr_thread = 0, lj = lj_return\<rparr>"
  have t3: "0 < length (threads h3)" "lj_type (lj h3) = DUK_LJ_TYPE_RETURN"
    by (simp_all add: h3_def lj_return_def)
  note c3 = return_outcomes_in_order [where h = h3 and thr = 0 and X = ext0 and entry_thread = 0
      and entry_callstack_top = 1 and k = 1 and hf = fun_regs3,
      OF t3(1) refl t3(2) refl refl refl refl refl refl refl,
      THEN conjunct2, THEN conjunct2, THEN conjunct2, THEN conjunct1]
  have p3: "(1 \<le> length (catchstack (threads h3 ! 0))
          \<and> (\<forall>m. 1 \<le> m \<and> m < length (catchstack (threads h3 ! 0)) \<longrightarrow>
                 callstack_index (catchstack (threads h3 ! 0) ! m) = size_minus_1 (length (callstack (threads h3 ! 0)))
                 \<and> \<not> (cat_type (catchstack (threads h3 ! 0) ! m) = DUK_CAT_TYPE_TCF
                        \<and> finally_enabled (catchstack (threads h3 ! 0) ! m)))
          \<and> (1 = 0 \<or> callstack_index (catchstack (threads h3 ! 0) ! (1 - 1))
                         \<noteq> size_minus_1 (length (callstack (threads h3 ! 0)))))
        \<and> \<not> ((0::nat) = 0 \<and> length (callstack (threads h3 ! 0)) = 1)
        \<and> 2 \<le> length (callstack (threads h3 ! 0))
        \<and> func (callstack (threads h3 ! 0) ! (length (callstack (threads h3 ! 0)) - 2))
             = Some (COMPILEDFUNCTION fun_regs3)
        \<and> idx_bottom (callstack (threads h3 ! 0) ! (length (callstack (threads h3 ! 0)) - 2))
             \<le> idx_retval (callstack (threads h3 ! 0) ! (length (callstack (threads h3 ! 0)) - 2))
        \<and> idx_retval (callstack (threads h3 ! 0) ! (length (callstack (threads h3 ! 0)) - 2))
             < idx_bottom (callstack (threads h3 ! 0) ! (length (callstack (threads h3 ! 0)) - 2))
               + nregs fun_regs3
        \<and> idx_retval (callstack (threads h3 ! 0) ! (length (callstack (threads h3 ! 0)) - 2))
             < length (valstack (threads h3 ! 0))
        \<and> idx_retval (callstack (threads h3 ! 0) ! (length (callstack (threads h3 ! 0)) - 2))
             < valstack_size (threads h3 ! 0)
        \<and> idx_bottom (callstack (threads h3 ! 0) ! (length (callstack (threads h3 ! 0)) - 2))
             + nregs fun_regs3 + DUK_VALSTACK_INTERNAL_EXTRA ext0 \<le> valstack_max (threads h3 ! 0)"
    by (auto simp add: h3_def fixture_defs size_minus_1_def)
  note e3 = c3 [THEN mp, OF p3]
  have r3: "duk__handle_longjmp ext0 \<lparr>threads = [thr_nested], curr_thread = 0, lj = lj_return\<rparr> 0 0 1
     = Inr (DUK__LONGJMP_RESTART,
            \<lparr>threads = [thr_try\<lparr>valstack := [TV_Object 7, TV_Boolean True, TV_Undefined]\<rparr>],
             curr_thread = 0, lj = lj_idle\<rparr>)"
    unfolding e3 [unfolded h3_def]
    by (simp add: fixture_defs duk__wipe_lj_def put_thread_def)
  define h4 where "h4 = heap_co lj_return"
  have t4: "1 < length (threads h4)" "lj_type (lj h4) = DUK_LJ_TYPE_RETURN"
    by (simp_all add: h4_def heap_co_def lj_return_def)
  note c4 = return_outcomes_in_order [where h = h4 and thr = 1 and X = ext0 and entry_thread = 0
      and entry_callstack_top = 1 and k = 0 and r = 0 and hr = fun_regs3,
      OF t4(1) refl t4(2) refl refl refl refl refl refl refl,
      THEN conjunct2, THEN conjunct2, THEN conjunct2, THEN conjunct2]
  have p4: "(0 \<le> length (catchstack (threads h4 ! 1))
          \<and> (\<forall>m. 0 \<le> m \<and> m < length (catchstack (threads h4 ! 1)) \<longrightarrow>
                 callstack_index (catchstack (threads h4 ! 1) ! m) = size_minus_1 (length (callstack (threads h4 ! 1)))
                 \<and> \<not> (cat_type (catchstack (threads h4 ! 1) ! m) = DUK_CAT_TYPE_TCF
                        \<and> finally_enabled (catchstack (threads h4 ! 1) ! m)))
          \<and> (0 = 0 \<or> callstack_index (catchstack (threads h4 ! 1) ! (0 - 1))
                         \<noteq> size_minus_1 (length (callstack (threads h4 ! 1)))))
        \<and> \<not> ((1::nat) = 0 \<and> length (callstack (threads h4 ! 1)) = 1)
        \<and> length (callstack (threads h4 ! 1)) < 2
        \<and> resumer (threads h4 ! 1) = Some 0 \<and> 0 < length (threads h4)
        \<and> state (threads h4 ! 1) = DUK_HTHREAD_STATE_RUNNING
        \<and> state (threads h4 ! 0) = DUK_HTHREAD_STATE_RESUMED
        \<and> 2 \<le> length (callstack (threads h4 ! 0))
        \<and> func (callstack (threads h4 ! 0) ! (length (callstack (threads h4 ! 0)) - 2))
             = Some (COMPILEDFUNCTION fun_regs3)
        \<and> idx_bottom (callstack (threads h4 ! 0) ! (length (callstack (threads h4 ! 0)) - 2))
             \<le> idx_retval (callstack (threads h4 ! 0) ! (length (callstack (threads h4 ! 0)) - 2))
        \<and> idx_retval (callstack (threads h4 ! 0) ! (length (callstack (threads h4 ! 0)) - 2))
             < idx_bottom (callstack (threads h4 ! 0) ! (length (callstack (threads h4 ! 0)) - 2))
               + nregs fun_regs3
        \<and> idx_retval (callstack (threads h4 ! 0) ! (length (callstack (threads h4 ! 0)) - 2))
             < length (valstack (threads h4 ! 0))
        \<and> idx_retval (callstack (threads h4 ! 0) ! (length (callstack (threads h4 ! 0)) - 2))
             < valstack_size (threads h4 ! 0)
        \<and> idx_bottom (callstack (threads h4 ! 0) ! (length (callstack (threads h4 ! 0)) - 2))
             + nregs fun_regs3 + DUK_VALSTACK_INTERNAL_EXTRA ext0 \<le> valstack_max (threads h4 ! 0)"
    by (auto simp add: h4_def fixture_defs size_minus_1_def)
  note e4 = c4 [THEN mp, OF p4]
  have r4: "duk__handle_longjmp ext0 (heap_co lj_return) 1 0 1
     = Inr (DUK__LONGJMP_RESTART,
            \<lparr>threads = [thr_resumer\<lparr>state := DUK_HTHREAD_STATE_RUNNING,
                            valstack := [TV_Object 7, TV_Boolean True, TV_Undefined],
                            valstack_bottom := 0, valstack_size := 5, callstack := [frame_main]\<rparr>,
                        thr_co\<lparr>state := DUK_HTHREAD_STATE_TERMINATED, resumer := None\<rparr>],
             curr_thread = 0, lj = lj_idle\<rparr>)"
    unfolding e4 [unfolded h4_def]
    by (simp add: fixture_defs duk__wipe_lj_def put_thread_def)
  from r1 r5 r2 r3 r4 show ?thesis by (simp only: simp_thms)
qed

section \<open>A throw that nothing catches\<close>

text \<open>
  Claim C3. Let a longjmp of type throw reach the handler on thread \<open>thr\<close>, and let
  the walk of the catch stack (which in the entry thread stops below the entry frame)
  find no catch-enabled or finally-enabled catcher. If \<open>thr\<close> is the entry thread, the
  handler returns the rethrow result with the heap, and so the longjmp state, as they
  were, and the executor's catchpoint re-raises the error to its caller. Otherwise,
  with \<open>r\<close> the resumer of \<open>thr\<close>, the handler continues from its top on thread \<open>r\<close>
  in the heap where \<open>thr\<close> is terminated with its resumer reference cleared and \<open>r\<close>
  is the running current thread; the longjmp state is the same throw of the same
  value, so the handler's result is the one of that throw raised in the resumer.
\<close>

theorem uncaught_throw_rethrown_or_passed_to_resumer:
  assumes thr: "thr < length (threads h)"
    and T: "T = threads h ! thr"
    and ty: "lj_type (lj h) = DUK_LJ_TYPE_THROW"
    and uncaught: "duk__throw_walk (catchstack T) (thr = entry_thread)
                     (size_minus_1 entry_callstack_top) (length (catchstack T)) = None"
  shows
    "(thr = entry_thread \<longrightarrow>
        duk__handle_longjmp X h thr entry_thread entry_callstack_top = Inr (DUK__LONGJMP_RETHROW, h)
        \<and> (curr_thread h = thr \<longrightarrow>
             duk_js_execute_bytecode_catch X h entry_thread entry_callstack_top = Inr (Exec_rethrow h)))
     \<and> (thr \<noteq> entry_thread \<and> resumer T = Some r \<and> r < length (threads h) \<and> r \<noteq> thr \<longrightarrow>
        duk__handle_longjmp X h thr entry_thread entry_callstack_top =
          duk__handle_longjmp X
            ((put_thread
                (put_thread h thr (T\<lparr>state := DUK_HTHREAD_STATE_TERMINATED, resumer := None\<rparr>))
                r ((threads h ! r)\<lparr>state := DUK_HTHREAD_STATE_RUNNING\<rparr>))\<lparr>curr_thread := r\<rparr>)
            r entry_thread entry_callstack_top
        \<and> lj ((put_thread
                (put_thread h thr (T\<lparr>state := DUK_HTHREAD_STATE_TERMINATED, resumer := None\<rparr>))
                r ((threads h ! r)\<lparr>state := DUK_HTHREAD_STATE_RUNNING\<rparr>))\<lparr>curr_thread := r\<rparr>) = lj h)"
proof -
  note sw = switch_throw [OF thr ty, of X entry_thread entry_callstack_top, folded T, unfolded uncaught]
  have p1: "duk__handle_longjmp X h thr entry_thread entry_callstack_top = Inr (DUK__LONGJMP_RETHROW, h)"
    if e: "thr = entry_thread"
  proof -
    have "duk__handle_longjmp_switch X h thr entry_thread entry_callstack_top
            = Inr (Just_return DUK__LONGJMP_RETHROW h)"
      unfolding sw using e by simp
    then show ?thesis by (rule handle_longjmp_just)
  qed
  have p1': "duk_js_execute_bytecode_catch X h entry_thread entry_callstack_top = Inr (Exec_rethrow h)"
    if e: "thr = entry_thread" and c: "curr_thread h = thr"
    unfolding duk_js_execute_bytecode_catch_def c p1 [OF e]
    by (simp add: DUK__LONGJMP_RETHROW_def DUK__LONGJMP_RESTART_def)
  have p2: "duk__handle_longjmp X h thr entry_thread entry_callstack_top =
          duk__handle_longjmp X
            ((put_thread
                (put_thread h thr (T\<lparr>state := DUK_HTHREAD_STATE_TERMINATED, resumer := None\<rparr>))
                r ((threads h ! r)\<lparr>state := DUK_HTHREAD_STATE_RUNNING\<rparr>))\<lparr>curr_thread := r\<rparr>)
            r entry_thread entry_callstack_top"
    if ne: "thr \<noteq> entry_thread" and rs: "resumer T = Some r" "r < length (threads h)" "r \<noteq> thr"
  proof -
    have "duk__handle_longjmp_switch X h thr entry_thread entry_callstack_top
            = Inr (Check_longjmp (duk__terminate_and_switch h thr r) r)"
      unfolding sw using ne rs by simp
    then show ?thesis
      unfolding terminate_and_switch_eq [OF thr rs(2,3)] T [symmetric]
      by (rule handle_longjmp_check)
  qed
  from p1 p1' p2 show ?thesis by simp
qed

theorem uncaught_throw_witness:
  "duk__handle_longjmp ext0 \<lparr>threads = [thr_try\<lparr>catchstack := []\<rparr>], curr_thread = 0, lj = lj_throw\<rparr> 0 0 1
     = Inr (DUK__LONGJMP_RETHROW,
            \<lparr>threads = [thr_try\<lparr>catchstack := []\<rparr>], curr_thread = 0, lj = lj_throw\<rparr>)
   \<and> duk_js_execute_bytecode_catch ext0
        \<lparr>threads = [thr_try\<lparr>catchstack := []\<rparr>], curr_thread = 0, lj = lj_throw\<rparr> 0 1
     = Inr (Exec_rethrow \<lparr>threads = [thr_try\<lparr>catchstack := []\<rparr>], curr_thread = 0, lj = lj_throw\<rparr>)
   \<and> duk__handle_longjmp ext0 (heap_co lj_throw) 1 0 1
     = Inr (DUK__LONGJMP_RESTART,
            \<lparr>threads = [thr_resumer\<lparr>state := DUK_HTHREAD_STATE_RUNNING,
                            valstack := [TV_Object 7, TV_Object 8,
                                         TV_Number (uint_to_double DUK_LJ_TYPE_THROW)],
                            valstack_bottom := 0,
                            callstack := [frame_main\<lparr>pc := 20\<rparr>],
                            catchstack := [cat_finally]\<rparr>,
                        thr_co\<lparr>state := DUK_HTHREAD_STATE_TERMINATED, resumer := None\<rparr>],
             curr_thread = 0, lj = lj_idle\<rparr>)"
proof -
  define ha where "ha = \<lparr>threads = [thr_try\<lparr>catchstack := []\<rparr>], curr_thread = 0, lj = lj_throw\<rparr>"
  have ta: "0 < length (threads ha)" "lj_type (lj ha) = DUK_LJ_TYPE_THROW"
    "duk__throw_walk (catchstack (threads ha ! 0)) ((0::nat) = 0) (size_minus_1 1)
       (length (catchstack (threads ha ! 0))) = None"
    by (simp_all add: ha_def lj_throw_def)
  note ca = uncaught_throw_rethrown_or_passed_to_resumer [where h = ha and thr = 0 and X = ext0
      and entry_thread = 0 and entry_callstack_top = 1, OF ta(1) refl ta(2) ta(3), THEN conjunct1,
      THEN mp, OF refl]
  have cu: "curr_thread ha = 0" by (simp add: ha_def)
  note ra1 = ca [THEN conjunct1]
  note ra2 = ca [THEN conjunct2, THEN mp, OF cu]
  define hb where "hb = heap_co lj_throw"
  have tb: "1 < length (threads hb)" "lj_type (lj hb) = DUK_LJ_TYPE_THROW"
    "duk__throw_walk (catchstack (threads hb ! 1)) ((1::nat) = 0) (size_minus_1 1)
       (length (catchstack (threads hb ! 1))) = None"
    by (simp_all add: hb_def heap_co_def lj_throw_def thr_co_def thr_try_def)
  have pb: "(1::nat) \<noteq> 0 \<and> resumer (threads hb ! 1) = Some 0 \<and> 0 < length (threads hb) \<and> (0::nat) \<noteq> 1"
    by (simp add: hb_def heap_co_def thr_co_def)
  note cb = uncaught_throw_rethrown_or_passed_to_resumer [where h = hb and thr = 1 and X = ext0
      and entry_thread = 0 and entry_callstack_top = 1 and r = 0, OF tb(1) refl tb(2) tb(3),
      THEN conjunct2, THEN mp, OF pb, THEN conjunct1]
  have rb: "duk__handle_longjmp ext0 (heap_co lj_throw) 1 0 1
     = Inr (DUK__LONGJMP_RESTART,
            \<lparr>threads = [thr_resumer\<lparr>state := DUK_HTHREAD_STATE_RUNNING,
                            valstack := [TV_Object 7, TV_Object 8,
                                         TV_Number (uint_to_double DUK_LJ_TYPE_THROW)],
                            valstack_bottom := 0,
                            callstack := [frame_main\<lparr>pc := 20\<rparr>],
                            catchstack := [cat_finally]\<rparr>,
                        thr_co\<lparr>state := DUK_HTHREAD_STATE_TERMINATED, resumer := None\<rparr>],
             curr_thread = 0, lj = lj_idle\<rparr>)"
    unfolding cb [unfolded hb_def]
    apply (subst duk__handle_longjmp.simps)
    apply (simp add: fixture_defs lj_throw_def handler_defs lj_type_defs DUK__LONGJMP_RESTART_def)
    done
  from ra1 ra2 rb show ?thesis unfolding ha_def by (simp only: simp_thms)
qed

section \<open>Yielding an error\<close>

text \<open>
  Claim C10. Let a longjmp of type yield with the error flag set reach the handler on
  the running thread \<open>thr\<close>, whose resumer \<open>r\<close> is in the resumed state. One pass of
  the handler's switch ends at the jump back to its top with thread \<open>r\<close> and the heap
  \<open>h'\<close>, in which \<open>thr\<close> is in the yielded state (not terminated) with its resumer
  reference cleared and is otherwise as it was, \<open>r\<close> is the running current thread
  with its stacks as they were (nothing has been written at its \<open>resume\<close> call site),
  and the longjmp state is a throw of the same value. The handler's result is
  therefore that of this throw raised in the resumer: if nothing in the resumer takes
  it and the resumer is the entry thread, the result is rethrow with the heap \<open>h'\<close>;
  if catcher \<open>i\<close> of the resumer takes it, the result is restart in that catcher's
  catch or finally part, with \<open>thr\<close> still yielded with no resumer and \<open>r\<close> current.
\<close>

theorem yield_of_error_is_thrown_in_resumer:
  assumes thr: "thr < length (threads h)"
    and T: "T = threads h ! thr"
    and ty: "lj_type (lj h) = DUK_LJ_TYPE_YIELD"
    and err: "iserror (lj h)"
    and rs: "resumer T = Some r" "r < length (threads h)"
    and R: "R = threads h ! r"
    and sts: "state T = DUK_HTHREAD_STATE_RUNNING" "state R = DUK_HTHREAD_STATE_RESUMED"
    and h': "h' = (put_thread
                     (put_thread h thr (T\<lparr>state := DUK_HTHREAD_STATE_YIELDED, resumer := None\<rparr>))
                     r (R\<lparr>state := DUK_HTHREAD_STATE_RUNNING\<rparr>))
                  \<lparr>curr_thread := r, lj := (lj h)\<lparr>lj_type := DUK_LJ_TYPE_THROW\<rparr>\<rparr>"
    and W: "W = duk__throw_walk (catchstack R) (r = entry_thread) (size_minus_1 entry_callstack_top)
                  (length (catchstack R))"
  shows
    "duk__handle_longjmp_switch X h thr entry_thread entry_callstack_top = Inr (Check_longjmp h' r)
     \<and> duk__handle_longjmp X h thr entry_thread entry_callstack_top
          = duk__handle_longjmp X h' r entry_thread entry_callstack_top
     \<and> state (threads h' ! thr) = DUK_HTHREAD_STATE_YIELDED
     \<and> resumer (threads h' ! thr) = None
     \<and> threads h' ! thr = T\<lparr>state := DUK_HTHREAD_STATE_YIELDED, resumer := None\<rparr>
     \<and> curr_thread h' = r
     \<and> state (threads h' ! r) = DUK_HTHREAD_STATE_RUNNING
     \<and> threads h' ! r = R\<lparr>state := DUK_HTHREAD_STATE_RUNNING\<rparr>
     \<and> lj_type (lj h') = DUK_LJ_TYPE_THROW
     \<and> value1 (lj h') = value1 (lj h)
     \<and> (W = None \<and> r = entry_thread \<longrightarrow>
          duk__handle_longjmp X h thr entry_thread entry_callstack_top = Inr (DUK__LONGJMP_RETHROW, h'))
     \<and> (W = Some (i, is_finally) \<longrightarrow>
          duk__handle_longjmp X h thr entry_thread entry_callstack_top =
            bindE (duk__handle_catch_or_finally X (lj h') (R\<lparr>state := DUK_HTHREAD_STATE_RUNNING\<rparr>)
                     i is_finally) (\<lambda>R'.
              Inr (DUK__LONGJMP_RESTART, duk__wipe_lj (put_thread h' r R'))))
     \<and> (W = Some (i, is_finally)
          \<and> duk__handle_catch_or_finally X (lj h') (R\<lparr>state := DUK_HTHREAD_STATE_RUNNING\<rparr>)
               i is_finally = Inr R' \<longrightarrow>
          (\<exists>hf. duk__handle_longjmp X h thr entry_thread entry_callstack_top
                  = Inr (DUK__LONGJMP_RESTART, hf)
             \<and> threads hf ! thr = T\<lparr>state := DUK_HTHREAD_STATE_YIELDED, resumer := None\<rparr>
             \<and> threads hf ! r = R' \<and> curr_thread hf = r
             \<and> lj_type (lj hf) = DUK_LJ_TYPE_UNKNOWN))"
proof -
  have neq: "r \<noteq> thr" using sts T R by auto
  have g: "get_thread h thr = Inr T" "get_thread h r = Inr R"
    using thr rs by (simp_all add: T R)
  have t: "DUK_LJ_TYPE_YIELD \<noteq> DUK_LJ_TYPE_RESUME" by (simp add: lj_type_defs)
  have e: "(put_thread
             (put_thread
                (put_thread h thr (T\<lparr>state := DUK_HTHREAD_STATE_YIELDED\<rparr>)) thr
                (T\<lparr>state := DUK_HTHREAD_STATE_YIELDED, resumer := None\<rparr>)) r
             (R\<lparr>state := DUK_HTHREAD_STATE_RUNNING\<rparr>))
           \<lparr>curr_thread := r, lj := (lj h)\<lparr>lj_type := DUK_LJ_TYPE_THROW\<rparr>\<rparr> = h'"
    by (simp add: h' put_thread_def)
  have 0: "duk__handle_longjmp_switch X h thr entry_thread entry_callstack_top = Inr (Check_longjmp h' r)"
    using thr rs(2) neq
    by (simp add: duk__handle_longjmp_switch_def t ty duk__lj_yield_def g rs(1) err Let_def
          threads_put_same threads_put_other R [symmetric] e)
  then have 1: "duk__handle_longjmp X h thr entry_thread entry_callstack_top
       = duk__handle_longjmp X h' r entry_thread entry_callstack_top"
    by (rule handle_longjmp_check)
  have 2: "threads h' ! thr = T\<lparr>state := DUK_HTHREAD_STATE_YIELDED, resumer := None\<rparr>"
    "threads h' ! r = R\<lparr>state := DUK_HTHREAD_STATE_RUNNING\<rparr>"
    using thr rs(2) neq by (simp_all add: h' put_thread_def)
  have r': "r < length (threads h')" "lj_type (lj h') = DUK_LJ_TYPE_THROW" "thr < length (threads h')"
    using rs(2) thr by (simp_all add: h')
  note sw = switch_throw [OF r'(1,2), of X entry_thread entry_callstack_top, unfolded 2, simplified,
      folded W]
  have 3: "duk__handle_longjmp X h thr entry_thread entry_callstack_top = Inr (DUK__LONGJMP_RETHROW, h')"
    if "W = None" "r = entry_thread"
  proof -
    have "duk__handle_longjmp_switch X h' r entry_thread entry_callstack_top
            = Inr (Just_return DUK__LONGJMP_RETHROW h')"
      unfolding sw using that by simp
    then show ?thesis unfolding 1 by (rule handle_longjmp_just)
  qed
  have 4: "duk__handle_longjmp X h thr entry_thread entry_callstack_top =
            bindE (duk__handle_catch_or_finally X (lj h') (R\<lparr>state := DUK_HTHREAD_STATE_RUNNING\<rparr>)
                     i is_finally) (\<lambda>R'.
              Inr (DUK__LONGJMP_RESTART, duk__wipe_lj (put_thread h' r R')))"
    if "W = Some (i, is_finally)"
    unfolding 1 by (rule handle_longjmp_bind_wipe) (simp add: sw that)
  have 5: "\<exists>hf. duk__handle_longjmp X h thr entry_thread entry_callstack_top
                  = Inr (DUK__LONGJMP_RESTART, hf)
             \<and> threads hf ! thr = T\<lparr>state := DUK_HTHREAD_STATE_YIELDED, resumer := None\<rparr>
             \<and> threads hf ! r = R' \<and> curr_thread hf = r
             \<and> lj_type (lj hf) = DUK_LJ_TYPE_UNKNOWN"
    if w: "W = Some (i, is_finally)"
      and c: "duk__handle_catch_or_finally X (lj h') (R\<lparr>state := DUK_HTHREAD_STATE_RUNNING\<rparr>)
               i is_finally = Inr R'"
  proof -
    have "duk__handle_longjmp X h thr entry_thread entry_callstack_top
            = Inr (DUK__LONGJMP_RESTART, duk__wipe_lj (put_thread h' r R'))"
      unfolding 4 [OF w] c by simp
    moreover have "threads (duk__wipe_lj (put_thread h' r R')) ! thr
                     = T\<lparr>state := DUK_HTHREAD_STATE_YIELDED, resumer := None\<rparr>"
      using neq 2(1) by (simp add: duk__wipe_lj_def threads_put_other)
    moreover have "threads (duk__wipe_lj (put_thread h' r R')) ! r = R'"
      using r'(1) by (simp add: duk__wipe_lj_def threads_put_same)
    moreover have "curr_thread (duk__wipe_lj (put_thread h' r R')) = r"
      by (simp add: duk__wipe_lj_def h')
    moreover have "lj_type (lj (duk__wipe_lj (put_thread h' r R'))) = DUK_LJ_TYPE_UNKNOWN"
      by (simp add: duk__wipe_lj_def)
    ultimately show ?thesis by blast
  qed
  show ?thesis
    unfolding 2 using 0 1 3 4 5 by (simp add: h')
qed


theorem yield_of_error_witness:
  "duk__handle_longjmp_switch ext0 (heap_co lj_yield_error) 1 0 1
     = Inr (Check_longjmp
              \<lparr>threads = [thr_resumer\<lparr>state := DUK_HTHREAD_STATE_RUNNING\<rparr>,
                          thr_co\<lparr>state := DUK_HTHREAD_STATE_YIELDED, resumer := None\<rparr>],
               curr_thread = 0, lj = lj_yield_error\<lparr>lj_type := DUK_LJ_TYPE_THROW\<rparr>\<rparr> 0)
   \<and> duk__handle_longjmp ext0 (heap_co lj_yield_error) 1 0 1
     = Inr (DUK__LONGJMP_RESTART,
            \<lparr>threads = [thr_resumer\<lparr>state := DUK_HTHREAD_STATE_RUNNING,
                            valstack := [TV_Object 7, TV_Object 8,
                                         TV_Number (uint_to_double DUK_LJ_TYPE_THROW)],
                            valstack_bottom := 0,
                            callstack := [frame_main\<lparr>pc := 20\<rparr>],
                            catchstack := [cat_finally]\<rparr>,
                        thr_co\<lparr>state := DUK_HTHREAD_STATE_YIELDED, resumer := None\<rparr>],
             curr_thread = 0, lj = lj_idle\<rparr>)"
proof -
  define h where "h = heap_co lj_yield_error"
  have p: "1 < length (threads h)" "lj_type (lj h) = DUK_LJ_TYPE_YIELD" "iserror (lj h)"
    "resumer (threads h ! 1) = Some 0" "0 < length (threads h)"
    "state (threads h ! 1) = DUK_HTHREAD_STATE_RUNNING"
    "state (threads h ! 0) = DUK_HTHREAD_STATE_RESUMED"
    by (simp_all add: h_def heap_co_def lj_yield_error_def thr_co_def thr_try_def thr_resumer_def)
  note c = yield_of_error_is_thrown_in_resumer [where h = h and thr = 1 and r = 0 and X = ext0
      and entry_thread = 0 and entry_callstack_top = 1 and i = 0 and is_finally = False,
      OF p(1) refl p(2) p(3) p(4) p(5) refl p(6) p(7) refl refl]
  have w: "duk__throw_walk (catchstack (threads h ! 0)) ((0::nat) = 0) (size_minus_1 1)
             (length (catchstack (threads h ! 0))) = Some (0, False)"
    by (simp add: h_def fixture_defs size_minus_1_def)
  note c1 = c [THEN conjunct1]
  note c12 = c [THEN conjunct2, THEN conjunct2, THEN conjunct2, THEN conjunct2, THEN conjunct2,
      THEN conjunct2, THEN conjunct2, THEN conjunct2, THEN conjunct2, THEN conjunct2,
      THEN conjunct2, THEN conjunct1, THEN mp, OF w]
  have a: "duk__handle_longjmp_switch ext0 (heap_co lj_yield_error) 1 0 1
     = Inr (Check_longjmp
              \<lparr>threads = [thr_resumer\<lparr>state := DUK_HTHREAD_STATE_RUNNING\<rparr>,
                          thr_co\<lparr>state := DUK_HTHREAD_STATE_YIELDED, resumer := None\<rparr>],
               curr_thread = 0, lj = lj_yield_error\<lparr>lj_type := DUK_LJ_TYPE_THROW\<rparr>\<rparr> 0)"
    unfolding c1 [unfolded h_def]
    by (simp add: heap_co_def put_thread_def)
  have b: "duk__handle_longjmp ext0 (heap_co lj_yield_error) 1 0 1
     = Inr (DUK__LONGJMP_RESTART,
            \<lparr>threads = [thr_resumer\<lparr>state := DUK_HTHREAD_STATE_RUNNING,
                            valstack := [TV_Object 7, TV_Object 8,
                                         TV_Number (uint_to_double DUK_LJ_TYPE_THROW)],
                            valstack_bottom := 0,
                            callstack := [frame_main\<lparr>pc := 20\<rparr>],
                            catchstack := [cat_finally]\<rparr>,
                        thr_co\<lparr>state := DUK_HTHREAD_STATE_YIELDED, resumer := None\<rparr>],
             curr_thread = 0, lj = lj_idle\<rparr>)"
    unfolding c12 [unfolded h_def]
    by (simp add: fixture_defs lj_yield_error_def handler_defs)
  from a b show ?thesis by simp
qed

section \<open>Break and continue\<close>

text \<open>
  Claim C4. Let a longjmp of type break or continue, with the label id \<open>l\<close> as a number
  in \<open>value1\<close>, reach the handler while the top catcher belongs to the current
  (topmost) frame, as it does whenever the transfer is raised inside a labelled
  statement of the running function: catchers are created with the index of the
  running frame and unwound with it. The catchers of the current frame at the top of
  the catch stack are walked from the top, and exactly one of three cases holds.
  If the first catcher met that is a finally-enabled try-catch-finally catcher or a
  label catcher with id \<open>l\<close> is a finally-enabled one, \<open>i\<close>, the handler is
  \<open>duk__handle_catch_or_finally\<close> on \<open>i\<close> as a finally part followed by restart,
  whether or not a matching label catcher lies below it. If it is a label catcher
  with id \<open>l\<close>, \<open>i\<close>, the pc of the current frame becomes \<open>pc_base\<close> for break and
  \<open>pc_base + 1\<close> for continue, the catchers above \<open>i\<close> are unwound and \<open>i\<close> itself is
  kept, and the result is restart with the longjmp state wiped. If the catchers of
  the current frame hold neither, the internal error is raised.
\<close>

theorem break_continue_finally_before_label:
  assumes thr: "thr < length (threads h)"
    and T: "T = threads h ! thr"
    and ty: "lj_type (lj h) = DUK_LJ_TYPE_BREAK \<or> lj_type (lj h) = DUK_LJ_TYPE_CONTINUE"
    and v: "value1 (lj h) = TV_Number d" "double_to_uint d = Some l"
    and cs: "cs = catchstack T"
    and orig: "orig = length (callstack T) - 1"
    and frames: "callstack T \<noteq> []"
    and top: "cs \<noteq> []" "callstack_index (last cs) = orig"
    and fin: "finally_first =
                (i < length cs \<and> callstack_index (cs ! i) = orig
                 \<and> cat_type (cs ! i) = DUK_CAT_TYPE_TCF \<and> finally_enabled (cs ! i)
                 \<and> (\<forall>j. i < j \<and> j < length cs \<longrightarrow>
                        callstack_index (cs ! j) = orig
                        \<and> \<not> (cat_type (cs ! j) = DUK_CAT_TYPE_TCF \<and> finally_enabled (cs ! j))
                        \<and> \<not> (cat_type (cs ! j) = DUK_CAT_TYPE_LABEL \<and> cat_label (cs ! j) = l)))"
    and lab: "label_first =
                (i < length cs \<and> callstack_index (cs ! i) = orig
                 \<and> cat_type (cs ! i) = DUK_CAT_TYPE_LABEL \<and> cat_label (cs ! i) = l
                 \<and> (\<forall>j. i < j \<and> j < length cs \<longrightarrow>
                        callstack_index (cs ! j) = orig
                        \<and> \<not> (cat_type (cs ! j) = DUK_CAT_TYPE_TCF \<and> finally_enabled (cs ! j))
                        \<and> \<not> (cat_type (cs ! j) = DUK_CAT_TYPE_LABEL \<and> cat_label (cs ! j) = l)))"
    and nomatch: "no_match =
                (k \<le> length cs
                 \<and> (\<forall>m. k \<le> m \<and> m < length cs \<longrightarrow>
                        callstack_index (cs ! m) = orig
                        \<and> \<not> (cat_type (cs ! m) = DUK_CAT_TYPE_TCF \<and> finally_enabled (cs ! m))
                        \<and> \<not> (cat_type (cs ! m) = DUK_CAT_TYPE_LABEL \<and> cat_label (cs ! m) = l))
                 \<and> (k = 0 \<or> callstack_index (cs ! (k - 1)) \<noteq> orig))"
  shows
    "((\<exists>i'. i' < length cs \<and> callstack_index (cs ! i') = orig
                 \<and> cat_type (cs ! i') = DUK_CAT_TYPE_TCF \<and> finally_enabled (cs ! i')
                 \<and> (\<forall>j. i' < j \<and> j < length cs \<longrightarrow>
                        callstack_index (cs ! j) = orig
                        \<and> \<not> (cat_type (cs ! j) = DUK_CAT_TYPE_TCF \<and> finally_enabled (cs ! j))
                        \<and> \<not> (cat_type (cs ! j) = DUK_CAT_TYPE_LABEL \<and> cat_label (cs ! j) = l)))
       \<or> (\<exists>i'. i' < length cs \<and> callstack_index (cs ! i') = orig
                 \<and> cat_type (cs ! i') = DUK_CAT_TYPE_LABEL \<and> cat_label (cs ! i') = l
                 \<and> (\<forall>j. i' < j \<and> j < length cs \<longrightarrow>
                        callstack_index (cs ! j) = orig
                        \<and> \<not> (cat_type (cs ! j) = DUK_CAT_TYPE_TCF \<and> finally_enabled (cs ! j))
                        \<and> \<not> (cat_type (cs ! j) = DUK_CAT_TYPE_LABEL \<and> cat_label (cs ! j) = l)))
       \<or> (\<exists>k'. k' \<le> length cs
                 \<and> (\<forall>m. k' \<le> m \<and> m < length cs \<longrightarrow>
                        callstack_index (cs ! m) = orig
                        \<and> \<not> (cat_type (cs ! m) = DUK_CAT_TYPE_TCF \<and> finally_enabled (cs ! m))
                        \<and> \<not> (cat_type (cs ! m) = DUK_CAT_TYPE_LABEL \<and> cat_label (cs ! m) = l))
                 \<and> (k' = 0 \<or> callstack_index (cs ! (k' - 1)) \<noteq> orig)))
     \<and> (finally_first \<longrightarrow>
          duk__handle_longjmp X h thr entry_thread entry_callstack_top =
            bindE (duk__handle_catch_or_finally X (lj h) T i True) (\<lambda>T'.
              Inr (DUK__LONGJMP_RESTART, duk__wipe_lj (put_thread h thr T'))))
     \<and> (label_first \<longrightarrow>
          duk__handle_longjmp X h thr entry_thread entry_callstack_top =
            Inr (DUK__LONGJMP_RESTART,
                 duk__wipe_lj (put_thread h thr (T\<lparr>
                   callstack := (callstack T)[orig :=
                      (callstack T ! orig)\<lparr>pc := pc_base (cs ! i)
                         + (if lj_type (lj h) = DUK_LJ_TYPE_CONTINUE then 1 else 0)\<rparr>],
                   catchstack := take (i + 1) cs\<rparr>))))
     \<and> (no_match \<longrightarrow>
          duk__handle_longjmp X h thr entry_thread entry_callstack_top = Inl InternalError)"
proof -
  define W where "W = duk__label_walk (catchstack T) (callstack_index (last (catchstack T))) l
                  (length (catchstack T))"
  have ne: "catchstack T \<noteq> []" using top(1) cs by simp
  have W: "W = duk__label_walk cs orig l (length cs)" using top(2) by (simp add: W_def cs)
  note bc = break_continue_outcomes [OF thr T ty v ne W_def, where X = X
      and entry_thread = entry_thread and entry_callstack_top = entry_callstack_top]
  have p0: "(\<exists>i'. i' < length cs \<and> callstack_index (cs ! i') = orig
                 \<and> cat_type (cs ! i') = DUK_CAT_TYPE_TCF \<and> finally_enabled (cs ! i')
                 \<and> (\<forall>j. i' < j \<and> j < length cs \<longrightarrow>
                        callstack_index (cs ! j) = orig
                        \<and> \<not> (cat_type (cs ! j) = DUK_CAT_TYPE_TCF \<and> finally_enabled (cs ! j))
                        \<and> \<not> (cat_type (cs ! j) = DUK_CAT_TYPE_LABEL \<and> cat_label (cs ! j) = l)))
       \<or> (\<exists>i'. i' < length cs \<and> callstack_index (cs ! i') = orig
                 \<and> cat_type (cs ! i') = DUK_CAT_TYPE_LABEL \<and> cat_label (cs ! i') = l
                 \<and> (\<forall>j. i' < j \<and> j < length cs \<longrightarrow>
                        callstack_index (cs ! j) = orig
                        \<and> \<not> (cat_type (cs ! j) = DUK_CAT_TYPE_TCF \<and> finally_enabled (cs ! j))
                        \<and> \<not> (cat_type (cs ! j) = DUK_CAT_TYPE_LABEL \<and> cat_label (cs ! j) = l)))
       \<or> (\<exists>k'. k' \<le> length cs
                 \<and> (\<forall>m. k' \<le> m \<and> m < length cs \<longrightarrow>
                        callstack_index (cs ! m) = orig
                        \<and> \<not> (cat_type (cs ! m) = DUK_CAT_TYPE_TCF \<and> finally_enabled (cs ! m))
                        \<and> \<not> (cat_type (cs ! m) = DUK_CAT_TYPE_LABEL \<and> cat_label (cs ! m) = l))
                 \<and> (k' = 0 \<or> callstack_index (cs ! (k' - 1)) \<noteq> orig))"
    using label_walk_cases [of cs orig l "length cs"] by blast
  have p1: "duk__handle_longjmp X h thr entry_thread entry_callstack_top =
            bindE (duk__handle_catch_or_finally X (lj h) T i True) (\<lambda>T'.
              Inr (DUK__LONGJMP_RESTART, duk__wipe_lj (put_thread h thr T')))"
    if finally_first
  proof -
    have "W = Walk_finally i"
      using that unfolding fin W by (intro label_walk_finds_finally) simp_all
    with bc [where i = i] show ?thesis by simp
  qed
  have p2: "duk__handle_longjmp X h thr entry_thread entry_callstack_top =
            Inr (DUK__LONGJMP_RESTART,
                 duk__wipe_lj (put_thread h thr (T\<lparr>
                   callstack := (callstack T)[orig :=
                      (callstack T ! orig)\<lparr>pc := pc_base (cs ! i)
                         + (if lj_type (lj h) = DUK_LJ_TYPE_CONTINUE then 1 else 0)\<rparr>],
                   catchstack := take (i + 1) cs\<rparr>)))"
    if label_first
  proof -
    have "W = Walk_label i"
      using that unfolding lab W by (intro label_walk_finds_label) simp_all
    with bc [where i = i] frames show ?thesis by (simp add: cs orig)
  qed
  have p3: "duk__handle_longjmp X h thr entry_thread entry_callstack_top = Inl InternalError"
    if no_match
  proof -
    have "W = Walk_none"
      using that unfolding nomatch W by (intro label_walk_finds_none [where j = k]) simp_all
    with bc [where i = i] show ?thesis by simp
  qed
  show ?thesis
    apply (intro conjI impI)
       apply (rule p0)
      apply (erule p1)
     apply (erule p2)
    apply (erule p3)
    done
qed


theorem break_continue_witness:
  "duk__handle_longjmp ext0
        \<lparr>threads = [thr_try\<lparr>catchstack := [cat_label5, cat_finally]\<rparr>], curr_thread = 0, lj = lj_break5\<rparr> 0 0 1
     = Inr (DUK__LONGJMP_RESTART,
            \<lparr>threads = [thr_try\<lparr>valstack := [TV_Object 7, TV_Number (uint_to_double 5),
                                                TV_Number (uint_to_double DUK_LJ_TYPE_BREAK)],
                                   callstack := [frame_main\<lparr>pc := 21\<rparr>],
                                   catchstack := [cat_label5, cat_finally\<lparr>finally_enabled := False\<rparr>]\<rparr>],
             curr_thread = 0, lj = lj_idle\<rparr>)
   \<and> duk__handle_longjmp ext0
        \<lparr>threads = [thr_try\<lparr>catchstack := [cat_label5, cat_finally\<lparr>finally_enabled := False\<rparr>]\<rparr>], curr_thread = 0, lj = lj_break5\<rparr> 0 0 1
     = Inr (DUK__LONGJMP_RESTART,
            \<lparr>threads = [thr_try\<lparr>callstack := [frame_main\<lparr>pc := 30\<rparr>],
                                   catchstack := [cat_label5]\<rparr>],
             curr_thread = 0, lj = lj_idle\<rparr>)
   \<and> duk__handle_longjmp ext0
        \<lparr>threads = [thr_try\<lparr>catchstack := [cat_label5, cat_finally\<lparr>finally_enabled := False\<rparr>]\<rparr>], curr_thread = 0, lj = lj_continue5\<rparr> 0 0 1
     = Inr (DUK__LONGJMP_RESTART,
            \<lparr>threads = [thr_try\<lparr>callstack := [frame_main\<lparr>pc := 31\<rparr>],
                                   catchstack := [cat_label5]\<rparr>],
             curr_thread = 0, lj = lj_idle\<rparr>)
   \<and> duk__handle_longjmp ext0
        \<lparr>threads = [thr_try\<lparr>catchstack := [cat_finally\<lparr>finally_enabled := False\<rparr>]\<rparr>], curr_thread = 0, lj = lj_break5\<rparr> 0 0 1
     = Inl InternalError"
proof -
  have two: "j < 2 \<longleftrightarrow> j = 0 \<or> j = Suc 0" for j :: nat by auto
  have five: "double_to_uint (uint_to_double 5) = Some 5"
    by (rule double_to_uint_uint) simp
  define ha where "ha = \<lparr>threads = [thr_try\<lparr>catchstack := [cat_label5, cat_finally]\<rparr>], curr_thread = 0, lj = lj_break5\<rparr>"
  have tha: "0 < length (threads ha)"
    "lj_type (lj ha) = DUK_LJ_TYPE_BREAK \<or> lj_type (lj ha) = DUK_LJ_TYPE_CONTINUE"
    "value1 (lj ha) = TV_Number (uint_to_double 5)"
    "callstack (threads ha ! 0) \<noteq> []"
    "catchstack (threads ha ! 0) \<noteq> []"
    "callstack_index (last (catchstack (threads ha ! 0))) = length (callstack (threads ha ! 0)) - 1"
    by (simp_all add: ha_def fixture_defs lj_break5_def lj_continue5_def cat_label5_def lj_type_defs)
  have wha: "1 < length (catchstack (threads ha ! 0)) \<and> callstack_index ((catchstack (threads ha ! 0)) ! 1) = (length (callstack (threads ha ! 0)) - 1)
                 \<and> cat_type ((catchstack (threads ha ! 0)) ! 1) = DUK_CAT_TYPE_TCF \<and> finally_enabled ((catchstack (threads ha ! 0)) ! 1)
                 \<and> (\<forall>j. 1 < j \<and> j < length (catchstack (threads ha ! 0)) \<longrightarrow>
                        callstack_index ((catchstack (threads ha ! 0)) ! j) = (length (callstack (threads ha ! 0)) - 1)
                        \<and> \<not> (cat_type ((catchstack (threads ha ! 0)) ! j) = DUK_CAT_TYPE_TCF \<and> finally_enabled ((catchstack (threads ha ! 0)) ! j))
                        \<and> \<not> (cat_type ((catchstack (threads ha ! 0)) ! j) = DUK_CAT_TYPE_LABEL \<and> cat_label ((catchstack (threads ha ! 0)) ! j) = 5))"
    by (auto simp add: ha_def fixture_defs cat_label5_def two)
  note cha = break_continue_finally_before_label [where h = ha and thr = 0 and X = ext0
      and entry_thread = 0 and entry_callstack_top = 1 and i = 1,
      OF tha(1) refl tha(2) tha(3) five refl refl tha(4) tha(5) tha(6) refl refl refl,
      THEN conjunct2, THEN conjunct1, THEN mp, OF wha]
  have ra: "duk__handle_longjmp ext0
        \<lparr>threads = [thr_try\<lparr>catchstack := [cat_label5, cat_finally]\<rparr>], curr_thread = 0, lj = lj_break5\<rparr> 0 0 1
     = Inr (DUK__LONGJMP_RESTART,
            \<lparr>threads = [thr_try\<lparr>valstack := [TV_Object 7, TV_Number (uint_to_double 5),
                                                TV_Number (uint_to_double DUK_LJ_TYPE_BREAK)],
                                   callstack := [frame_main\<lparr>pc := 21\<rparr>],
                                   catchstack := [cat_label5, cat_finally\<lparr>finally_enabled := False\<rparr>]\<rparr>],
             curr_thread = 0, lj = lj_idle\<rparr>)"
    unfolding cha [unfolded ha_def]
    by (simp add: fixture_defs cat_label5_def lj_break5_def handler_defs)
  define hb where "hb = \<lparr>threads = [thr_try\<lparr>catchstack := [cat_label5, cat_finally\<lparr>finally_enabled := False\<rparr>]\<rparr>], curr_thread = 0, lj = lj_break5\<rparr>"
  have thb: "0 < length (threads hb)"
    "lj_type (lj hb) = DUK_LJ_TYPE_BREAK \<or> lj_type (lj hb) = DUK_LJ_TYPE_CONTINUE"
    "value1 (lj hb) = TV_Number (uint_to_double 5)"
    "callstack (threads hb ! 0) \<noteq> []"
    "catchstack (threads hb ! 0) \<noteq> []"
    "callstack_index (last (catchstack (threads hb ! 0))) = length (callstack (threads hb ! 0)) - 1"
    by (simp_all add: hb_def fixture_defs lj_break5_def lj_continue5_def cat_label5_def lj_type_defs)
  have whb: "0 < length (catchstack (threads hb ! 0)) \<and> callstack_index ((catchstack (threads hb ! 0)) ! 0) = (length (callstack (threads hb ! 0)) - 1)
                 \<and> cat_type ((catchstack (threads hb ! 0)) ! 0) = DUK_CAT_TYPE_LABEL \<and> cat_label ((catchstack (threads hb ! 0)) ! 0) = 5
                 \<and> (\<forall>j. 0 < j \<and> j < length (catchstack (threads hb ! 0)) \<longrightarrow>
                        callstack_index ((catchstack (threads hb ! 0)) ! j) = (length (callstack (threads hb ! 0)) - 1)
                        \<and> \<not> (cat_type ((catchstack (threads hb ! 0)) ! j) = DUK_CAT_TYPE_TCF \<and> finally_enabled ((catchstack (threads hb ! 0)) ! j))
                        \<and> \<not> (cat_type ((catchstack (threads hb ! 0)) ! j) = DUK_CAT_TYPE_LABEL \<and> cat_label ((catchstack (threads hb ! 0)) ! j) = 5))"
    by (auto simp add: hb_def fixture_defs cat_label5_def two)
  note chb = break_continue_finally_before_label [where h = hb and thr = 0 and X = ext0
      and entry_thread = 0 and entry_callstack_top = 1 and i = 0,
      OF thb(1) refl thb(2) thb(3) five refl refl thb(4) thb(5) thb(6) refl refl refl,
      THEN conjunct2, THEN conjunct2, THEN conjunct1, THEN mp, OF whb]
  have rb: "duk__handle_longjmp ext0
        \<lparr>threads = [thr_try\<lparr>catchstack := [cat_label5, cat_finally\<lparr>finally_enabled := False\<rparr>]\<rparr>], curr_thread = 0, lj = lj_break5\<rparr> 0 0 1
     = Inr (DUK__LONGJMP_RESTART,
            \<lparr>threads = [thr_try\<lparr>callstack := [frame_main\<lparr>pc := 30\<rparr>],
                                   catchstack := [cat_label5]\<rparr>],
             curr_thread = 0, lj = lj_idle\<rparr>)"
    unfolding chb [unfolded hb_def]
    by (simp add: fixture_defs cat_label5_def lj_break5_def handler_defs lj_type_defs)
  define hc where "hc = \<lparr>threads = [thr_try\<lparr>catchstack := [cat_label5, cat_finally\<lparr>finally_enabled := False\<rparr>]\<rparr>], curr_thread = 0, lj = lj_continue5\<rparr>"
  have thc: "0 < length (threads hc)"
    "lj_type (lj hc) = DUK_LJ_TYPE_BREAK \<or> lj_type (lj hc) = DUK_LJ_TYPE_CONTINUE"
    "value1 (lj hc) = TV_Number (uint_to_double 5)"
    "callstack (threads hc ! 0) \<noteq> []"
    "catchstack (threads hc ! 0) \<noteq> []"
    "callstack_index (last (catchstack (threads hc ! 0))) = length (callstack (threads hc ! 0)) - 1"
    by (simp_all add: hc_def fixture_defs lj_break5_def lj_continue5_def cat_label5_def lj_type_defs)
  have whc: "0 < length (catchstack (threads hc ! 0)) \<and> callstack_index ((catchstack (threads hc ! 0)) ! 0) = (length (callstack (threads hc ! 0)) - 1)
                 \<and> cat_type ((catchstack (threads hc ! 0)) ! 0) = DUK_CAT_TYPE_LABEL \<and> cat_label ((catchstack (threads hc ! 0)) ! 0) = 5
                 \<and> (\<forall>j. 0 < j \<and> j < length (catchstack (threads hc ! 0)) \<longrightarrow>
                        callstack_index ((catchstack (threads hc ! 0)) ! j) = (length (callstack (threads hc ! 0)) - 1)
                        \<and> \<not> (cat_type ((catchstack (threads hc ! 0)) ! j) = DUK_CAT_TYPE_TCF \<and> finally_enabled ((catchstack (threads hc ! 0)) ! j))
                        \<and> \<not> (cat_type ((catchstack (threads hc ! 0)) ! j) = DUK_CAT_TYPE_LABEL \<and> cat_label ((catchstack (threads hc ! 0)) ! j) = 5))"
    by (auto simp add: hc_def fixture_defs cat_label5_def two)
  note chc = break_continue_finally_before_label [where h = hc and thr = 0 and X = ext0
      and entry_thread = 0 and entry_callstack_top = 1 and i = 0,
      OF thc(1) refl thc(2) thc(3) five refl refl thc(4) thc(5) thc(6) refl refl refl,
      THEN conjunct2, THEN conjunct2, THEN conjunct1, THEN mp, OF whc]
  have rc: "duk__handle_longjmp ext0
        \<lparr>threads = [thr_try\<lparr>catchstack := [cat_label5, cat_finally\<lparr>finally_enabled := False\<rparr>]\<rparr>], curr_thread = 0, lj = lj_continue5\<rparr> 0 0 1
     = Inr (DUK__LONGJMP_RESTART,
            \<lparr>threads = [thr_try\<lparr>callstack := [frame_main\<lparr>pc := 31\<rparr>],
                                   catchstack := [cat_label5]\<rparr>],
             curr_thread = 0, lj = lj_idle\<rparr>)"
    unfolding chc [unfolded hc_def]
    by (simp add: fixture_defs cat_label5_def lj_continue5_def handler_defs lj_type_defs)
  define hd where "hd = \<lparr>threads = [thr_try\<lparr>catchstack := [cat_finally\<lparr>finally_enabled := False\<rparr>]\<rparr>], curr_thread = 0, lj = lj_break5\<rparr>"
  have thd: "0 < length (threads hd)"
    "lj_type (lj hd) = DUK_LJ_TYPE_BREAK \<or> lj_type (lj hd) = DUK_LJ_TYPE_CONTINUE"
    "value1 (lj hd) = TV_Number (uint_to_double 5)"
    "callstack (threads hd ! 0) \<noteq> []"
    "catchstack (threads hd ! 0) \<noteq> []"
    "callstack_index (last (catchstack (threads hd ! 0))) = length (callstack (threads hd ! 0)) - 1"
    by (simp_all add: hd_def fixture_defs lj_break5_def lj_continue5_def cat_label5_def lj_type_defs)
  have whd: "0 \<le> length (catchstack (threads hd ! 0))
                 \<and> (\<forall>m. 0 \<le> m \<and> m < length (catchstack (threads hd ! 0)) \<longrightarrow>
                        callstack_index ((catchstack (threads hd ! 0)) ! m) = (length (callstack (threads hd ! 0)) - 1)
                        \<and> \<not> (cat_type ((catchstack (threads hd ! 0)) ! m) = DUK_CAT_TYPE_TCF \<and> finally_enabled ((catchstack (threads hd ! 0)) ! m))
                        \<and> \<not> (cat_type ((catchstack (threads hd ! 0)) ! m) = DUK_CAT_TYPE_LABEL \<and> cat_label ((catchstack (threads hd ! 0)) ! m) = 5))
                 \<and> (0 = 0 \<or> callstack_index ((catchstack (threads hd ! 0)) ! (0 - 1)) \<noteq> (length (callstack (threads hd ! 0)) - 1))"
    by (auto simp add: hd_def fixture_defs cat_label5_def two)
  note chd = break_continue_finally_before_label [where h = hd and thr = 0 and X = ext0
      and entry_thread = 0 and entry_callstack_top = 1 and k = 0,
      OF thd(1) refl thd(2) thd(3) five refl refl thd(4) thd(5) thd(6) refl refl refl,
      THEN conjunct2, THEN conjunct2, THEN conjunct2, THEN mp, OF whd]
  have rd: "duk__handle_longjmp ext0
        \<lparr>threads = [thr_try\<lparr>catchstack := [cat_finally\<lparr>finally_enabled := False\<rparr>]\<rparr>], curr_thread = 0, lj = lj_break5\<rparr> 0 0 1
     = Inl InternalError"
    unfolding chd [unfolded hd_def] by simp
  from ra rb rc rd show ?thesis by (simp only: simp_thms)
qed

end
